(* ===== verification/Loader_Prelude.thy ===== *)
theory Loader_Prelude
  imports Main "HOL-Library.Word"
begin

text \<open>
  Shared vocabulary of the development: the machine words of the loader's C types, the flat
  32-bit physical memory every pointer of the loader addresses, little-endian loads and stores
  of 8, 16, 32 and 64 bits, cyclic address ranges, the two byte loops that the copy and fill
  routines run, and the frame lemmas the component theories apply.

  The loader is built with \<^verbatim>\<open>-m32\<close> (file rule.linux) and runs without paging, so
  \<^verbatim>\<open>size_t\<close>, \<^verbatim>\<open>unsigned long\<close> and pointers are 32 bits wide, every address is backed by a byte,
  and address arithmetic wraps modulo \<open>2 ^ 32\<close>.
\<close>

unbundle bit_operations_syntax

type_synonym u8 = "8 word"
type_synonym u16 = "16 word"
type_synonym u32 = "32 word"
type_synonym u64 = "64 word"

text \<open>Physical memory: one byte per 32-bit address.\<close>

type_synonym mem = "u32 \<Rightarrow> u8"

named_theorems mem_eval \<open>unfolds loads and stores down to single bytes, to evaluate on concrete memories\<close>
named_theorems frame \<open>what an operation leaves unchanged\<close>

section \<open>Little-endian scalars\<close>

fun word_of_le :: "u8 list \<Rightarrow> 'a::len word" where
  "word_of_le [] = 0"
| "word_of_le (b # bs) = ucast b OR push_bit 8 (word_of_le bs)"

fun store_bytes :: "u32 \<Rightarrow> u8 list \<Rightarrow> mem \<Rightarrow> mem" where
  "store_bytes a [] m = m"
| "store_bytes a (b # bs) m = store_bytes (a + 1) bs (m(a := b))"

definition load16 :: "mem \<Rightarrow> u32 \<Rightarrow> u16" where
  "load16 m a = word_of_le [m a, m (a + 1)]"

definition load32 :: "mem \<Rightarrow> u32 \<Rightarrow> u32" where
  "load32 m a = word_of_le [m a, m (a + 1), m (a + 2), m (a + 3)]"

definition load64 :: "mem \<Rightarrow> u32 \<Rightarrow> u64" where
  "load64 m a = word_of_le [m a, m (a + 1), m (a + 2), m (a + 3),
                            m (a + 4), m (a + 5), m (a + 6), m (a + 7)]"

definition store8 :: "u32 \<Rightarrow> u8 \<Rightarrow> mem \<Rightarrow> mem" where
  "store8 a v m = store_bytes a [v] m"

definition store16 :: "u32 \<Rightarrow> u16 \<Rightarrow> mem \<Rightarrow> mem" where
  "store16 a v m = store_bytes a [ucast v, ucast (drop_bit 8 v)] m"

definition store32 :: "u32 \<Rightarrow> u32 \<Rightarrow> mem \<Rightarrow> mem" where
  "store32 a v m = store_bytes a
     [ucast v, ucast (drop_bit 8 v), ucast (drop_bit 16 v), ucast (drop_bit 24 v)] m"

definition store64 :: "u32 \<Rightarrow> u64 \<Rightarrow> mem \<Rightarrow> mem" where
  "store64 a v m = store_bytes a
     [ucast v, ucast (drop_bit 8 v), ucast (drop_bit 16 v), ucast (drop_bit 24 v),
      ucast (drop_bit 32 v), ucast (drop_bit 40 v), ucast (drop_bit 48 v), ucast (drop_bit 56 v)] m"

lemmas [mem_eval] = load16_def load32_def load64_def store8_def store16_def store32_def store64_def

lemma div_mod_shift8: "\<not> k < 8 \<Longrightarrow> k div 8 = Suc ((k - 8) div 8) \<and> (k - 8) mod 8 = k mod (8::nat)"
  by (metis le_div_geq le_mod_geq linorder_not_less zero_less_numeral)

lemma bit_word_of_le:
  "bit (word_of_le bs :: 'a::len word) k \<longleftrightarrow>
     k < LENGTH('a) \<and> k div 8 < length bs \<and> bit (bs ! (k div 8)) (k mod 8)"
proof (induction bs arbitrary: k)
  case Nil
  then show ?case by simp
next
  case (Cons b bs)
  show ?case
  proof (cases "k < 8")
    case True
    then show ?thesis by (auto simp: bit_simps Cons)
  next
    case False
    with div_mod_shift8 [OF False] show ?thesis
      by (auto simp: bit_simps Cons dest: bit_imp_le_length)
  qed
qed

section \<open>Address ranges\<close>

lemma unat_bound:
  "unat (b :: u8) < 256" "unat (h :: u16) < 65536" "unat (w :: u32) < 4294967296"
  "unat (q :: u64) < 18446744073709551616"
  using unsigned_less [of b, where 'a = nat] unsigned_less [of h, where 'a = nat]
    unsigned_less [of w, where 'a = nat] unsigned_less [of q, where 'a = nat] by simp_all

text \<open>
  \<open>in_range a n x\<close>: the address \<open>x\<close> is one of the \<open>n\<close> bytes from \<open>a\<close> on, counted
  cyclically. \<open>sep a n b k\<close> is an executable criterion for two ranges that do not meet.
\<close>

definition in_range :: "u32 \<Rightarrow> nat \<Rightarrow> u32 \<Rightarrow> bool" where
  "in_range a n x \<longleftrightarrow> unat (x - a) < n"

definition sep :: "u32 \<Rightarrow> nat \<Rightarrow> u32 \<Rightarrow> nat \<Rightarrow> bool" where
  "sep a n b k \<longleftrightarrow> n \<le> unat (b - a) \<and> k \<le> unat (a - b)"

lemma sep_sym: "sep a n b k \<Longrightarrow> sep b k a n"
  by (simp add: sep_def)

lemma sep_in_range:
  assumes "sep a n b k" and "in_range b k x"
  shows "\<not> in_range a n x"
proof -
  have xb: "unat (x - b) < unat (a - b)" and n: "n \<le> unat (b - a)"
    using assms by (auto simp: sep_def in_range_def)
  have "a \<noteq> b" using xb by auto
  then have "unat (b - a) = 2 ^ 32 - unat (a - b)"
    using unat_bound(3) [of a] unat_bound(3) [of b]
    by (auto simp: unat_sub_if' word_unat_eq_iff split: if_splits)
  with xb have "unat (x - b) + unat (b - a) < 2 ^ 32"
    using unat_bound(3) [of "a - b"] by simp
  then have "unat ((x - b) + (b - a)) = unat (x - b) + unat (b - a)"
    by (subst unat_word_ariths(1)) simp
  then have "unat (b - a) \<le> unat (x - a)" by simp
  with n show ?thesis by (simp add: in_range_def)
qed

lemma in_range_linear:
  assumes "unat a + n \<le> 2 ^ 32"
  shows "in_range a n x \<longleftrightarrow> unat a \<le> unat x \<and> unat x < unat a + n"
  using assms by (auto simp: in_range_def unat_sub_if' split: if_splits)

lemma in_range_add [simp]: "in_range a n (a + k) \<longleftrightarrow> unat k < n"
  by (simp add: in_range_def)

lemma in_range_self [simp]: "in_range a n a \<longleftrightarrow> 0 < n"
  by (simp add: in_range_def)

lemma in_range_0 [simp]: "\<not> in_range a 0 x"
  by (simp add: in_range_def)

lemma in_range_mono: "in_range a n x \<Longrightarrow> n \<le> n' \<Longrightarrow> in_range a n' x"
  by (simp add: in_range_def)

lemma unat_diff_Suc:
  fixes x a :: u32
  assumes "x \<noteq> a"
  shows "unat (x - a) = Suc (unat (x - (a + 1)))"
proof -
  have "unat ((x - a) - 1) = unat (x - a) - 1" and "0 < unat (x - a)"
    using assms by (simp_all add: unat_minus_one unat_gt_0)
  then show ?thesis by (simp add: diff_diff_eq)
qed

lemma in_range_Suc: "Suc n \<le> 2 ^ 32 \<Longrightarrow> in_range a (Suc n) x \<longleftrightarrow> x = a \<or> in_range (a + 1) n x"
  by (cases "x = a") (auto simp: in_range_def unat_diff_Suc [of x a])

lemma not_in_range_next: "n < 2 ^ 32 \<Longrightarrow> \<not> in_range (a + 1) n a"
  using unat_diff_Suc [of a "a + 1"] by (simp add: in_range_def)

section \<open>Page rounding\<close>

lemma and_not_mask_eq: "x AND NOT (mask n) = push_bit n (drop_bit n (x :: 'a::len word))"
  by (rule bit_word_eqI) (auto simp: bit_simps)

lemma unat_and_page: "unat ((x :: u32) AND 0xFFFFF000) = unat x div 4096 * 4096"
proof -
  have "(0xFFFFF000 :: u32) = NOT (mask 12)" by (simp add: mask_numeral)
  then have "unat (x AND 0xFFFFF000) = take_bit 32 (take_bit 32 (unat x) div 4096 * 4096)"
    by (simp only: and_not_mask_eq unsigned_push_bit_eq unsigned_drop_bit_eq)
      (simp add: push_bit_eq_mult drop_bit_eq_div)
  also have "\<dots> = unat x div 4096 * 4096"
    using unat_bound(3) [of x] by (simp add: take_bit_nat_eq_self)
  finally show ?thesis .
qed

lemma add_max_word: "w + 0xFFFFFFFF = w - (1 :: u32)"
proof -
  have "(0xFFFFFFFF :: u32) = - 1" by (simp add: word_eq_iff_unsigned)
  then show ?thesis by (simp only:) simp
qed

lemma minus_page_word: "(- 4096 :: u32) = 0xFFFFF000"
  by (simp add: word_eq_iff_unsigned)

section \<open>Stores: what they write and what they keep\<close>

lemma store_bytes_apply:
  "length bs \<le> 2 ^ 32 \<Longrightarrow>
   store_bytes a bs m x = (if in_range a (length bs) x then bs ! unat (x - a) else m x)"
proof (induction bs arbitrary: a m)
  case Nil
  then show ?case by simp
next
  case (Cons b bs)
  have IH: "store_bytes (a + 1) bs (m(a := b)) x
      = (if in_range (a + 1) (length bs) x then bs ! unat (x - (a + 1)) else (m(a := b)) x)"
    using Cons by simp
  show ?case
  proof (cases "x = a")
    case True
    with Cons.prems not_in_range_next [of "length bs" a] IH show ?thesis by simp
  next
    case False
    with Cons.prems IH in_range_Suc [of "length bs" a x] show ?thesis
      by (auto simp: unat_diff_Suc [of x a])
  qed
qed

lemma store_bytes_other [frame]:
  "\<not> in_range a (length bs) x \<Longrightarrow> length bs \<le> 2 ^ 32 \<Longrightarrow> store_bytes a bs m x = m x"
  by (simp add: store_bytes_apply)

lemma load_cong:
  "(\<And>x. in_range a 2 x \<Longrightarrow> m x = m' x) \<Longrightarrow> load16 m a = load16 m' a"
  "(\<And>x. in_range a 4 x \<Longrightarrow> m x = m' x) \<Longrightarrow> load32 m a = load32 m' a"
  "(\<And>x. in_range a 8 x \<Longrightarrow> m x = m' x) \<Longrightarrow> load64 m a = load64 m' a"
  by (simp_all add: load16_def load32_def load64_def)

lemma store_bytes_nth:
  "length bs \<le> 2 ^ 32 \<Longrightarrow> unat k < length bs \<Longrightarrow> store_bytes a bs m (a + k) = bs ! unat k"
  by (simp add: store_bytes_apply)

definition le_bytes :: "nat \<Rightarrow> 'a::len word \<Rightarrow> u8 list" where
  "le_bytes n v = map (\<lambda>i. ucast (drop_bit (8 * i) v)) [0..<n]"

lemma length_le_bytes [simp]: "length (le_bytes n v) = n"
  by (simp add: le_bytes_def)

lemma word_of_le_bytes: "LENGTH('a) \<le> 8 * n \<Longrightarrow> word_of_le (le_bytes n v) = (v :: 'a::len word)"
  by (rule bit_word_eqI)
    (auto simp: bit_word_of_le le_bytes_def bit_simps less_mult_imp_div_less mult.commute)

lemma le_bytes_unroll:
  "le_bytes 2 v = [ucast v, ucast (drop_bit 8 v)]"
  "le_bytes 4 v = [ucast v, ucast (drop_bit 8 v), ucast (drop_bit 16 v), ucast (drop_bit 24 v)]"
  "le_bytes 8 v = [ucast v, ucast (drop_bit 8 v), ucast (drop_bit 16 v), ucast (drop_bit 24 v),
      ucast (drop_bit 32 v), ucast (drop_bit 40 v), ucast (drop_bit 48 v), ucast (drop_bit 56 v)]"
  by (simp_all add: le_bytes_def upt_rec)

lemma store_eq_bytes:
  "store8 a v8 m = store_bytes a [v8] m"
  "store16 a v16 m = store_bytes a (le_bytes 2 v16) m"
  "store32 a v32 m = store_bytes a (le_bytes 4 v32) m"
  "store64 a v64 m = store_bytes a (le_bytes 8 v64) m"
  by (simp_all only: store8_def store16_def store32_def store64_def le_bytes_unroll)

lemma store_other [frame]:
  "\<not> in_range a 1 x \<Longrightarrow> store8 a v8 m x = m x"
  "\<not> in_range a 2 x \<Longrightarrow> store16 a v16 m x = m x"
  "\<not> in_range a 4 x \<Longrightarrow> store32 a v32 m x = m x"
  "\<not> in_range a 8 x \<Longrightarrow> store64 a v64 m x = m x"
  by (simp_all add: store_eq_bytes store_bytes_apply del: store_bytes.simps)

lemma load_store [simp]:
  "store8 a v8 m a = v8"
  "load16 (store16 a v16 m) a = v16"
  "load32 (store32 a v32 m) a = v32"
  "load64 (store64 a v64 m) a = v64"
proof -
  show "load16 (store16 a v16 m) a = v16"
    unfolding load16_def store_eq_bytes
    by (simp add: store_bytes_apply le_bytes_unroll word_of_le_bytes [of 2, unfolded le_bytes_unroll]
        del: word_of_le.simps)
  show "load32 (store32 a v32 m) a = v32"
    unfolding load32_def store_eq_bytes
    by (simp add: store_bytes_apply le_bytes_unroll word_of_le_bytes [of 4, unfolded le_bytes_unroll]
        del: word_of_le.simps)
  show "load64 (store64 a v64 m) a = v64"
    unfolding load64_def store_eq_bytes
    by (simp add: store_bytes_apply le_bytes_unroll word_of_le_bytes [of 8, unfolded le_bytes_unroll]
        del: word_of_le.simps)
qed (simp add: store8_def)

section \<open>Byte loops\<close>

text \<open>
  \<open>fill_bytes\<close> is \<^verbatim>\<open>rep stosb\<close> and the loop \<^verbatim>\<open>while (n--) *p++ = v\<close>; \<open>move_bytes\<close> is
  \<^verbatim>\<open>rep movsb\<close> with the direction flag clear and the loop \<^verbatim>\<open>while (n--) *d++ = *s++\<close>: one byte
  at a time, upwards, so that a source byte that an earlier step overwrote is read back changed.
\<close>

fun fill_bytes :: "nat \<Rightarrow> u32 \<Rightarrow> u8 \<Rightarrow> mem \<Rightarrow> mem" where
  "fill_bytes 0 a v m = m"
| "fill_bytes (Suc n) a v m = fill_bytes n (a + 1) v (m(a := v))"

fun move_bytes :: "nat \<Rightarrow> u32 \<Rightarrow> u32 \<Rightarrow> mem \<Rightarrow> mem" where
  "move_bytes 0 d s m = m"
| "move_bytes (Suc n) d s m = move_bytes n (d + 1) (s + 1) (m(d := m s))"

lemma fill_bytes_apply:
  "n \<le> 2 ^ 32 \<Longrightarrow> fill_bytes n a v m x = (if in_range a n x then v else m x)"
proof (induction n arbitrary: a m)
  case 0
  then show ?case by simp
next
  case (Suc n)
  then show ?case using in_range_Suc [of n a x] by auto
qed

lemma move_bytes_other [frame]:
  "n \<le> 2 ^ 32 \<Longrightarrow> \<not> in_range d n x \<Longrightarrow> move_bytes n d s m x = m x"
proof (induction n arbitrary: d s m)
  case 0
  then show ?case by simp
next
  case (Suc n)
  then show ?case using in_range_Suc [of n d x] by auto
qed

lemma fill_bytes_other [frame]:
  "n \<le> 2 ^ 32 \<Longrightarrow> \<not> in_range a n x \<Longrightarrow> fill_bytes n a v m x = m x"
  by (simp add: fill_bytes_apply)

lemma sep_step:
  assumes "sep d (Suc n) s (Suc n)" and "Suc n \<le> 2 ^ 32"
  shows "sep (d + 1) n (s + 1) n"
  using assms by (simp add: sep_def)

lemma move_bytes_apply:
  assumes "n \<le> 2 ^ 32" and "sep d n s n"
  shows "move_bytes n d s m x = (if in_range d n x then m (s + (x - d)) else m x)"
  using assms
proof (induction n arbitrary: d s m)
  case 0
  then show ?case by simp
next
  case (Suc n)
  have off: "s + 1 + (x - (d + 1)) = s + (x - d)" by (simp add: algebra_simps)
  define m1 where "m1 = m(d := m s)"
  have "n \<le> 2 ^ 32" and "sep (d + 1) n (s + 1) n"
    using Suc.prems sep_step by simp_all
  from Suc.IH [OF this, of m1]
  have IH: "move_bytes n (d + 1) (s + 1) m1 x = (if in_range (d + 1) n x then m1 (s + (x - d)) else m1 x)"
    unfolding off .
  have "s + (x - d) \<noteq> d" if x: "in_range (d + 1) n x"
  proof
    assume eq: "s + (x - d) = d"
    have "in_range d (Suc n) x" using x in_range_Suc [of n d x] Suc.prems(1) by simp
    then have "in_range s (Suc n) d" using eq by (metis in_range_add in_range_def)
    then have "\<not> in_range d (Suc n) d" by (rule sep_in_range [OF Suc.prems(2)])
    then show False by simp
  qed
  then have "move_bytes n (d + 1) (s + 1) m1 x
      = (if in_range d (Suc n) x then m (s + (x - d)) else m x)"
    using IH in_range_Suc [of n d x] Suc.prems(1) not_in_range_next [of n d]
    by (auto simp: m1_def)
  then show ?case by (simp add: m1_def)
qed

section \<open>Windows of memory that stay the same\<close>

text \<open>
  \<open>inside b k a n\<close>: the \<open>k\<close> bytes at \<open>b\<close> lie in the window of \<open>n\<close> bytes at \<open>a\<close>.
  \<open>agree_on a n m m'\<close>: two memories show the same bytes in that window.
\<close>

definition inside :: "u32 \<Rightarrow> nat \<Rightarrow> u32 \<Rightarrow> nat \<Rightarrow> bool" where
  "inside b k a n \<longleftrightarrow> unat (b - a) + k \<le> n"

definition agree_on :: "u32 \<Rightarrow> nat \<Rightarrow> mem \<Rightarrow> mem \<Rightarrow> bool" where
  "agree_on a n m m' \<longleftrightarrow> (\<forall>x. in_range a n x \<longrightarrow> m x = m' x)"

lemma inside_in_range: "inside b k a n \<Longrightarrow> in_range b k x \<Longrightarrow> in_range a n x"
  using unat_word_ariths(1) [of "x - b" "b - a"]
  by (simp add: inside_def in_range_def)

lemma agree_on_refl [simp]: "agree_on a n m m"
  by (simp add: agree_on_def)

lemma agree_on_trans: "agree_on a n m m' \<Longrightarrow> agree_on a n m' m'' \<Longrightarrow> agree_on a n m m''"
  by (simp add: agree_on_def)

lemma agree_on_load:
  assumes "agree_on a n m m'"
  shows "inside b 2 a n \<Longrightarrow> load16 m b = load16 m' b"
    and "inside b 4 a n \<Longrightarrow> load32 m b = load32 m' b"
    and "inside b 8 a n \<Longrightarrow> load64 m b = load64 m' b"
  using assms inside_in_range by (auto simp: agree_on_def intro!: load_cong)

section \<open>Placing several blocks\<close>

text \<open>
  \<open>placed ld dst sz byte m i m'\<close>: of the blocks \<open>j < i\<close> that are to be loaded (\<open>ld j\<close>), each
  occupies its \<open>sz j\<close> bytes at \<open>dst j\<close> with the bytes \<open>byte j\<close>, and every address outside them has
  kept the byte it had in \<open>m\<close>.
\<close>

definition placed :: "(nat \<Rightarrow> bool) \<Rightarrow> (nat \<Rightarrow> u32) \<Rightarrow> (nat \<Rightarrow> nat) \<Rightarrow> (nat \<Rightarrow> u32 \<Rightarrow> u8)
    \<Rightarrow> mem \<Rightarrow> nat \<Rightarrow> mem \<Rightarrow> bool" where
  "placed ld dst sz byte m i m' \<longleftrightarrow>
     (\<forall>j < i. ld j \<longrightarrow> (\<forall>x. in_range (dst j) (sz j) x \<longrightarrow> m' x = byte j x))
     \<and> (\<forall>x. (\<forall>j < i. ld j \<longrightarrow> \<not> in_range (dst j) (sz j) x) \<longrightarrow> m' x = m x)"

lemma placed_0 [simp]: "placed ld dst sz byte m 0 m"
  by (simp add: placed_def)

lemma placed_skip: "placed ld dst sz byte m i m' \<Longrightarrow> \<not> ld i \<Longrightarrow> placed ld dst sz byte m (Suc i) m'"
  by (auto simp: placed_def less_Suc_eq)

lemma placed_step:
  assumes "placed ld dst sz byte m i m'"
    and "\<And>x. m'' x = (if in_range (dst i) (sz i) x then byte i x else m' x)"
    and "\<And>j. j < i \<Longrightarrow> ld j \<Longrightarrow> sep (dst i) (sz i) (dst j) (sz j)"
    and "ld i"
  shows "placed ld dst sz byte m (Suc i) m''"
proof -
  have "\<not> in_range (dst i) (sz i) x" if "j < i" "ld j" "in_range (dst j) (sz j) x" for j x
    using assms(3) [OF that(1,2)] that(3) by (rule sep_in_range)
  with assms(1,2,4) show ?thesis by (auto simp: placed_def less_Suc_eq)
qed

lemma placed_agree:
  assumes "placed ld dst sz byte m i m'"
    and "\<And>j. j < i \<Longrightarrow> ld j \<Longrightarrow> sep (dst j) (sz j) a n"
  shows "agree_on a n m m'"
proof -
  have "\<not> in_range (dst j) (sz j) x" if "j < i" "ld j" "in_range a n x" for j x
    using assms(2) [OF that(1,2)] that(3) by (rule sep_in_range)
  with assms(1) show ?thesis by (auto simp: placed_def agree_on_def)
qed

text \<open>A stored scalar as the bytes of a block, and reading it back from a placed block.\<close>

definition scalar_byte :: "nat \<Rightarrow> 'a::len word \<Rightarrow> u32 \<Rightarrow> u32 \<Rightarrow> u8" where
  "scalar_byte n v a x = le_bytes n v ! unat (x - a)"

lemma store_scalar:
  "store32 a v32 m x = (if in_range a 4 x then scalar_byte 4 v32 a x else m x)"
  "store64 a v64 m x = (if in_range a 8 x then scalar_byte 8 v64 a x else m x)"
  by (simp_all only: store_eq_bytes scalar_byte_def) (simp_all add: store_bytes_apply)

lemma load_scalar:
  "(\<And>x. in_range a 4 x \<Longrightarrow> m x = scalar_byte 4 v32 a x) \<Longrightarrow> load32 m a = v32"
  "(\<And>x. in_range a 8 x \<Longrightarrow> m x = scalar_byte 8 v64 a x) \<Longrightarrow> load64 m a = v64"
  using load_cong(2) [of a m "store32 a v32 m"] load_cong(3) [of a m "store64 a v64 m"]
  by (simp_all add: store_scalar)

lemma agree_on_self: "agree_on a 4 m m' \<Longrightarrow> load32 m' a = load32 m a"
  using agree_on_load(2) [of a 4 m m' a] by (simp add: inside_def)

section \<open>Lists\<close>

lemma find_SomeD: "find P xs = Some p \<Longrightarrow> p \<in> set xs \<and> P p"
  by (induction xs) (auto split: if_splits)

section \<open>Narrowing 64-bit addresses\<close>

lemma ucast_add64: "ucast (a + b :: u64) = (ucast a + ucast b :: u32)"
proof -
  have "uint (ucast (a + b) :: u32) = (uint a + uint b) mod 2 ^ 32"
    by (simp add: unsigned_ucast_eq uint_word_ariths take_bit_eq_mod mod_mod_cancel)
  also have "\<dots> = uint (ucast a + ucast b :: u32)"
    by (simp add: unsigned_ucast_eq uint_word_ariths take_bit_eq_mod mod_simps)
  finally show ?thesis by (simp only: word_uint_eq_iff)
qed

lemma ucast_diff64: "ucast (a - b :: u64) = (ucast a - ucast b :: u32)"
  using ucast_add64 [of "a - b" b] by (simp add: algebra_simps)

lemma ucast_up_down [simp]: "ucast (ucast (w :: u32) :: u64) = w"
  by (rule bit_word_eqI) (auto simp: bit_simps)

lemma unat_ucast_small: "unat (w :: u64) < 2 ^ 32 \<Longrightarrow> unat (ucast w :: u32) = unat w"
  by (simp add: unsigned_ucast_eq take_bit_nat_eq_self)

lemma unat_of_nat32: "n < 2 ^ 32 \<Longrightarrow> unat (of_nat n :: u32) = n"
  by (simp add: unsigned_of_nat take_bit_nat_eq_self)

section \<open>Splitting and shrinking ranges\<close>

lemma sep_iff_disjoint:
  assumes "0 < n" "0 < k" and "\<And>x. in_range a n x \<Longrightarrow> in_range b k x \<Longrightarrow> False"
  shows "sep a n b k"
proof -
  have "\<not> in_range b k a" "\<not> in_range a n b" using assms(1,2) assms(3) [of a] assms(3) [of b] by auto
  then show ?thesis by (simp add: sep_def in_range_def)
qed

lemma sep_inside:
  assumes "sep a n b k" "inside a' n' a n" "inside b' n' b k"
  shows "sep a' n' b' n'"
proof (cases "n' = 0")
  case True
  then show ?thesis by (simp add: sep_def)
next
  case False
  with assms show ?thesis
    using inside_in_range sep_in_range by (intro sep_iff_disjoint) blast+
qed

lemma blocks_apart:
  fixes p d d' :: u32
  assumes "in_range (p + d) n x" "unat d + n \<le> 2 ^ 32" "unat d' + n' \<le> unat d"
  shows "\<not> in_range (p + d') n' x"
proof -
  have "\<not> unat (y - d') < n'" if "unat (y - d) < n" for y
    using that assms(2,3) unat_bound(3) [of y] unat_bound(3) [of d]
    by (auto simp: unat_sub_if' split: if_splits)
  from this [of "x - p"] assms(1) show ?thesis by (simp add: in_range_def diff_diff_eq)
qed

lemma sep_part:
  assumes "sep a n b k" "inside b' k' b k" "0 < n" "0 < k'"
  shows "sep a n b' k'"
  using assms inside_in_range sep_in_range by (intro sep_iff_disjoint) blast+

lemma in_range_split:
  assumes "unat f + z \<le> 2 ^ 32"
  shows "in_range a (unat f + z) x \<longleftrightarrow> in_range a (unat f) x \<or> in_range (a + f) z x"
    and "in_range (a + f) z x \<Longrightarrow> \<not> in_range a (unat f) x"
proof -
  have "unat ((x - a) - f) = (if unat f \<le> unat (x - a) then unat (x - a) - unat f
      else unat (x - a) + 2 ^ 32 - unat f)"
    by (simp add: unat_sub_if')
  then show "in_range a (unat f + z) x \<longleftrightarrow> in_range a (unat f) x \<or> in_range (a + f) z x"
    and "in_range (a + f) z x \<Longrightarrow> \<not> in_range a (unat f) x"
    using assms by (auto simp: in_range_def diff_diff_eq split: if_splits)
qed

text \<open>A row of blocks of \<open>w\<close> bytes splits into its first \<open>p\<close> and the following \<open>q\<close> blocks.\<close>

lemma block_split:
  fixes e x :: u32
  assumes "w * (p + q) < 2 ^ 32"
  shows "in_range e (w * (p + q)) x \<longleftrightarrow> in_range e (w * p) x \<or> in_range (e + of_nat (w * p)) (w * q) x"
    and "in_range (e + of_nat (w * p)) (w * q) x \<Longrightarrow> \<not> in_range e (w * p) x"
proof -
  have "unat (of_nat (w * p) :: u32) = w * p" using assms by (intro unat_of_nat32) (simp add: distrib_left)
  with in_range_split [of "of_nat (w * p) :: u32" "w * q" e x] assms
  show "in_range e (w * (p + q)) x \<longleftrightarrow> in_range e (w * p) x \<or> in_range (e + of_nat (w * p)) (w * q) x"
    and "in_range (e + of_nat (w * p)) (w * q) x \<Longrightarrow> \<not> in_range e (w * p) x"
    by (simp_all add: distrib_left del: of_nat_mult)
qed

text \<open>A load from words that a store does not touch.\<close>

lemma load_after_store:
  "sep a 4 b 4 \<Longrightarrow> load32 (store32 a v32 m) b = load32 m b"
  "sep a 4 b 8 \<Longrightarrow> load64 (store32 a v32 m) b = load64 m b"
  "sep a 8 b 4 \<Longrightarrow> load32 (store64 a v64 m) b = load32 m b"
  "sep a 8 b 8 \<Longrightarrow> load64 (store64 a v64 m) b = load64 m b"
  by (auto intro!: load_cong simp: store_other sep_in_range)

lemma ucast_of_nat64: "ucast (of_nat n :: u64) = (of_nat n :: u32)"
proof -
  have "unat (ucast (of_nat n :: u64) :: u32) = unat (of_nat n :: u32)"
    by (simp add: unsigned_ucast_eq unsigned_of_nat take_bit_eq_mod mod_mod_cancel)
  then show ?thesis by (simp only: word_unat_eq_iff)
qed

end
