(* ===== verification/Loader_Memory.thy ===== *)
theory Loader_Memory
  imports Loader_Prelude
begin

text \<open>
  The byte utilities of \<^verbatim>\<open>common/util/linux/common.c\<close> and the loader's heap,
  \<^verbatim>\<open>pre_os/xmon_loader/utils/memory/memory.c\<close>: a bump allocator over the globals
  \<open>heap_base\<close>, \<open>heap_current\<close> and \<open>heap_tops\<close>, which never frees.

  \<^verbatim>\<open>ALIGN_FORWARD\<close> comes from a header of the monitor's core that is not part of the loader;
  it is the parameter \<open>af\<close> here, and \<open>ALIGN_FORWARD_ok\<close> is what the page allocator relies on.
  The debug prints of the allocator are macros that expand to nothing in a release build.
\<close>

section \<open>State\<close>

text \<open>
  The state of the loader that its C code keeps in memory and in globals: physical memory, the
  three variables of memory.c, and the text cursor of screen.c.
\<close>

record loader_state =
  mem :: mem
  heap_base :: u32
  heap_current :: u32
  heap_tops :: u32
  cursor :: u32

section \<open>common.c\<close>

definition mon_memset :: "u32 \<Rightarrow> u8 \<Rightarrow> u32 \<Rightarrow> mem \<Rightarrow> mem" where
  "mon_memset dest val count m = fill_bytes (unat count) dest val m"

definition mon_memcpy :: "u32 \<Rightarrow> u32 \<Rightarrow> u32 \<Rightarrow> mem \<Rightarrow> mem" where
  "mon_memcpy dest src count m = move_bytes (unat count) dest src m"

text \<open>
  The scan of a string. It does not return on a memory without a zero byte, so not returning is
  the value \<open>None\<close>.
\<close>

partial_function (option) strlen_loop :: "mem \<Rightarrow> u32 \<Rightarrow> u32 \<Rightarrow> u32 option" where
  "strlen_loop m nxt len = (if m nxt \<noteq> 0 then strlen_loop m (nxt + 1) (len + 1) else Some len)"

definition mon_strlen :: "mem \<Rightarrow> u32 \<Rightarrow> u32 option" where
  "mon_strlen m string = (if string = 0 then Some (- 1) else strlen_loop m string 0)"

section \<open>memory.c\<close>

definition zero_mem :: "u32 \<Rightarrow> u32 \<Rightarrow> mem \<Rightarrow> mem" where
  "zero_mem address sz m = fill_bytes (unat sz) address 0 m"

definition copy_mem :: "u32 \<Rightarrow> u32 \<Rightarrow> u32 \<Rightarrow> mem \<Rightarrow> mem" where
  "copy_mem dest source sz m = move_bytes (unat sz) dest source m"

fun compare_loop :: "nat \<Rightarrow> u32 \<Rightarrow> u32 \<Rightarrow> mem \<Rightarrow> bool" where
  "compare_loop 0 s1 s2 m = True"
| "compare_loop (Suc n) s1 s2 m = (if m s1 \<noteq> m s2 then False else compare_loop n (s1 + 1) (s2 + 1) m)"

definition compare_mem :: "u32 \<Rightarrow> u32 \<Rightarrow> u32 \<Rightarrow> mem \<Rightarrow> bool" where
  "compare_mem source1 source2 sz m = compare_loop (unat sz) source1 source2 m"

definition initialize_memory_manager :: "u32 \<Rightarrow> u32 \<Rightarrow> loader_state \<Rightarrow> loader_state" where
  "initialize_memory_manager heap_base_address heap_bytes s =
     (let b = load32 (mem s) heap_base_address
      in s\<lparr>heap_base := b, heap_current := b, heap_tops := b + load32 (mem s) heap_bytes\<rparr>)"

definition allocate_memory :: "u32 \<Rightarrow> loader_state \<Rightarrow> u32 \<times> loader_state" where
  "allocate_memory size_request s =
     (if heap_current s + size_request > heap_tops s then (0, s)
      else let address = heap_current s
           in (address, s\<lparr>heap_current := heap_current s + size_request,
                          mem := zero_mem address size_request (mem s)\<rparr>))"

definition PAGE_SIZE :: u32 where
  "PAGE_SIZE = 1024 * 4"

definition mon_page_alloc :: "(u32 \<Rightarrow> u32 \<Rightarrow> u32) \<Rightarrow> u32 \<Rightarrow> loader_state \<Rightarrow> u32 \<times> loader_state" where
  "mon_page_alloc af pages s =
     (let sz = pages * PAGE_SIZE; address = af (heap_current s) PAGE_SIZE
      in if address + sz > heap_tops s then (0, s)
         else (address, s\<lparr>heap_current := address + sz, mem := zero_mem address sz (mem s)\<rparr>))"

text \<open>
  \<^verbatim>\<open>__cpuid\<close>: the four registers that the instruction \<open>instr\<close> leaves for a leaf, as the array \<^verbatim>\<open>cpu_info\<close>.
\<close>

definition cpuid :: "(u32 \<Rightarrow> u32 \<times> u32 \<times> u32 \<times> u32) \<Rightarrow> u32 \<Rightarrow> u32 list" where
  "cpuid instr info_type = (case instr info_type of (eax, ebx, ecx, edx) \<Rightarrow> [eax, ebx, ecx, edx])"

text \<open>
  What the page allocator needs of \<^verbatim>\<open>ALIGN_FORWARD\<close>: it rounds an address up to the next
  multiple of the page size, as long as that does not pass the end of the address space.
\<close>

definition round_page :: "nat \<Rightarrow> nat" where
  "round_page n = (n + 4095) div 4096 * 4096"

definition ALIGN_FORWARD_ok :: "(u32 \<Rightarrow> u32 \<Rightarrow> u32) \<Rightarrow> bool" where
  "ALIGN_FORWARD_ok af \<longleftrightarrow>
     (\<forall>a. unat a + 4095 < 2 ^ 32 \<longrightarrow> unat (af a 4096) = round_page (unat a))"

section \<open>The allocator interface\<close>

text \<open>
  The invariant of the heap globals, and a run of allocation requests: the blocks (address and
  size) of the requests that were granted, in order, and the final state.
\<close>

definition heap_inv :: "loader_state \<Rightarrow> bool" where
  "heap_inv s \<longleftrightarrow> 0 < heap_base s \<and> heap_base s \<le> heap_current s \<and> heap_current s \<le> heap_tops s"

fun alloc_seq :: "('r \<Rightarrow> loader_state \<Rightarrow> u32 \<times> loader_state) \<Rightarrow> ('r \<Rightarrow> nat) \<Rightarrow> 'r list
    \<Rightarrow> loader_state \<Rightarrow> (u32 \<times> nat) list \<times> loader_state" where
  "alloc_seq alloc bytes [] s = ([], s)"
| "alloc_seq alloc bytes (r # rs) s =
     (let (p, s1) = alloc r s; (bl, s2) = alloc_seq alloc bytes rs s1
      in (if p = 0 then bl else (p, bytes r) # bl, s2))"

definition below :: "u32 \<times> nat \<Rightarrow> u32 \<times> nat \<Rightarrow> bool" where
  "below b c \<longleftrightarrow> unat (fst b) + snd b \<le> unat (fst c)"

text \<open>
  A block that a grant returns: \<open>start\<close> is where the allocator places the block of a request.
\<close>

definition granted :: "nat \<Rightarrow> nat \<Rightarrow> loader_state \<Rightarrow> u32 \<Rightarrow> loader_state \<Rightarrow> bool" where
  "granted st n s p s' \<longleftrightarrow> unat p = st
     \<and> heap_base s' = heap_base s \<and> heap_tops s' = heap_tops s \<and> cursor s' = cursor s
     \<and> unat (heap_current s') = st + n \<and> mem s' = fill_bytes n p 0 (mem s)"

locale bump_allocator =
  fixes alloc :: "'r \<Rightarrow> loader_state \<Rightarrow> u32 \<times> loader_state"
    and bytes :: "'r \<Rightarrow> nat"
    and start :: "'r \<Rightarrow> nat \<Rightarrow> nat"
    and ok :: "'r \<Rightarrow> bool"
  assumes start_ge: "ok r \<Longrightarrow> c \<le> start r c"
    and full: "\<lbrakk>ok r; heap_inv s; unat (heap_tops s) + bytes r + 4095 < 2 ^ 32;
        unat (heap_tops s) < start r (unat (heap_current s)) + bytes r\<rbrakk> \<Longrightarrow> alloc r s = (0, s)"
    and room: "\<lbrakk>ok r; heap_inv s; unat (heap_tops s) + bytes r + 4095 < 2 ^ 32;
        start r (unat (heap_current s)) + bytes r \<le> unat (heap_tops s); alloc r s = (p, s')\<rbrakk>
        \<Longrightarrow> granted (start r (unat (heap_current s))) (bytes r) s p s'"
begin

lemma alloc_cases:
  assumes "ok r" "heap_inv s" "unat (heap_tops s) + bytes r + 4095 < 2 ^ 32" "alloc r s = (p, s')"
  obtains "p = 0" "s' = s"
  | "p \<noteq> 0" "granted (start r (unat (heap_current s))) (bytes r) s p s'"
    "unat (heap_current s) \<le> unat p" "unat p + bytes r \<le> unat (heap_tops s)"
proof (cases "start r (unat (heap_current s)) + bytes r \<le> unat (heap_tops s)")
  case True
  then have g: "granted (start r (unat (heap_current s))) (bytes r) s p s'"
    using room assms by blast
  have "0 < unat (heap_current s)"
    using assms(2) by (auto simp: heap_inv_def word_less_nat_alt word_le_nat_alt)
  then have "p \<noteq> 0"
    using start_ge [OF assms(1), of "unat (heap_current s)"] g by (auto simp: granted_def)
  then show ?thesis
    using that(2) g start_ge [OF assms(1), of "unat (heap_current s)"] True
    by (auto simp: granted_def)
next
  case False
  then show ?thesis using full [OF assms(1-3)] assms(4) that(1) by simp
qed

lemma alloc_inv:
  assumes "ok r" "heap_inv s" "unat (heap_tops s) + bytes r + 4095 < 2 ^ 32" "alloc r s = (p, s')"
  shows "heap_inv s'" and "heap_tops s' = heap_tops s" and "heap_base s' = heap_base s"
    and "heap_current s \<le> heap_current s'"
proof -
  have "s' = s \<or> (heap_tops s' = heap_tops s \<and> heap_base s' = heap_base s
     \<and> unat (heap_current s) \<le> unat (heap_current s') \<and> unat (heap_current s') \<le> unat (heap_tops s))"
    by (rule alloc_cases [OF assms]) (auto simp: granted_def)
  then show "heap_inv s'" and "heap_tops s' = heap_tops s" and "heap_base s' = heap_base s"
    and "heap_current s \<le> heap_current s'"
    using assms(2) by (auto simp: heap_inv_def word_le_nat_alt)
qed

text \<open>
  A run of requests: the granted blocks follow each other upwards between the old and the new
  break of the heap, they are all zero at the end, and nothing outside them has changed.
\<close>

lemma alloc_seq_blocks:
  assumes "heap_inv s" and "\<forall>r \<in> set rs. ok r \<and> unat (heap_tops s) + bytes r + 4095 < 2 ^ 32"
    and "alloc_seq alloc bytes rs s = (bl, s')"
  shows "heap_inv s' \<and> heap_tops s' = heap_tops s \<and> heap_base s' = heap_base s
    \<and> sorted_wrt below bl
    \<and> (\<forall>(p, n) \<in> set bl. unat (heap_current s) \<le> unat p \<and> unat p + n \<le> unat (heap_current s'))
    \<and> unat (heap_current s) \<le> unat (heap_current s')
    \<and> (\<forall>x. mem s' x = (if \<exists>(p, n) \<in> set bl. in_range p n x then 0 else mem s x))"
  using assms
proof (induction rs arbitrary: s bl)
  case Nil
  then show ?case by simp
next
  case (Cons r rs)
  obtain p s1 where a: "alloc r s = (p, s1)" by fastforce
  obtain bl1 where b: "alloc_seq alloc bytes rs s1 = (bl1, s')"
    and bl: "bl = (if p = 0 then bl1 else (p, bytes r) # bl1)"
    using Cons.prems(3) a by (auto split: prod.splits)
  have r: "ok r" "unat (heap_tops s) + bytes r + 4095 < 2 ^ 32" using Cons.prems(2) by auto
  note inv1 = alloc_inv [OF r(1) Cons.prems(1) r(2) a]
  have "\<forall>r \<in> set rs. ok r \<and> unat (heap_tops s1) + bytes r + 4095 < 2 ^ 32"
    using Cons.prems(2) inv1(2) by simp
  note IH = Cons.IH [OF inv1(1) this b]
  show ?case
  proof (rule alloc_cases [OF r(1) Cons.prems(1) r(2) a])
    assume "p = 0" "s1 = s"
    with IH bl show ?thesis by simp
  next
    assume p: "p \<noteq> 0" "granted (start r (unat (heap_current s))) (bytes r) s p s1"
      "unat (heap_current s) \<le> unat p" "unat p + bytes r \<le> unat (heap_tops s)"
    then have c1: "unat (heap_current s1) = unat p + bytes r"
      and m1: "mem s1 = fill_bytes (bytes r) p 0 (mem s)" and "bytes r \<le> 2 ^ 32"
      using r(2) by (auto simp: granted_def)
    then have "mem s1 x = (if in_range p (bytes r) x then 0 else mem s x)" for x
      by (simp add: fill_bytes_apply)
    with IH bl p(1,3) c1 inv1(2,3) show ?thesis by (auto simp: below_def)
  qed
qed

end

section \<open>The two allocators implement the interface\<close>

lemma heap_inv_unat:
  "heap_inv s \<Longrightarrow> 0 < unat (heap_base s) \<and> unat (heap_base s) \<le> unat (heap_current s)
     \<and> unat (heap_current s) \<le> unat (heap_tops s)"
  by (simp add: heap_inv_def word_less_nat_alt word_le_nat_alt)

lemma round_page_bounds: "n \<le> round_page n" "round_page n \<le> n + 4095" "4096 dvd round_page n"
  by (simp_all add: round_page_def)

interpretation bytes_alloc: bump_allocator allocate_memory unat "\<lambda>_ c. c" "\<lambda>_. True"
proof
  fix r s
  assume "heap_inv s" and b: "unat (heap_tops s) + unat (r :: u32) + 4095 < 2 ^ 32"
  then have sum: "unat (heap_current s + r) = unat (heap_current s) + unat r"
    using heap_inv_unat [of s] by (simp add: unat_word_ariths(1))
  {
    assume "unat (heap_tops s) < unat (heap_current s) + unat r"
    then show "allocate_memory r s = (0, s)"
      using sum by (simp add: allocate_memory_def word_less_nat_alt)
  next
    fix p s'
    assume "unat (heap_current s) + unat r \<le> unat (heap_tops s)" "allocate_memory r s = (p, s')"
    then show "granted (unat (heap_current s)) (unat r) s p s'"
      using sum by (auto simp: allocate_memory_def granted_def zero_mem_def Let_def word_less_nat_alt)
  }
qed simp

lemma page_alloc_sum:
  assumes "ALIGN_FORWARD_ok af" "heap_inv s"
    and "unat (heap_tops s) + 4096 * unat (pages :: u32) + 4095 < 2 ^ 32"
  shows "unat (af (heap_current s) PAGE_SIZE) = round_page (unat (heap_current s))"
    and "unat (pages * PAGE_SIZE) = 4096 * unat pages"
    and "unat (af (heap_current s) PAGE_SIZE + pages * PAGE_SIZE)
      = round_page (unat (heap_current s)) + 4096 * unat pages"
proof -
  have c: "unat (heap_current s) \<le> unat (heap_tops s)" using heap_inv_unat assms(2) by blast
  show a: "unat (af (heap_current s) PAGE_SIZE) = round_page (unat (heap_current s))"
    using assms c by (simp add: ALIGN_FORWARD_ok_def PAGE_SIZE_def)
  show b: "unat (pages * PAGE_SIZE) = 4096 * unat pages"
    using assms(3) by (simp add: PAGE_SIZE_def unat_word_ariths(2))
  show "unat (af (heap_current s) PAGE_SIZE + pages * PAGE_SIZE)
      = round_page (unat (heap_current s)) + 4096 * unat pages"
    using a b c assms(3) round_page_bounds(2) [of "unat (heap_current s)"]
    by (simp add: unat_word_ariths(1))
qed

interpretation page_alloc: bump_allocator "mon_page_alloc af" "\<lambda>p. 4096 * unat p" "\<lambda>_. round_page"
  "\<lambda>_. ALIGN_FORWARD_ok af" for af
proof
  show "c \<le> round_page c" for c by (rule round_page_bounds)
next
  fix r s
  assume a: "ALIGN_FORWARD_ok af" "heap_inv s" "unat (heap_tops s) + 4096 * unat (r :: u32) + 4095 < 2 ^ 32"
  note sum = page_alloc_sum [OF a]
  {
    assume "unat (heap_tops s) < round_page (unat (heap_current s)) + 4096 * unat r"
    then show "mon_page_alloc af r s = (0, s)"
      using sum by (simp add: mon_page_alloc_def word_less_nat_alt)
  next
    fix p s'
    assume "round_page (unat (heap_current s)) + 4096 * unat r \<le> unat (heap_tops s)"
      "mon_page_alloc af r s = (p, s')"
    then show "granted (round_page (unat (heap_current s))) (4096 * unat r) s p s'"
      using sum by (auto simp: mon_page_alloc_def granted_def zero_mem_def Let_def word_less_nat_alt)
  }
qed

text \<open>The loader mixes both kinds of request on the one heap.\<close>

datatype heap_request = Bytes u32 | Pages u32

fun heap_serve :: "(u32 \<Rightarrow> u32 \<Rightarrow> u32) \<Rightarrow> heap_request \<Rightarrow> loader_state \<Rightarrow> u32 \<times> loader_state" where
  "heap_serve af (Bytes n) s = allocate_memory n s"
| "heap_serve af (Pages n) s = mon_page_alloc af n s"

fun request_bytes :: "heap_request \<Rightarrow> nat" where
  "request_bytes (Bytes n) = unat n"
| "request_bytes (Pages n) = 4096 * unat n"

fun request_start :: "heap_request \<Rightarrow> nat \<Rightarrow> nat" where
  "request_start (Bytes n) c = c"
| "request_start (Pages n) c = round_page c"

interpretation heap: bump_allocator "heap_serve af" request_bytes request_start
  "\<lambda>_. ALIGN_FORWARD_ok af" for af
proof
  show "c \<le> request_start r c" for r c by (cases r) (simp_all add: round_page_bounds)
next
  fix r s
  assume a: "ALIGN_FORWARD_ok af" "heap_inv s" "unat (heap_tops s) + request_bytes r + 4095 < 2 ^ 32"
  {
    assume "unat (heap_tops s) < request_start r (unat (heap_current s)) + request_bytes r"
    with a show "heap_serve af r s = (0, s)"
      by (cases r) (simp_all add: bytes_alloc.full page_alloc.full)
  next
    fix p s'
    assume "request_start r (unat (heap_current s)) + request_bytes r \<le> unat (heap_tops s)"
      "heap_serve af r s = (p, s')"
    with a show "granted (request_start r (unat (heap_current s))) (request_bytes r) s p s'"
      by (cases r) (simp_all add: bytes_alloc.room page_alloc.room)
  }
qed

section \<open>Library of the byte utilities\<close>

lemma mon_memset_apply: "mon_memset d v n m x = (if in_range d (unat n) x then v else m x)"
  using unat_bound(3) [of n] by (simp add: mon_memset_def fill_bytes_apply)

lemma zero_mem_apply: "zero_mem d n m x = (if in_range d (unat n) x then 0 else m x)"
  using unat_bound(3) [of n] by (simp add: zero_mem_def fill_bytes_apply)

lemma mon_memcpy_apply:
  "sep d (unat n) s (unat n) \<Longrightarrow>
   mon_memcpy d s n m x = (if in_range d (unat n) x then m (s + (x - d)) else m x)"
  using unat_bound(3) [of n] by (simp add: mon_memcpy_def move_bytes_apply)

lemma mon_memcpy_other [frame]: "\<not> in_range d (unat n) x \<Longrightarrow> mon_memcpy d s n m x = m x"
  using unat_bound(3) [of n] by (simp add: mon_memcpy_def move_bytes_other)

lemma mon_memcpy_zero [simp]: "mon_memcpy d s 0 m = m"
  by (simp add: mon_memcpy_def)

lemma compare_loop_iff:
  "compare_loop n s1 s2 m \<longleftrightarrow> (\<forall>i < n. m (s1 + of_nat i) = m (s2 + of_nat i))"
proof (induction n arbitrary: s1 s2)
  case 0
  then show ?case by simp
next
  case (Suc n)
  then show ?case by (auto simp: All_less_Suc2 algebra_simps)
qed

lemma strlen_loop_zero:
  "\<lbrakk>\<forall>i < k. m (a + of_nat i) \<noteq> 0; m (a + of_nat k) = 0\<rbrakk>
   \<Longrightarrow> strlen_loop m a len = Some (len + of_nat k)"
proof (induction k arbitrary: a len)
  case 0
  then show ?case by (subst strlen_loop.simps) simp
next
  case (Suc k)
  have "strlen_loop m (a + 1) (len + 1) = Some (len + 1 + of_nat k)"
    using Suc.prems by (intro Suc.IH) (auto simp: All_less_Suc2 algebra_simps)
  with Suc.prems(1) show ?case
    by (subst strlen_loop.simps) (auto simp: All_less_Suc2 algebra_simps)
qed

section \<open>Properties\<close>

text \<open>
  C7. Any mix of byte and page requests to the loader's heap yields blocks that lie one above
  the other between the old and the new heap break, inside the heap; afterwards every byte of
  every block is zero (so no later request touched an earlier block) and all other memory is
  unchanged; the heap invariant still holds.
\<close>

theorem heap_blocks_disjoint:
  assumes "ALIGN_FORWARD_ok af" and "heap_inv s"
    and "\<forall>r \<in> set rs. unat (heap_tops s) + request_bytes r + 4095 < 2 ^ 32"
    and "alloc_seq (heap_serve af) request_bytes rs s = (bl, s')"
  shows "heap_inv s' \<and> heap_tops s' = heap_tops s \<and> sorted_wrt below bl
    \<and> (\<forall>(p, n) \<in> set bl. unat (heap_current s) \<le> unat p \<and> unat p + n \<le> unat (heap_current s'))
    \<and> (\<forall>x. mem s' x = (if \<exists>(p, n) \<in> set bl. in_range p n x then 0 else mem s x))"
  using heap.alloc_seq_blocks [of s rs af bl s'] assms by blast

definition page_round_up :: "u32 \<Rightarrow> u32 \<Rightarrow> u32" where
  "page_round_up a g = (a + (g - 1)) AND NOT (g - 1)"

lemma page_round_up_ok: "ALIGN_FORWARD_ok page_round_up"
proof -
  have "unat (page_round_up a 4096) = round_page (unat a)" if "unat a + 4095 < 2 ^ 32" for a
    using that unat_and_page [of "a + 4095"]
    by (simp add: page_round_up_def round_page_def unat_word_ariths(1) minus_page_word)
  then show ?thesis by (simp add: ALIGN_FORWARD_ok_def)
qed

definition small_heap :: loader_state where
  "small_heap = \<lparr>mem = (\<lambda>_. 7), heap_base = 0x1000, heap_current = 0x1000, heap_tops = 0x4000,
                 cursor = 0xB8000\<rparr>"

theorem heap_blocks_disjoint_witness:
  "\<exists>s'. alloc_seq (heap_serve page_round_up) request_bytes [Bytes 16, Pages 1, Pages 9] small_heap
      = ([(0x1000, 16), (0x2000, 4096)], s')
    \<and> heap_inv s' \<and> mem s' 0x1005 = 0 \<and> mem s' 0x2FFF = 0 \<and> mem s' 0x1010 = 7"
proof -
  let ?rs = "[Bytes 16, Pages 1, Pages 9]"
  obtain s' where run: "alloc_seq (heap_serve page_round_up) request_bytes ?rs small_heap
      = ([(0x1000, 16), (0x2000, 4096)], s')"
    by (simp add: small_heap_def allocate_memory_def mon_page_alloc_def page_round_up_def PAGE_SIZE_def)
  have "heap_inv small_heap"
    and "\<forall>r \<in> set ?rs. unat (heap_tops small_heap) + request_bytes r + 4095 < 2 ^ 32"
    by (simp_all add: heap_inv_def small_heap_def)
  from heap_blocks_disjoint [OF page_round_up_ok this run] run show ?thesis
    by (auto simp: in_range_def small_heap_def)
qed

text \<open>
  The page allocator, on a heap where the request cannot wrap around: it returns a
  page-aligned, zeroed block of the requested pages at the rounded-up heap break and moves the
  break to its end when that fits below the top of the heap, changing no other byte; otherwise
  it returns NULL and changes nothing.
\<close>

theorem mon_page_alloc_spec:
  assumes "ALIGN_FORWARD_ok af" and "heap_inv s"
    and "unat (heap_tops s) + 4096 * unat pages + 4095 < 2 ^ 32"
    and "mon_page_alloc af pages s = (p, s')"
  shows "if round_page (unat (heap_current s)) + 4096 * unat pages \<le> unat (heap_tops s)
     then unat p = round_page (unat (heap_current s)) \<and> p \<noteq> 0 \<and> 4096 dvd unat p
       \<and> unat (heap_current s') = unat p + 4096 * unat pages \<and> heap_inv s'
       \<and> (\<forall>x. mem s' x = (if in_range p (4096 * unat pages) x then 0 else mem s x))
     else p = 0 \<and> s' = s"
  using page_alloc.full [OF assms(1-3)] page_alloc.room [OF assms(1-3) _ assms(4)]
    page_alloc.alloc_inv(1) [OF assms] round_page_bounds [of "unat (heap_current s)"]
    heap_inv_unat [OF assms(2)] assms(3,4)
  by (auto simp: granted_def fill_bytes_apply)

theorem mon_page_alloc_spec_witness:
  "mon_page_alloc page_round_up 1 (small_heap\<lparr>heap_current := 0x1001\<rparr>)
     = (0x2000, small_heap\<lparr>heap_current := 0x3000, mem := zero_mem 0x2000 4096 (\<lambda>_. 7)\<rparr>)
   \<and> 4096 dvd unat (0x2000 :: u32) \<and> round_page 0x1001 + 4096 \<le> 0x4000"
proof -
  let ?s = "small_heap\<lparr>heap_current := 0x1001\<rparr>"
  have run: "mon_page_alloc page_round_up 1 ?s
     = (0x2000, small_heap\<lparr>heap_current := 0x3000, mem := zero_mem 0x2000 4096 (\<lambda>_. 7)\<rparr>)"
    by (simp add: small_heap_def mon_page_alloc_def page_round_up_def PAGE_SIZE_def)
  have "heap_inv ?s" and "unat (heap_tops ?s) + 4096 * unat (1 :: u32) + 4095 < 2 ^ 32"
    by (simp_all add: heap_inv_def small_heap_def)
  from mon_page_alloc_spec [OF page_round_up_ok this run] run show ?thesis
    by (simp add: small_heap_def round_page_def)
qed

text \<open>
  The size check of \<^verbatim>\<open>allocate_memory\<close> wraps around: on every well-formed heap the request
  for \<open>2 ^ 32 - 1\<close> bytes is granted, and it moves the heap break down by one byte, into memory
  that the heap already handed out (or below the heap).
\<close>

theorem allocate_memory_wraps:
  assumes "heap_inv s"
  shows "fst (allocate_memory 0xFFFFFFFF s) = heap_current s
    \<and> fst (allocate_memory 0xFFFFFFFF s) \<noteq> 0
    \<and> heap_current (snd (allocate_memory 0xFFFFFFFF s)) = heap_current s - 1
    \<and> heap_current (snd (allocate_memory 0xFFFFFFFF s)) < heap_current s"
proof -
  have "heap_current s \<noteq> 0" using assms by (auto simp: heap_inv_def)
  then have lt: "heap_current s - 1 < heap_current s"
    by (simp add: word_less_nat_alt unat_minus_one unat_gt_0)
  have "\<not> heap_tops s < heap_current s + 0xFFFFFFFF"
    using lt assms by (auto simp: heap_inv_def add_max_word)
  with lt \<open>heap_current s \<noteq> 0\<close> show ?thesis
    by (simp add: allocate_memory_def Let_def add_max_word)
qed

theorem allocate_memory_wraps_witness:
  "heap_inv small_heap \<and> heap_current (snd (allocate_memory 0xFFFFFFFF small_heap)) = 0xFFF"
proof -
  have "heap_inv small_heap" by (simp add: heap_inv_def small_heap_def)
  with allocate_memory_wraps [OF this] show ?thesis by (simp add: small_heap_def)
qed

text \<open>
  \<^verbatim>\<open>compare_mem\<close> answers TRUE exactly when the two buffers agree on every one of the
  \<open>size\<close> bytes, whatever the buffers are.
\<close>

theorem compare_mem_correct:
  "compare_mem a b n m \<longleftrightarrow> map (\<lambda>i. m (a + of_nat i)) [0..<unat n] = map (\<lambda>i. m (b + of_nat i)) [0..<unat n]"
  by (auto simp: compare_mem_def compare_loop_iff)

text \<open>
  \<^verbatim>\<open>mon_strlen\<close> returns on every string that has a terminating zero byte, and returns the
  number of bytes before the first one.
\<close>

theorem mon_strlen_correct:
  assumes "a \<noteq> 0" and "\<forall>i < k. m (a + of_nat i) \<noteq> 0" and "m (a + of_nat k) = 0"
  shows "mon_strlen m a = Some (of_nat k)"
  using strlen_loop_zero [OF assms(2,3), of 0] assms(1) by (simp add: mon_strlen_def)

theorem mon_strlen_correct_witness:
  "mon_strlen (store_bytes 0x100 [0x61, 0x62, 0] (\<lambda>_. 9)) 0x100 = Some 2"
  using mon_strlen_correct [of "0x100" 2 "store_bytes 0x100 [0x61, 0x62, 0] (\<lambda>_. 9)"]
  by (auto simp: less_2_cases_iff)

end
