(* ===== verification/Image_Access.thy ===== *)
theory Image_Access
  imports Loader_Memory
begin

text \<open>
  Access to an executable image, \<^verbatim>\<open>common/ld/image_accessors/image_access_mem.c\<close>. The struct
  \<^verbatim>\<open>gen_image_access_t\<close> is a table of function pointers and the first member of
  \<^verbatim>\<open>mem_image_access_t\<close>; here the table holds the functions already applied to their image,
  so that \<open>image->read (...)\<close> of the C code is \<open>gen_read (gen im)\<close>.

  A read returns the number of bytes it copied and the new memory; a mapping returns the number of
  bytes it can serve and the address of the first one. Both compute with 32-bit \<^verbatim>\<open>size_t\<close>.
\<close>

record gen_image_access =
  gen_read :: "u32 \<Rightarrow> u32 \<Rightarrow> u32 \<Rightarrow> mem \<Rightarrow> u32 \<times> mem"
  gen_map_to_mem :: "u32 \<Rightarrow> u32 \<Rightarrow> u32 \<times> u32"

record mem_image_access =
  gen :: gen_image_access
  image :: u32
  image_size :: u32

definition mem_image_read :: "mem_image_access \<Rightarrow> u32 \<Rightarrow> u32 \<Rightarrow> u32 \<Rightarrow> mem \<Rightarrow> u32 \<times> mem" where
  "mem_image_read mia dest src_offset bytes_to_read m =
     (let n = (if src_offset + bytes_to_read > image_size mia then image_size mia - src_offset
               else bytes_to_read)
      in (n, mon_memcpy dest (image mia + src_offset) n m))"

definition mem_image_map_to_mem :: "mem_image_access \<Rightarrow> u32 \<Rightarrow> u32 \<Rightarrow> u32 \<times> u32" where
  "mem_image_map_to_mem mia src_offset bytes_to_read =
     (let n = (if src_offset + bytes_to_read > image_size mia then image_size mia - src_offset
               else bytes_to_read)
      in (n, image mia + src_offset))"

text \<open>
  Closing gives the accessor back with \<^verbatim>\<open>FREE\<close>, a macro of the core on a state of its own; no caller in the loader closes an
  accessor, whose storage is on the stack.
\<close>

definition mem_image_close :: "(u32 \<Rightarrow> 's \<Rightarrow> 's) \<Rightarrow> u32 \<Rightarrow> 's \<Rightarrow> 's" where
  "mem_image_close FREE ia s = FREE ia s"

definition mem_image_create_ex :: "u32 \<Rightarrow> u32 \<Rightarrow> mem_image_access" where
  "mem_image_create_ex img sz =
     (let mia = \<lparr>gen = \<lparr>gen_read = \<lambda>_ _ _ m. (0, m), gen_map_to_mem = \<lambda>_ _. (0, 0)\<rparr>, image = img, image_size = sz\<rparr>
      in mia\<lparr>gen := \<lparr>gen_read = mem_image_read mia, gen_map_to_mem = mem_image_map_to_mem mia\<rparr>\<rparr>)"

lemma create_ex_simps [simp]:
  "image (mem_image_create_ex img sz) = img"
  "image_size (mem_image_create_ex img sz) = sz"
  "gen_read (gen (mem_image_create_ex img sz)) = mem_image_read (mem_image_create_ex img sz)"
  "gen_map_to_mem (gen (mem_image_create_ex img sz)) = mem_image_map_to_mem (mem_image_create_ex img sz)"
  by (auto simp: mem_image_create_ex_def Let_def mem_image_read_def mem_image_map_to_mem_def fun_eq_iff)

section \<open>The accessor interface\<close>

text \<open>
  What the ELF loader relies on: a window inside the image is served in full, a read that
  is served in full copies the bytes the mapping of the same window shows and changes nothing
  else, and a read and a mapping of the same window report the same count.
\<close>

locale image_access =
  fixes acc_read :: "'i \<Rightarrow> u32 \<Rightarrow> u32 \<Rightarrow> u32 \<Rightarrow> mem \<Rightarrow> u32 \<times> mem"
    and acc_map :: "'i \<Rightarrow> u32 \<Rightarrow> u32 \<Rightarrow> u32 \<times> u32"
    and acc_size :: "'i \<Rightarrow> u32"
  assumes map_inside: "unat off + unat n \<le> unat (acc_size im) \<Longrightarrow> fst (acc_map im off n) = n"
    and map_outside: "\<lbrakk>unat off + unat n < 2 ^ 32; unat (acc_size im) < unat off + unat n\<rbrakk>
      \<Longrightarrow> fst (acc_map im off n) \<noteq> n"
    and map_address: "snd (acc_map im off n) = snd (acc_map im 0 0) + off"
    and read_count: "fst (acc_read im d off n m) = fst (acc_map im off n)"
    and read_frame: "\<not> in_range d (unat (fst (acc_map im off n))) x \<Longrightarrow> snd (acc_read im d off n m) x = m x"
    and read_copies: "\<lbrakk>fst (acc_map im off n) = n; sep d (unat n) (snd (acc_map im off n)) (unat n);
      in_range d (unat n) x\<rbrakk>
      \<Longrightarrow> snd (acc_read im d off n m) x = m (snd (acc_map im off n) + (x - d))"
begin

lemma map_iff: "unat off + unat n < 2 ^ 32 \<Longrightarrow>
    fst (acc_map im off n) = n \<longleftrightarrow> unat off + unat n \<le> unat (acc_size im)"
  using map_inside map_outside by (meson linorder_not_less)

text \<open>A read of a window inside the image: complete, faithful and local.\<close>

lemma read_inside:
  assumes "unat off + unat n \<le> unat (acc_size im)"
  shows "fst (acc_read im d off n m) = n"
    and "sep d (unat n) (snd (acc_map im 0 0) + off) (unat n) \<Longrightarrow>
      snd (acc_read im d off n m) x
        = (if in_range d (unat n) x then m (snd (acc_map im 0 0) + off + (x - d)) else m x)"
proof -
  have f: "fst (acc_map im off n) = n" by (rule map_inside [OF assms(1)])
  then show "fst (acc_read im d off n m) = n" by (simp add: read_count)
  show "snd (acc_read im d off n m) x
      = (if in_range d (unat n) x then m (snd (acc_map im 0 0) + off + (x - d)) else m x)"
    if "sep d (unat n) (snd (acc_map im 0 0) + off) (unat n)"
    using read_copies [OF f, of d x m] read_frame [of d im off n x m] that f
    by (simp add: map_address [of im off n])
qed

end

interpretation mem_image: image_access mem_image_read mem_image_map_to_mem image_size
proof
  fix off n :: u32 and im :: mem_image_access and d x m
  show "unat off + unat n \<le> unat (image_size im) \<Longrightarrow> fst (mem_image_map_to_mem im off n) = n"
    using unat_bound(3) [of "image_size im"]
    by (auto simp: mem_image_map_to_mem_def Let_def word_less_nat_alt unat_word_ariths(1))
  show "unat off + unat n < 2 ^ 32 \<Longrightarrow> unat (image_size im) < unat off + unat n
      \<Longrightarrow> fst (mem_image_map_to_mem im off n) \<noteq> n"
  proof
    assume a: "unat off + unat n < 2 ^ 32" "unat (image_size im) < unat off + unat n"
      and "fst (mem_image_map_to_mem im off n) = n"
    then have "image_size im - off = n"
      by (auto simp: mem_image_map_to_mem_def Let_def word_less_nat_alt unat_word_ariths(1) split: if_splits)
    then have "image_size im = off + n" by (simp add: algebra_simps)
    with a show False by (simp add: unat_word_ariths(1))
  qed
  show "snd (mem_image_map_to_mem im off n) = snd (mem_image_map_to_mem im 0 0) + off"
    and "fst (mem_image_read im d off n m) = fst (mem_image_map_to_mem im off n)"
    by (simp_all add: mem_image_map_to_mem_def mem_image_read_def Let_def)
  show "\<not> in_range d (unat (fst (mem_image_map_to_mem im off n))) x \<Longrightarrow> snd (mem_image_read im d off n m) x = m x"
    by (auto simp: mem_image_map_to_mem_def mem_image_read_def Let_def mon_memcpy_other)
  show "fst (mem_image_map_to_mem im off n) = n \<Longrightarrow> sep d (unat n) (snd (mem_image_map_to_mem im off n)) (unat n)
      \<Longrightarrow> in_range d (unat n) x
      \<Longrightarrow> snd (mem_image_read im d off n m) x = m (snd (mem_image_map_to_mem im off n) + (x - d))"
    by (auto simp: mem_image_map_to_mem_def mem_image_read_def Let_def mon_memcpy_apply split: if_splits)
qed

section \<open>Properties\<close>

text \<open>
  For a window whose end does not wrap around, mapping serves the whole window exactly when
  the window lies inside the image, and reading such a window copies exactly the image's bytes to
  the destination and changes no other byte.
\<close>

theorem mem_image_window:
  assumes "unat off + unat n < 2 ^ 32"
    and "sep d (unat n) (image im + off) (unat n)"
  shows "(fst (mem_image_map_to_mem im off n) = n \<longleftrightarrow> unat off + unat n \<le> unat (image_size im))
    \<and> (unat off + unat n \<le> unat (image_size im) \<longrightarrow> fst (mem_image_read im d off n m) = n
       \<and> (\<forall>x. snd (mem_image_read im d off n m) x =
            (if in_range d (unat n) x then m (image im + off + (x - d)) else m x)))"
proof -
  have base: "snd (mem_image_map_to_mem im 0 0) = image im" by (simp add: mem_image_map_to_mem_def Let_def)
  note read = mem_image.read_inside [of off n im, unfolded base]
  show ?thesis
    using mem_image.map_iff [OF assms(1), of im] read assms(2) by blast
qed

text \<open>An eight-byte image at \<^verbatim>\<open>0x5000\<close>.\<close>

definition tiny_mem :: mem where
  "tiny_mem = store_bytes 0x5000 [1, 2, 3, 4, 5, 6, 7, 8] (\<lambda>_. 0)"

theorem mem_image_window_witness:
  "fst (mem_image_map_to_mem (mem_image_create_ex 0x5000 8) 4 3) = 3
   \<and> snd (mem_image_read (mem_image_create_ex 0x5000 8) 0x9000 4 3 tiny_mem) 0x9001 = 6"
proof -
  have "sep 0x9000 (unat (3 :: u32)) (image (mem_image_create_ex 0x5000 8) + 4) (unat (3 :: u32))"
    by (simp add: sep_def)
  with mem_image_window [of 4 3 "0x9000" "mem_image_create_ex 0x5000 8" tiny_mem] show ?thesis
    by (simp add: in_range_def tiny_mem_def)
qed

text \<open>
  A window that starts past the end of the image is not refused before the copy: the
  remaining size wraps around, so \<^verbatim>\<open>mem_image_read\<close> copies \<open>2 ^ 32 - (offset - size)\<close> bytes over the
  destination before the caller can compare the count.
\<close>

theorem mem_image_read_past_end:
  assumes "unat (image_size im) < unat off" and "unat off + unat n < 2 ^ 32"
  shows "unat (fst (mem_image_read im d off n m)) = 2 ^ 32 - (unat off - unat (image_size im))
    \<and> mem_image_read im d off n m
      = (image_size im - off, move_bytes (2 ^ 32 - (unat off - unat (image_size im))) d (image im + off) m)"
proof -
  have "image_size im < off + n"
    using assms by (simp add: word_less_nat_alt unat_word_ariths(1))
  moreover have "unat (image_size im - off) = 2 ^ 32 - (unat off - unat (image_size im))"
    using assms(1) unat_bound(3) [of off] by (simp add: unat_sub_if')
  ultimately show ?thesis by (simp add: mem_image_read_def Let_def mon_memcpy_def)
qed

theorem mem_image_read_past_end_witness:
  "unat (fst (mem_image_read (mem_image_create_ex 0x5000 8) 0x9000 9 1 tiny_mem)) = 2 ^ 32 - 1"
proof -
  have "unat (image_size (mem_image_create_ex 0x5000 8)) < unat (9 :: u32)"
    and "unat (9 :: u32) + unat (1 :: u32) < 2 ^ 32" by simp_all
  from mem_image_read_past_end [OF this, of "0x9000" tiny_mem] show ?thesis
    by (elim conjE) simp
qed

text \<open>
  A window whose end wraps around the address space passes the bounds check whenever the
  wrapped end lies inside the image: mapping then claims to serve all of it, although its
  first byte lies past the end of the image.
\<close>

theorem mem_image_map_wraps:
  assumes "2 ^ 32 \<le> unat off + unat n" and "unat off + unat n - 2 ^ 32 \<le> unat (image_size im)"
  shows "mem_image_map_to_mem im off n = (n, image im + off)"
proof -
  have "unat (off + n) = unat off + unat n - 2 ^ 32"
    using assms(1) unat_bound(3) [of off] unat_bound(3) [of n] by (simp add: unat_plus_if')
  with assms(2) have "\<not> image_size im < off + n" by (simp add: word_less_nat_alt)
  then show ?thesis by (simp add: mem_image_map_to_mem_def Let_def)
qed

theorem mem_image_map_wraps_witness:
  "mem_image_map_to_mem (mem_image_create_ex 0x5000 8) 0xFFFFFFF0 0x10 = (0x10, 0x4FF0)"
  using mem_image_map_wraps [of "0xFFFFFFF0" "0x10" "mem_image_create_ex 0x5000 8"] by simp

end
