(* ===== verification/Elf_Info.thy ===== *)
theory Elf_Info
  imports Image_Access
begin

text \<open>
  ELF headers and \<^verbatim>\<open>common/ld/elf_ld/elf_info.c\<close>. The ELF struct definitions and constants
  (\<^verbatim>\<open>elf_env.h\<close>, \<^verbatim>\<open>elf32.h\<close>, \<^verbatim>\<open>elf64.h\<close>, \<^verbatim>\<open>elf_info.h\<close>) belong to the monitor's core and are not part
  of the loader: they are parameters here. An \<open>elf_layout\<close> gives the sizes of the structs of one
  ELF class and the offsets of the fields the loader uses; an \<open>elf_env\<close> collects the layouts of
  both classes, the constants, and the macros \<^verbatim>\<open>GET_PHDR\<close> and \<^verbatim>\<open>GET_SHDR\<close>. The field
  widths are those of the ELF specification's types: half 16 bits, word and sword 32,
  and addresses, offsets and xwords 32 bits in class 32 and 64 bits in class 64.
\<close>

record elf_layout =
  sizeof_ehdr :: u32
  o_e_ident :: u32
  o_e_type :: u32
  o_e_machine :: u32
  o_e_version :: u32
  o_e_entry :: u32
  o_e_phoff :: u32
  o_e_shoff :: u32
  o_e_phentsize :: u32
  o_e_phnum :: u32
  o_e_shentsize :: u32
  o_e_shnum :: u32
  o_p_type :: u32
  o_p_flags :: u32
  o_p_offset :: u32
  o_p_vaddr :: u32
  o_p_paddr :: u32
  o_p_filesz :: u32
  o_p_memsz :: u32
  o_sh_addr :: u32
  o_sh_offset :: u32
  o_sh_size :: u32
  o_sh_addralign :: u32
  sizeof_dyn :: u32
  o_d_tag :: u32
  o_d_un :: u32
  sizeof_rela :: u32
  o_rela_offset :: u32
  o_rela_info :: u32
  o_rela_addend :: u32
  sizeof_rel :: u32
  o_rel_offset :: u32
  o_rel_info :: u32
  sizeof_sym :: u32
  o_st_value :: u32

record elf_env =
  L32 :: elf_layout
  L64 :: elf_layout
  EI_MAG0 :: u32
  EI_MAG1 :: u32
  EI_MAG2 :: u32
  EI_MAG3 :: u32
  EI_CLASS :: u32
  EI_DATA :: u32
  EI_VERSION :: u32
  ELFMAG0 :: u8
  ELFMAG1 :: u8
  ELFMAG2 :: u8
  ELFMAG3 :: u8
  ELFCLASS32 :: u8
  ELFCLASS64 :: u8
  ELFDATA2LSB :: u8
  EV_CURRENT :: u8
  EM_386 :: u16
  EM_X86_64 :: u16
  ET_EXEC :: u16
  ET_DYN :: u16
  PT_LOAD :: u32
  PT_DYNAMIC :: u32
  DT_RELA :: u32
  DT_RELASZ :: u32
  DT_RELAENT :: u32
  DT_SYMTAB :: u32
  DT_SYMENT :: u32
  DT_REL :: u32
  DT_RELSZ :: u32
  DT_RELENT :: u32
  R_386_32 :: u32
  R_386_RELATIVE :: u32
  R_X86_64_64 :: u32
  R_X86_64_RELATIVE :: u32
  ELF_ATTR_EXECUTABLE :: u32
  ELF_ATTR_WRITABLE :: u32
  ELF_ATTR_READABLE :: u32
  PAGE_4KB_MASK :: u32
  GET_PHDR :: "u16 \<Rightarrow> u32 \<Rightarrow> u16 \<Rightarrow> u32"
  GET_SHDR :: "u16 \<Rightarrow> u32 \<Rightarrow> u16 \<Rightarrow> u32"

text \<open>
  What the loader relies on of the two table macros: entry \<open>i\<close> of a table with entry size \<open>es\<close>.
\<close>

definition TABLE_ok :: "(u16 \<Rightarrow> u32 \<Rightarrow> u16 \<Rightarrow> u32) \<Rightarrow> bool" where
  "TABLE_ok get \<longleftrightarrow> (\<forall>es tab i. i < 0x8000 \<longrightarrow> get es tab i = tab + ucast i * ucast es)"

section \<open>Header fields\<close>

text \<open>The fields that have the same width in both classes.\<close>

definition e_ident :: "elf_layout \<Rightarrow> mem \<Rightarrow> u32 \<Rightarrow> u32 \<Rightarrow> u8" where
  "e_ident L m ehdr i = m (ehdr + o_e_ident L + i)"

definition e_type :: "elf_layout \<Rightarrow> mem \<Rightarrow> u32 \<Rightarrow> u16" where
  "e_type L m ehdr = load16 m (ehdr + o_e_type L)"

definition e_machine :: "elf_layout \<Rightarrow> mem \<Rightarrow> u32 \<Rightarrow> u16" where
  "e_machine L m ehdr = load16 m (ehdr + o_e_machine L)"

definition e_version :: "elf_layout \<Rightarrow> mem \<Rightarrow> u32 \<Rightarrow> u32" where
  "e_version L m ehdr = load32 m (ehdr + o_e_version L)"

definition e_phentsize :: "elf_layout \<Rightarrow> mem \<Rightarrow> u32 \<Rightarrow> u16" where
  "e_phentsize L m ehdr = load16 m (ehdr + o_e_phentsize L)"

definition e_phnum :: "elf_layout \<Rightarrow> mem \<Rightarrow> u32 \<Rightarrow> u16" where
  "e_phnum L m ehdr = load16 m (ehdr + o_e_phnum L)"

definition e_shentsize :: "elf_layout \<Rightarrow> mem \<Rightarrow> u32 \<Rightarrow> u16" where
  "e_shentsize L m ehdr = load16 m (ehdr + o_e_shentsize L)"

definition e_shnum :: "elf_layout \<Rightarrow> mem \<Rightarrow> u32 \<Rightarrow> u16" where
  "e_shnum L m ehdr = load16 m (ehdr + o_e_shnum L)"

definition p_type :: "elf_layout \<Rightarrow> mem \<Rightarrow> u32 \<Rightarrow> u32" where
  "p_type L m phdr = load32 m (phdr + o_p_type L)"

definition p_flags :: "elf_layout \<Rightarrow> mem \<Rightarrow> u32 \<Rightarrow> u32" where
  "p_flags L m phdr = load32 m (phdr + o_p_flags L)"

lemmas elf_fields = e_ident_def e_type_def e_machine_def e_version_def e_phentsize_def e_phnum_def
  e_shentsize_def e_shnum_def p_type_def p_flags_def

section \<open>Recognising ELF files\<close>

definition elf_is_elf :: "elf_env \<Rightarrow> mem \<Rightarrow> u32 \<Rightarrow> bool" where
  "elf_is_elf E m p_buffer \<longleftrightarrow>
     ELFMAG0 E = m (p_buffer + EI_MAG0 E) \<and> ELFMAG1 E = m (p_buffer + EI_MAG1 E)
     \<and> ELFMAG2 E = m (p_buffer + EI_MAG2 E) \<and> ELFMAG3 E = m (p_buffer + EI_MAG3 E)"

definition elf32_header_is_valid :: "elf_env \<Rightarrow> mem \<Rightarrow> u32 \<Rightarrow> bool" where
  "elf32_header_is_valid E m ehdr \<longleftrightarrow>
     ELFCLASS32 E = e_ident (L32 E) m ehdr (EI_CLASS E)
     \<and> ELFMAG0 E = e_ident (L32 E) m ehdr (EI_MAG0 E)
     \<and> ELFMAG1 E = e_ident (L32 E) m ehdr (EI_MAG1 E)
     \<and> ELFMAG2 E = e_ident (L32 E) m ehdr (EI_MAG2 E)
     \<and> ELFMAG3 E = e_ident (L32 E) m ehdr (EI_MAG3 E)
     \<and> ELFDATA2LSB E = e_ident (L32 E) m ehdr (EI_DATA E)
     \<and> EV_CURRENT E = e_ident (L32 E) m ehdr (EI_VERSION E)
     \<and> ucast (EV_CURRENT E) = e_version (L32 E) m ehdr \<and> EM_386 E = e_machine (L32 E) m ehdr"

definition elf64_header_is_valid :: "elf_env \<Rightarrow> mem \<Rightarrow> u32 \<Rightarrow> bool" where
  "elf64_header_is_valid E m ehdr \<longleftrightarrow>
     ELFCLASS64 E = e_ident (L64 E) m ehdr (EI_CLASS E)
     \<and> ELFMAG0 E = e_ident (L64 E) m ehdr (EI_MAG0 E)
     \<and> ELFMAG1 E = e_ident (L64 E) m ehdr (EI_MAG1 E)
     \<and> ELFMAG2 E = e_ident (L64 E) m ehdr (EI_MAG2 E)
     \<and> ELFMAG3 E = e_ident (L64 E) m ehdr (EI_MAG3 E)
     \<and> ELFDATA2LSB E = e_ident (L64 E) m ehdr (EI_DATA E)
     \<and> ucast (EV_CURRENT E) = e_version (L64 E) m ehdr \<and> EM_X86_64 E = e_machine (L64 E) m ehdr"

section \<open>Segment information\<close>

text \<open>
  \<^verbatim>\<open>elf_segment_info_t\<close>: the fields the functions below fill in. \<open>None\<close> is the return value FALSE,
  where the struct is left as it was.
\<close>

record elf_segment_info =
  seg_address :: u32
  seg_size :: u32
  seg_attribute :: u32

definition segment_attribute :: "elf_env \<Rightarrow> u32 \<Rightarrow> u32 \<Rightarrow> u32" where
  "segment_attribute E ptype flags =
     (if PT_LOAD E = ptype
      then flags AND (ELF_ATTR_EXECUTABLE E OR ELF_ATTR_WRITABLE E OR ELF_ATTR_READABLE E)
      else 0)"

definition elf32_get_segment_info :: "elf_env \<Rightarrow> mem \<Rightarrow> u32 \<Rightarrow> u16 \<Rightarrow> elf_segment_info option" where
  "elf32_get_segment_info E m ehdr segment_no =
     (let L = L32 E in
      if sint segment_no < uint (e_phnum L m ehdr) then
        let phdrtab = ehdr + load32 m (ehdr + o_e_phoff L);
            phdr = GET_PHDR E (e_phentsize L m ehdr) phdrtab segment_no
        in Some \<lparr>seg_address = load32 m (phdr + o_p_paddr L),
                 seg_size = load32 m (phdr + o_p_memsz L),
                 seg_attribute = segment_attribute E (p_type L m phdr) (p_flags L m phdr)\<rparr>
      else None)"

definition elf64_get_segment_info :: "elf_env \<Rightarrow> mem \<Rightarrow> u32 \<Rightarrow> u16 \<Rightarrow> elf_segment_info option" where
  "elf64_get_segment_info E m ehdr segment_no =
     (let L = L64 E in
      if sint segment_no < uint (e_phnum L m ehdr) then
        let phdrtab = ehdr + ucast (load64 m (ehdr + o_e_phoff L));
            phdr = GET_PHDR E (e_phentsize L m ehdr) phdrtab segment_no
        in Some \<lparr>seg_address = ucast (load64 m (phdr + o_p_paddr L)),
                 seg_size = ucast (load64 m (phdr + o_p_memsz L)),
                 seg_attribute = segment_attribute E (p_type L m phdr) (p_flags L m phdr)\<rparr>
      else None)"

definition elf_get_segment_info :: "elf_env \<Rightarrow> mem \<Rightarrow> u32 \<Rightarrow> u16 \<Rightarrow> elf_segment_info option" where
  "elf_get_segment_info E m p_image segment_no =
     (if elf32_header_is_valid E m p_image then elf32_get_segment_info E m p_image segment_no
      else if elf64_header_is_valid E m p_image then elf64_get_segment_info E m p_image segment_no
      else None)"

section \<open>The ELF specification's layout\<close>

text \<open>
  The layout and constants of the ELF specification (System V ABI), as one instance of the
  parameters; the witnesses use it.
\<close>

definition std_L32 :: elf_layout where
  "std_L32 = \<lparr>sizeof_ehdr = 52, o_e_ident = 0, o_e_type = 16, o_e_machine = 18, o_e_version = 20,
     o_e_entry = 24, o_e_phoff = 28, o_e_shoff = 32, o_e_phentsize = 42, o_e_phnum = 44,
     o_e_shentsize = 46, o_e_shnum = 48,
     o_p_type = 0, o_p_flags = 24, o_p_offset = 4, o_p_vaddr = 8, o_p_paddr = 12, o_p_filesz = 16,
     o_p_memsz = 20,
     o_sh_addr = 12, o_sh_offset = 16, o_sh_size = 20, o_sh_addralign = 32,
     sizeof_dyn = 8, o_d_tag = 0, o_d_un = 4,
     sizeof_rela = 12, o_rela_offset = 0, o_rela_info = 4, o_rela_addend = 8,
     sizeof_rel = 8, o_rel_offset = 0, o_rel_info = 4, sizeof_sym = 16, o_st_value = 4\<rparr>"

definition std_L64 :: elf_layout where
  "std_L64 = \<lparr>sizeof_ehdr = 64, o_e_ident = 0, o_e_type = 16, o_e_machine = 18, o_e_version = 20,
     o_e_entry = 24, o_e_phoff = 32, o_e_shoff = 40, o_e_phentsize = 54, o_e_phnum = 56,
     o_e_shentsize = 58, o_e_shnum = 60,
     o_p_type = 0, o_p_flags = 4, o_p_offset = 8, o_p_vaddr = 16, o_p_paddr = 24, o_p_filesz = 32,
     o_p_memsz = 40,
     o_sh_addr = 16, o_sh_offset = 24, o_sh_size = 32, o_sh_addralign = 48,
     sizeof_dyn = 16, o_d_tag = 0, o_d_un = 8,
     sizeof_rela = 24, o_rela_offset = 0, o_rela_info = 8, o_rela_addend = 16,
     sizeof_rel = 16, o_rel_offset = 0, o_rel_info = 8, sizeof_sym = 24, o_st_value = 8\<rparr>"

definition std_elf :: elf_env where
  "std_elf = \<lparr>L32 = std_L32, L64 = std_L64,
     EI_MAG0 = 0, EI_MAG1 = 1, EI_MAG2 = 2, EI_MAG3 = 3, EI_CLASS = 4, EI_DATA = 5, EI_VERSION = 6,
     ELFMAG0 = 0x7F, ELFMAG1 = 0x45, ELFMAG2 = 0x4C, ELFMAG3 = 0x46,
     ELFCLASS32 = 1, ELFCLASS64 = 2, ELFDATA2LSB = 1, EV_CURRENT = 1,
     EM_386 = 3, EM_X86_64 = 62, ET_EXEC = 2, ET_DYN = 3, PT_LOAD = 1, PT_DYNAMIC = 2,
     DT_RELA = 7, DT_RELASZ = 8, DT_RELAENT = 9, DT_SYMTAB = 6, DT_SYMENT = 11,
     DT_REL = 17, DT_RELSZ = 18, DT_RELENT = 19,
     R_386_32 = 1, R_386_RELATIVE = 8, R_X86_64_64 = 1, R_X86_64_RELATIVE = 8,
     ELF_ATTR_EXECUTABLE = 1, ELF_ATTR_WRITABLE = 2, ELF_ATTR_READABLE = 4, PAGE_4KB_MASK = 0xFFF,
     GET_PHDR = (\<lambda>es tab i. tab + ucast i * ucast es),
     GET_SHDR = (\<lambda>es tab i. tab + ucast i * ucast es)\<rparr>"

lemma std_elf_tables: "TABLE_ok (GET_PHDR std_elf)" "TABLE_ok (GET_SHDR std_elf)"
  by (simp_all add: TABLE_ok_def std_elf_def)

section \<open>Properties\<close>

text \<open>
  No header is valid for both classes when the class constants differ, so the
  order of the two checks in the loader does not matter; and a valid header of either class has the
  ELF magic numbers.
\<close>

theorem elf_header_exclusive:
  assumes "ELFCLASS32 E \<noteq> ELFCLASS64 E" and "o_e_ident (L32 E) = 0" and "o_e_ident (L64 E) = 0"
  shows "\<not> (elf32_header_is_valid E m p \<and> elf64_header_is_valid E m p)
    \<and> (elf32_header_is_valid E m p \<or> elf64_header_is_valid E m p \<longrightarrow> elf_is_elf E m p)"
  using assms by (auto simp: elf32_header_is_valid_def elf64_header_is_valid_def elf_is_elf_def e_ident_def)

definition tiny_elf64_header :: "u8 list" where
  "tiny_elf64_header =
     [0x7F, 0x45, 0x4C, 0x46, 2, 1, 1, 0, 0, 0, 0, 0, 0, 0, 0, 0,
      2, 0, 62, 0, 1, 0, 0, 0]"

theorem elf_header_exclusive_witness:
  "elf64_header_is_valid std_elf (store_bytes 0x5000 tiny_elf64_header (\<lambda>_. 0)) 0x5000
   \<and> elf_is_elf std_elf (store_bytes 0x5000 tiny_elf64_header (\<lambda>_. 0)) 0x5000"
proof -
  let ?m = "store_bytes 0x5000 tiny_elf64_header (\<lambda>_. 0)"
  have "elf64_header_is_valid std_elf ?m 0x5000"
    by (simp add: elf64_header_is_valid_def elf_fields std_elf_def std_L64_def tiny_elf64_header_def mem_eval)
  moreover have "ELFCLASS32 std_elf \<noteq> ELFCLASS64 std_elf" "o_e_ident (L32 std_elf) = 0" "o_e_ident (L64 std_elf) = 0"
    by (simp_all add: std_elf_def std_L32_def std_L64_def)
  ultimately show ?thesis
    using elf_header_exclusive [of std_elf ?m "0x5000"] by blast
qed

text \<open>
  \<^verbatim>\<open>elf_get_segment_info\<close> fails exactly on an image that is not a valid ELF file of either class
  and on a segment number not below the number of program headers; since the
  number is a signed 16-bit value compared with an unsigned one, every negative number
  passes the check.
\<close>

theorem elf_get_segment_info_fails_iff:
  "elf_get_segment_info E m p n = None \<longleftrightarrow>
     (if elf32_header_is_valid E m p then int (unat (e_phnum (L32 E) m p)) \<le> sint n
      else if elf64_header_is_valid E m p then int (unat (e_phnum (L64 E) m p)) \<le> sint n
      else True)"
  by (auto simp: elf_get_segment_info_def elf32_get_segment_info_def elf64_get_segment_info_def Let_def
      not_less)

end
