(* ===== verification/Elf_Segments.thy ===== *)
theory Elf_Segments
  imports Elf_Info
begin

text \<open>
  What the two ELF loaders share: the status of an operation, the record of load parameters, the
  reading of one segment with its zeroed tail, and the loop over the program headers as an interface that both loaders
  implement. \<^verbatim>\<open>elf_load_info_t\<close> and \<^verbatim>\<open>mon_status_t\<close> come from headers of the core.
\<close>

datatype mon_status = MON_OK | MON_ERROR

record elf_load_info =
  start_addr :: u64
  end_addr :: u64
  entry_addr :: u64
  sections_addr :: u64
  relocation_offset :: u64
  machine_type :: u16
  copy_section_headers :: bool
  copy_symbol_tables :: bool

text \<open>The guard of the program-header loops, and the address of the header the loop looks at.\<close>

definition ph_more :: "elf_layout \<Rightarrow> mem \<Rightarrow> u32 \<Rightarrow> nat \<Rightarrow> bool" where
  "ph_more L m ehdr i \<longleftrightarrow> int i < sint (e_phnum L m ehdr)"

definition ph_at :: "elf_env \<Rightarrow> elf_layout \<Rightarrow> mem \<Rightarrow> u32 \<Rightarrow> u32 \<Rightarrow> nat \<Rightarrow> u32" where
  "ph_at E L m ehdr phdrtab i = GET_PHDR E (e_phentsize L m ehdr) phdrtab (of_nat i)"

text \<open>
  The number of iterations of a loop \<^verbatim>\<open>for (i = 0; i < sz / entsz; ++i)\<close> over signed 32-bit values
  with a positive entry size.
\<close>

definition signed_count :: "u32 \<Rightarrow> u32 \<Rightarrow> nat" where
  "signed_count sz entsz = (if sint sz \<le> 0 \<or> sint entsz \<le> 0 then 0 else nat (sint sz div sint entsz))"

text \<open>
  The loop over \<open>n\<close> relocation entries of \<open>esz\<close> bytes each from address \<open>ent\<close> on; \<open>step\<close> is the body, which
  returns at once on an unsupported relocation.
\<close>

fun reloc_loop :: "(u32 \<Rightarrow> mem \<Rightarrow> mon_status \<times> mem) \<Rightarrow> u32 \<Rightarrow> nat \<Rightarrow> u32 \<Rightarrow> mem \<Rightarrow> mon_status \<times> mem" where
  "reloc_loop step esz 0 ent m = (MON_OK, m)"
| "reloc_loop step esz (Suc n) ent m =
     (case step ent m of
        (MON_ERROR, m1) \<Rightarrow> (MON_ERROR, m1)
      | (MON_OK, m1) \<Rightarrow> reloc_loop step esz n (ent + esz) m1)"

lemma ph_more_bound: "ph_more L m ehdr i \<Longrightarrow> i < 32768"
  using sint_lt [of "e_phnum L m ehdr"] by (simp add: ph_more_def)

definition ph_count :: "elf_layout \<Rightarrow> mem \<Rightarrow> u32 \<Rightarrow> nat" where
  "ph_count L m ehdr = nat (sint (e_phnum L m ehdr))"

lemma ph_more_count: "ph_more L m ehdr i \<longleftrightarrow> i < ph_count L m ehdr"
  by (auto simp: ph_more_def ph_count_def)

lemma sint_u16_Suc: "sint (i :: u16) < 32767 \<Longrightarrow> sint (i + 1) = sint i + 1"
  using sint_ge [of i] by (simp add: sint_word_ariths signed_take_bit_int_eq_self)

text \<open>The two count fields of the ELF header lie in the image.\<close>

definition counts_inside :: "elf_layout \<Rightarrow> mem_image_access \<Rightarrow> u32 \<Rightarrow> bool" where
  "counts_inside L im ehdr \<longleftrightarrow>
     inside (ehdr + o_e_phnum L) 2 (image im) (unat (image_size im))
     \<and> inside (ehdr + o_e_phentsize L) 2 (image im) (unat (image_size im))"

lemma counts_stable:
  assumes "counts_inside L im ehdr" and "agree_on (image im) (unat (image_size im)) m m'"
  shows "ph_count L m' ehdr = ph_count L m ehdr" and "ph_at E L m' ehdr = ph_at E L m ehdr"
  using assms agree_on_load(1) [OF assms(2)]
  by (simp_all add: counts_inside_def ph_count_def ph_at_def e_phnum_def e_phentsize_def fun_eq_iff)

section \<open>Reading a segment and zeroing its tail\<close>

lemma read_segment:
  assumes win: "unat off + unat f \<le> unat (image_size im)" and fz: "unat f \<le> unat z"
    and sp: "sep d (unat z) (image im) (unat (image_size im))"
    and agree: "agree_on (image im) (unat (image_size im)) m m'"
  defines "m1 \<equiv> snd (mem_image_read im d off f m')"
  shows "mem_image_read im d off f m' = (f, m1)"
    and "(if f < z then mon_memset (d + f) 0 (z - f) m1 else m1) x =
      (if in_range d (unat z) x then if unat (x - d) < unat f then m (image im + off + (x - d)) else 0
       else m' x)"
proof -
  have sp': "sep d (unat f) (image im + off) (unat f)"
    by (rule sep_inside [OF sp]) (use win fz in \<open>simp_all add: inside_def\<close>)
  have base: "snd (mem_image_map_to_mem im 0 0) = image im" by (simp add: mem_image_map_to_mem_def Let_def)
  show "mem_image_read im d off f m' = (f, m1)"
    using mem_image.read_inside(1) [OF win, of d m'] by (simp add: m1_def prod_eq_iff)
  have m1: "m1 x = (if in_range d (unat f) x then m (image im + off + (x - d)) else m' x)" for x
  proof -
    have "in_range (image im) (unat (image_size im)) (image im + off + (x - d))" if "in_range d (unat f) x"
      by (rule inside_in_range [of "image im + off" "unat f"])
        (use that win in \<open>simp_all add: inside_def in_range_def\<close>)
    then show ?thesis
      using mem_image.read_inside(2) [OF win, of d m' x] sp' agree by (simp add: m1_def base agree_on_def)
  qed
  have g: "unat (z - f) = unat z - unat f" using fz by (simp add: unat_sub_if')
  have split: "in_range d (unat z) x \<longleftrightarrow> in_range d (unat f) x \<or> in_range (d + f) (unat z - unat f) x"
    "in_range (d + f) (unat z - unat f) x \<Longrightarrow> \<not> in_range d (unat f) x"
    using in_range_split [of f "unat z - unat f" d x] fz unat_bound(3) [of z] by simp_all
  show "(if f < z then mon_memset (d + f) 0 (z - f) m1 else m1) x =
      (if in_range d (unat z) x then if unat (x - d) < unat f then m (image im + off + (x - d)) else 0
       else m' x)"
  proof (cases "f < z")
    case True
    then show ?thesis using m1 [of x] split g by (auto simp: mon_memset_apply in_range_def)
  next
    case False
    then have "unat z = unat f" using fz by (simp add: word_less_nat_alt)
    with False m1 [of x] show ?thesis by (simp add: in_range_def)
  qed
qed

section \<open>The loop over the program headers\<close>

text \<open>
  The interface: \<open>loop i dyn m\<close> walks the headers from \<open>i\<close> on, remembers the last dynamic one, and
  loads the others that are loadable with \<open>load\<close>. \<open>ok m\<close> says that in memory \<open>m\<close> the image, the \<open>n\<close>
  bytes at \<open>a\<close>, is laid out so that loading cannot disturb it; then the headers read the same
  as long as the image's bytes are the same, each load writes exactly the
  segment's bytes, and the targets meet neither the image nor each other.
\<close>

locale segment_loop =
  fixes loop :: "nat \<Rightarrow> u32 \<Rightarrow> mem \<Rightarrow> mon_status \<times> u32 \<times> mem"
    and hdr_count :: "mem \<Rightarrow> nat" and hdr :: "mem \<Rightarrow> nat \<Rightarrow> u32"
    and is_dyn :: "mem \<Rightarrow> u32 \<Rightarrow> bool" and is_load :: "mem \<Rightarrow> u32 \<Rightarrow> bool"
    and load_one :: "u32 \<Rightarrow> mem \<Rightarrow> mon_status \<times> mem"
    and a :: u32 and n :: nat and ok :: "mem \<Rightarrow> bool"
    and dst :: "mem \<Rightarrow> u32 \<Rightarrow> u32" and len :: "mem \<Rightarrow> u32 \<Rightarrow> nat" and seg_byte :: "mem \<Rightarrow> u32 \<Rightarrow> u32 \<Rightarrow> u8"
  assumes loop_eq: "loop i d m =
      (if i < hdr_count m then
         if is_dyn m (hdr m i) then loop (Suc i) (hdr m i) m
         else if \<not> is_load m (hdr m i) then loop (Suc i) d m
         else (case load_one (hdr m i) m of
                 (MON_ERROR, m1) \<Rightarrow> (MON_ERROR, d, m1) | (MON_OK, m1) \<Rightarrow> loop (Suc i) d m1)
       else (MON_OK, d, m))"
    and exclusive: "\<lbrakk>ok m; is_load m p\<rbrakk> \<Longrightarrow> \<not> is_dyn m p"
    and headers_stable: "\<lbrakk>ok m; agree_on a n m m'\<rbrakk> \<Longrightarrow> hdr_count m' = hdr_count m \<and> hdr m' = hdr m"
    and kinds_stable: "\<lbrakk>ok m; agree_on a n m m'; i < hdr_count m\<rbrakk>
      \<Longrightarrow> is_dyn m' (hdr m i) = is_dyn m (hdr m i) \<and> is_load m' (hdr m i) = is_load m (hdr m i)"
    and loads: "\<lbrakk>ok m; agree_on a n m m'; i < hdr_count m; is_load m (hdr m i)\<rbrakk>
      \<Longrightarrow> \<exists>m''. load_one (hdr m i) m' = (MON_OK, m'') \<and> (\<forall>x. m'' x =
            (if in_range (dst m (hdr m i)) (len m (hdr m i)) x then seg_byte m (hdr m i) x else m' x))"
    and clear_of_image: "\<lbrakk>ok m; i < hdr_count m; is_load m (hdr m i)\<rbrakk>
      \<Longrightarrow> sep (dst m (hdr m i)) (len m (hdr m i)) a n"
    and clear_of_others: "\<lbrakk>ok m; i < hdr_count m; j < i; is_load m (hdr m i); is_load m (hdr m j)\<rbrakk>
      \<Longrightarrow> sep (dst m (hdr m i)) (len m (hdr m i)) (dst m (hdr m j)) (len m (hdr m j))"
begin

definition dyn_from :: "mem \<Rightarrow> nat \<Rightarrow> u32 list" where
  "dyn_from m i = filter (is_dyn m) (map (hdr m) [i..<hdr_count m])"

definition seg_placed :: "mem \<Rightarrow> nat \<Rightarrow> mem \<Rightarrow> bool" where
  "seg_placed m = placed (\<lambda>j. is_load m (hdr m j)) (\<lambda>j. dst m (hdr m j)) (\<lambda>j. len m (hdr m j))
     (\<lambda>j. seg_byte m (hdr m j)) m"

lemma placed_image:
  "ok m \<Longrightarrow> seg_placed m i m' \<Longrightarrow> i \<le> hdr_count m \<Longrightarrow> agree_on a n m m'"
  unfolding seg_placed_def by (rule placed_agree, assumption) (simp add: clear_of_image)

lemma loop_from:
  assumes ok: "ok m" and "seg_placed m i m'" and "i \<le> hdr_count m"
  shows "\<exists>m''. loop i d m' = (MON_OK, last (d # dyn_from m i), m'') \<and> seg_placed m (hdr_count m) m''"
  using assms(2,3)
proof (induction "hdr_count m - i" arbitrary: i d m')
  case 0
  then have "i = hdr_count m" by simp
  with headers_stable [OF ok placed_image [OF ok "0.prems"]] 0 show ?case
    by (subst loop_eq) (simp add: dyn_from_def)
next
  case (Suc k)
  let ?h = "hdr m i"
  have i: "i < hdr_count m" using Suc.hyps(2) by simp
  have ag: "agree_on a n m m'" using placed_image [OF ok Suc.prems] .
  note same = headers_stable [OF ok ag] kinds_stable [OF ok ag i]
  have up: "[i..<hdr_count m] = i # [Suc i..<hdr_count m]" using i by (rule upt_conv_Cons)
  note IH = Suc.hyps(1) [of "Suc i"]
  show ?case
  proof (cases "is_load m ?h")
    case False
    then have "loop i d m' = loop (Suc i) (if is_dyn m ?h then ?h else d) m'"
      using i same by (subst loop_eq) simp
    moreover have "seg_placed m (Suc i) m'"
      using Suc.prems(1) False by (simp add: seg_placed_def placed_skip)
    moreover have "last (d # dyn_from m i) = last ((if is_dyn m ?h then ?h else d) # dyn_from m (Suc i))"
      by (simp add: dyn_from_def up)
    ultimately show ?thesis using IH Suc.hyps(2) i by simp
  next
    case True
    then obtain m1 where m1: "load_one ?h m' = (MON_OK, m1)"
      and x: "\<And>x. m1 x = (if in_range (dst m ?h) (len m ?h) x then seg_byte m ?h x else m' x)"
      using loads [OF ok ag i] by blast
    have nd: "\<not> is_dyn m ?h" using exclusive [OF ok True] .
    have "loop i d m' = loop (Suc i) d m1"
      using i same m1 True nd by (subst loop_eq) simp
    moreover have "seg_placed m (Suc i) m1"
      unfolding seg_placed_def
      by (rule placed_step [OF Suc.prems(1) [unfolded seg_placed_def] x])
        (use True i in \<open>auto intro: clear_of_others [OF ok]\<close>)
    moreover have "dyn_from m i = dyn_from m (Suc i)" using nd by (simp add: dyn_from_def up)
    ultimately show ?thesis using IH Suc.hyps(2) i by simp
  qed
qed

definition loaded :: "mem \<Rightarrow> mem" where
  "loaded m x =
     (case find (\<lambda>p. in_range (dst m p) (len m p) x) (filter (is_load m) (map (hdr m) [0..<hdr_count m])) of
        Some p \<Rightarrow> seg_byte m p x | None \<Rightarrow> m x)"

lemma placed_loaded:
  assumes "seg_placed m (hdr_count m) m'"
  shows "m' = loaded m"
proof
  fix x
  let ?P = "\<lambda>p. in_range (dst m p) (len m p) x" and ?ps = "filter (is_load m) (map (hdr m) [0..<hdr_count m])"
  show "m' x = loaded m x"
  proof (cases "find ?P ?ps")
    case None
    then have "m' x = m x" using assms unfolding find_None_iff by (auto simp: seg_placed_def placed_def)
    with None show ?thesis by (simp add: loaded_def)
  next
    case (Some p)
    then have "p \<in> set ?ps" and "?P p" by (blast dest: find_SomeD)+
    then have "m' x = seg_byte m p x" using assms by (auto simp: seg_placed_def placed_def)
    with Some show ?thesis by (simp add: loaded_def)
  qed
qed

lemma loop_correct:
  assumes "ok m"
  shows "loop 0 d m = (MON_OK, last (d # dyn_from m 0), loaded m)"
proof -
  have "seg_placed m 0 m" by (simp add: seg_placed_def)
  from loop_from [OF assms this, of d] placed_loaded show ?thesis by blast
qed

end

section \<open>The loop over the relocation entries\<close>

text \<open>
  When each entry writes its own target of \<open>w\<close> bytes, and the targets meet neither the relocation
  table (the \<open>tn\<close> bytes at \<open>tab\<close>) nor each other, the loop writes all targets and nothing else.
\<close>

lemma reloc_loop_from:
  assumes step: "\<And>i m'. i < n \<Longrightarrow> agree_on tab tn m m' \<Longrightarrow> agree_on (tgt i) w m m' \<Longrightarrow>
      \<exists>m''. step (ent + of_nat i * esz) m' = (MON_OK, m'')
        \<and> (\<forall>x. m'' x = (if in_range (tgt i) w x then val_byte i x else m' x))"
    and table: "\<And>i. i < n \<Longrightarrow> sep (tgt i) w tab tn"
    and others: "\<And>i j. i < n \<Longrightarrow> j < i \<Longrightarrow> sep (tgt i) w (tgt j) w"
    and "placed (\<lambda>_. True) tgt (\<lambda>_. w) val_byte m i m'" and "i \<le> n"
  shows "\<exists>m''. reloc_loop step esz (n - i) (ent + of_nat i * esz) m' = (MON_OK, m'')
    \<and> placed (\<lambda>_. True) tgt (\<lambda>_. w) val_byte m n m''"
  using assms(4,5)
proof (induction "n - i" arbitrary: i m')
  case 0
  then show ?case by simp
next
  case (Suc k)
  then have i: "i < n" and n: "n - i = Suc (n - Suc i)" by simp_all
  have "agree_on tab tn m m'"
    by (rule placed_agree [OF Suc.prems(1)]) (use table i in simp)
  moreover have "agree_on (tgt i) w m m'"
    by (rule placed_agree [OF Suc.prems(1)]) (use others [OF i] in \<open>simp add: sep_sym\<close>)
  ultimately obtain m1 where m1: "step (ent + of_nat i * esz) m' = (MON_OK, m1)"
    and x: "\<And>x. m1 x = (if in_range (tgt i) w x then val_byte i x else m' x)"
    using step [OF i] by blast
  have "placed (\<lambda>_. True) tgt (\<lambda>_. w) val_byte m (Suc i) m1"
    by (rule placed_step [OF Suc.prems(1) x]) (use others [OF i] in simp_all)
  moreover have "k = n - Suc i" using Suc.hyps(2) by simp
  ultimately have IH: "\<exists>m''. reloc_loop step esz (n - Suc i) (ent + of_nat (Suc i) * esz) m1 = (MON_OK, m'')
      \<and> placed (\<lambda>_. True) tgt (\<lambda>_. w) val_byte m n m''"
    using Suc.hyps(1) Suc_leI [OF i] by blast
  have next_ent: "ent + of_nat i * esz + esz = ent + of_nat (Suc i) * esz" by (simp add: algebra_simps)
  show ?case unfolding n reloc_loop.simps m1 prod.case mon_status.case next_ent using IH .
qed

lemma reloc_loop_placed:
  assumes "\<And>i m'. i < n \<Longrightarrow> agree_on tab tn m m' \<Longrightarrow> agree_on (tgt i) w m m' \<Longrightarrow>
      \<exists>m''. step (ent + of_nat i * esz) m' = (MON_OK, m'')
        \<and> (\<forall>x. m'' x = (if in_range (tgt i) w x then val_byte i x else m' x))"
    and "\<And>i. i < n \<Longrightarrow> sep (tgt i) w tab tn"
    and "\<And>i j. i < n \<Longrightarrow> j < i \<Longrightarrow> sep (tgt i) w (tgt j) w"
  obtains m'' where "reloc_loop step esz n ent m = (MON_OK, m'')"
    and "\<And>i x. i < n \<Longrightarrow> in_range (tgt i) w x \<Longrightarrow> m'' x = val_byte i x"
    and "\<And>x. (\<forall>i<n. \<not> in_range (tgt i) w x) \<Longrightarrow> m'' x = m x"
proof -
  have "\<exists>m''. reloc_loop step esz (n - 0) (ent + of_nat 0 * esz) m = (MON_OK, m'')
      \<and> placed (\<lambda>_. True) tgt (\<lambda>_. w) val_byte m n m''"
    by (rule reloc_loop_from [where tab = tab and tn = tn]) (use assms in simp_all)
  then show ?thesis using that by (auto simp: placed_def)
qed

end
