(* ===== verification/Elf32_Ld.thy ===== *)
theory Elf32_Ld
  imports Elf_Segments "HOL-Library.Monad_Syntax"
begin

text \<open>
  The loader for 32-bit ELF images, \<^verbatim>\<open>common/ld/elf_ld/elf32_ld.c\<close>. It calls the memory accessor
  directly, computes addresses in 32 bits, and knows two kinds of relocation tables: with explicit
  addends (\<^verbatim>\<open>DT_RELA\<close>) and with the addend at the target (\<^verbatim>\<open>DT_REL\<close>). The debug prints
  expand to nothing in a release build.
\<close>

text \<open>Header fields of class 32.\<close>

definition e32_entry :: "elf_layout \<Rightarrow> mem \<Rightarrow> u32 \<Rightarrow> u32" where
  "e32_entry L m ehdr = load32 m (ehdr + o_e_entry L)"

definition e32_phoff :: "elf_layout \<Rightarrow> mem \<Rightarrow> u32 \<Rightarrow> u32" where
  "e32_phoff L m ehdr = load32 m (ehdr + o_e_phoff L)"

definition e32_shoff :: "elf_layout \<Rightarrow> mem \<Rightarrow> u32 \<Rightarrow> u32" where
  "e32_shoff L m ehdr = load32 m (ehdr + o_e_shoff L)"

definition p32_offset :: "elf_layout \<Rightarrow> mem \<Rightarrow> u32 \<Rightarrow> u32" where
  "p32_offset L m phdr = load32 m (phdr + o_p_offset L)"

definition p32_vaddr :: "elf_layout \<Rightarrow> mem \<Rightarrow> u32 \<Rightarrow> u32" where
  "p32_vaddr L m phdr = load32 m (phdr + o_p_vaddr L)"

definition p32_paddr :: "elf_layout \<Rightarrow> mem \<Rightarrow> u32 \<Rightarrow> u32" where
  "p32_paddr L m phdr = load32 m (phdr + o_p_paddr L)"

definition p32_filesz :: "elf_layout \<Rightarrow> mem \<Rightarrow> u32 \<Rightarrow> u32" where
  "p32_filesz L m phdr = load32 m (phdr + o_p_filesz L)"

definition p32_memsz :: "elf_layout \<Rightarrow> mem \<Rightarrow> u32 \<Rightarrow> u32" where
  "p32_memsz L m phdr = load32 m (phdr + o_p_memsz L)"

definition sh32_addr :: "elf_layout \<Rightarrow> mem \<Rightarrow> u32 \<Rightarrow> u32" where
  "sh32_addr L m shdr = load32 m (shdr + o_sh_addr L)"

definition sh32_offset :: "elf_layout \<Rightarrow> mem \<Rightarrow> u32 \<Rightarrow> u32" where
  "sh32_offset L m shdr = load32 m (shdr + o_sh_offset L)"

definition sh32_size :: "elf_layout \<Rightarrow> mem \<Rightarrow> u32 \<Rightarrow> u32" where
  "sh32_size L m shdr = load32 m (shdr + o_sh_size L)"

definition sh32_addralign :: "elf_layout \<Rightarrow> mem \<Rightarrow> u32 \<Rightarrow> u32" where
  "sh32_addralign L m shdr = load32 m (shdr + o_sh_addralign L)"

lemmas elf32_fields = e32_entry_def e32_phoff_def e32_shoff_def p32_offset_def p32_vaddr_def p32_paddr_def
  p32_filesz_def p32_memsz_def sh32_addr_def sh32_offset_def sh32_size_def sh32_addralign_def

definition align_up32 :: "u32 \<Rightarrow> u32 \<Rightarrow> u32" where
  "align_up32 a al = (a + (al - 1)) AND NOT (al - 1)"

section \<open>elf32_get_load_info\<close>

function elf32_span :: "elf_env \<Rightarrow> mem \<Rightarrow> u32 \<Rightarrow> u32 \<Rightarrow> nat \<Rightarrow> u32 \<Rightarrow> u32 \<Rightarrow> u32 \<times> u32" where
  "elf32_span E m ehdr phdrtab i low_addr max_addr =
     (if ph_more (L32 E) m ehdr i then
        let phdr = ph_at E (L32 E) m ehdr phdrtab i;
            addr = p32_paddr (L32 E) m phdr; memsz = p32_memsz (L32 E) m phdr
        in if PT_LOAD E \<noteq> p_type (L32 E) m phdr \<or> memsz = 0
           then elf32_span E m ehdr phdrtab (Suc i) low_addr max_addr
           else elf32_span E m ehdr phdrtab (Suc i)
                  (if addr < low_addr then addr else low_addr)
                  (if addr + memsz > max_addr then addr + memsz else max_addr)
      else (low_addr, max_addr))"
  by pat_completeness auto
termination
  by (relation "measure (\<lambda>(E, m, ehdr, phdrtab, i, low_addr, max_addr). 32768 - i)")
    (auto dest: ph_more_bound)

declare elf32_span.simps [simp del]

text \<open>The walk over the section headers; the counter is \<^verbatim>\<open>int16_t\<close>, the count \<^verbatim>\<open>uint16_t\<close>.\<close>

partial_function (option) elf32_section_room ::
    "elf_env \<Rightarrow> mem \<Rightarrow> u32 \<Rightarrow> u32 \<Rightarrow> u16 \<Rightarrow> u32 \<Rightarrow> u32 option" where
  "elf32_section_room E m ehdr shdrtab i max_addr =
     (if sint i < uint (e_shnum (L32 E) m ehdr) then
        let shdr = GET_SHDR E (e_shentsize (L32 E) m ehdr) shdrtab i; sz = sh32_size (L32 E) m shdr
        in if sz = 0 \<or> sh32_addr (L32 E) m shdr \<noteq> 0
           then elf32_section_room E m ehdr shdrtab (i + 1) max_addr
           else let al = sh32_addralign (L32 E) m shdr;
                    a = (if al > 1 then align_up32 max_addr al else max_addr)
                in elf32_section_room E m ehdr shdrtab (i + 1) (a + sz)
      else Some max_addr)"

definition elf32_get_load_info ::
    "elf_env \<Rightarrow> mem_image_access \<Rightarrow> elf_load_info \<Rightarrow> mem \<Rightarrow> (mon_status \<times> elf_load_info) option" where
  "elf32_get_load_info E im p_info m =
     (let L = L32 E; (got, ehdr) = mem_image_map_to_mem im 0 (sizeof_ehdr L) in
      if sizeof_ehdr L \<noteq> got then Some (MON_ERROR, p_info)
      else if e_type L m ehdr \<noteq> ET_EXEC E \<and> e_type L m ehdr \<noteq> ET_DYN E then Some (MON_ERROR, p_info)
      else
        let phsize = ucast (e_phnum L m ehdr) * ucast (e_phentsize L m ehdr);
            (got, phdrtab) = mem_image_map_to_mem im (e32_phoff L m ehdr) phsize in
        if got \<noteq> phsize then Some (MON_ERROR, p_info)
        else
          let (low_addr, max_addr) = elf32_span E m ehdr phdrtab 0 (- 1) 0 in
          if low_addr AND PAGE_4KB_MASK E \<noteq> 0 then Some (MON_ERROR, p_info)
          else if copy_section_headers p_info \<or> copy_symbol_tables p_info then
            let sa = (max_addr + 0xF) AND NOT 0xF;
                p_info = p_info\<lparr>sections_addr := ucast sa\<rparr>;
                shsize = ucast (e_shnum L m ehdr) * ucast (e_shentsize L m ehdr) :: u32;
                max_addr = sa + shsize in
            if copy_symbol_tables p_info then
              let (got, shdrtab) = mem_image_map_to_mem im (e32_shoff L m ehdr) shsize in
              if got \<noteq> shsize then Some (MON_ERROR, p_info)
              else do {
                max_addr \<leftarrow> elf32_section_room E m ehdr shdrtab 0 max_addr;
                Some (MON_OK, p_info\<lparr>start_addr := ucast low_addr, end_addr := ucast max_addr,
                                     entry_addr := ucast (e32_entry L m ehdr)\<rparr>) }
            else Some (MON_OK, p_info\<lparr>start_addr := ucast low_addr, end_addr := ucast max_addr,
                                      entry_addr := ucast (e32_entry L m ehdr)\<rparr>)
          else Some (MON_OK, p_info\<lparr>start_addr := ucast low_addr, end_addr := ucast max_addr,
                                    entry_addr := ucast (e32_entry L m ehdr)\<rparr>))"

section \<open>elf32_load_executable\<close>

definition elf32_load_segment ::
    "elf_env \<Rightarrow> mem_image_access \<Rightarrow> elf_load_info \<Rightarrow> u32 \<Rightarrow> mem \<Rightarrow> mon_status \<times> mem" where
  "elf32_load_segment E im p_info phdr m =
     (let L = L32 E; addr = p32_paddr L m phdr; memsz = p32_memsz L m phdr;
          filesz = (if p32_filesz L m phdr > memsz then memsz else p32_filesz L m phdr);
          (got, m1) = mem_image_read im (ucast (ucast addr + relocation_offset p_info))
                        (p32_offset L m phdr) filesz m
      in if got \<noteq> filesz then (MON_ERROR, m1)
         else if filesz < memsz
         then (MON_OK, mon_memset (ucast (ucast (addr + filesz) + relocation_offset p_info)) 0 (memsz - filesz) m1)
         else (MON_OK, m1))"

function elf32_load_segments ::
    "elf_env \<Rightarrow> mem_image_access \<Rightarrow> elf_load_info \<Rightarrow> u32 \<Rightarrow> u32 \<Rightarrow> nat \<Rightarrow> u32 \<Rightarrow> mem
      \<Rightarrow> mon_status \<times> u32 \<times> mem" where
  "elf32_load_segments E im p_info ehdr phdrtab i phdr_dyn m =
     (if ph_more (L32 E) m ehdr i then
        let phdr = ph_at E (L32 E) m ehdr phdrtab i in
        if PT_DYNAMIC E = p_type (L32 E) m phdr
        then elf32_load_segments E im p_info ehdr phdrtab (Suc i) phdr m
        else if PT_LOAD E \<noteq> p_type (L32 E) m phdr \<or> p32_memsz (L32 E) m phdr = 0
        then elf32_load_segments E im p_info ehdr phdrtab (Suc i) phdr_dyn m
        else (case elf32_load_segment E im p_info phdr m of
                (MON_ERROR, m1) \<Rightarrow> (MON_ERROR, phdr_dyn, m1)
              | (MON_OK, m1) \<Rightarrow> elf32_load_segments E im p_info ehdr phdrtab (Suc i) phdr_dyn m1)
      else (MON_OK, phdr_dyn, m))"
  by pat_completeness auto
termination
  by (relation "measure (\<lambda>(E, im, p_info, ehdr, phdrtab, i, phdr_dyn, m). 32768 - i)")
    (auto dest: ph_more_bound)

declare elf32_load_segments.simps [simp del]

function elf32_update_phdrs :: "elf_env \<Rightarrow> u64 \<Rightarrow> u32 \<Rightarrow> u32 \<Rightarrow> nat \<Rightarrow> mem \<Rightarrow> mem" where
  "elf32_update_phdrs E reloc ehdr phdrtab i m =
     (if ph_more (L32 E) m ehdr i then
        let L = L32 E; phdr = ph_at E L m ehdr phdrtab i in
        if 0 \<noteq> p32_memsz L m phdr then
          let m1 = store32 (phdr + o_p_paddr L) (p32_paddr L m phdr + ucast reloc) m;
              m2 = store32 (phdr + o_p_vaddr L) (p32_vaddr L m1 phdr + ucast reloc) m1
          in elf32_update_phdrs E reloc ehdr phdrtab (Suc i) m2
        else elf32_update_phdrs E reloc ehdr phdrtab (Suc i) m
      else m)"
  by pat_completeness auto
termination
  by (relation "measure (\<lambda>(E, reloc, ehdr, phdrtab, i, m). 32768 - i)")
    (auto dest: ph_more_bound)

declare elf32_update_phdrs.simps [simp del]

subsection \<open>Relocation\<close>

text \<open>The locals of \<^verbatim>\<open>elf32_do_relocation\<close> that the walk over the dynamic section fills in.\<close>

record dyn32 =
  d32_rela :: u32
  d32_rela_sz :: u32
  d32_rela_entsz :: u32
  d32_symtab :: u32
  d32_symtab_entsz :: u32
  d32_rel :: u32
  d32_rel_sz :: u32
  d32_rel_entsz :: u32

definition dyn32_entry :: "elf_env \<Rightarrow> elf_load_info \<Rightarrow> mem \<Rightarrow> u32 \<Rightarrow> dyn32 \<Rightarrow> dyn32" where
  "dyn32_entry E p_info m d r =
     (let tag = load32 m (d + o_d_tag (L32 E)); val = load32 m (d + o_d_un (L32 E));
          ptr = ucast (ucast val + start_addr p_info);
          r = (if DT_RELA E = tag then r\<lparr>d32_rela := ptr\<rparr> else r);
          r = (if DT_RELASZ E = tag then r\<lparr>d32_rela_sz := val\<rparr> else r);
          r = (if DT_RELAENT E = tag then r\<lparr>d32_rela_entsz := val\<rparr> else r);
          r = (if DT_SYMTAB E = tag then r\<lparr>d32_symtab := ptr\<rparr> else r);
          r = (if DT_SYMENT E = tag then r\<lparr>d32_symtab_entsz := val\<rparr> else r);
          r = (if DT_REL E = tag then r\<lparr>d32_rel := ptr\<rparr> else r);
          r = (if DT_RELSZ E = tag then r\<lparr>d32_rel_sz := val\<rparr> else r)
      in if DT_RELENT E = tag then r\<lparr>d32_rel_entsz := val\<rparr> else r)"

fun dyn32_walk :: "elf_env \<Rightarrow> elf_load_info \<Rightarrow> mem \<Rightarrow> nat \<Rightarrow> u32 \<Rightarrow> dyn32 \<Rightarrow> dyn32" where
  "dyn32_walk E p_info m 0 d r = r"
| "dyn32_walk E p_info m (Suc n) d r =
     dyn32_walk E p_info m n (d + sizeof_dyn (L32 E)) (dyn32_entry E p_info m d r)"

definition rela32_apply :: "elf_env \<Rightarrow> u32 \<Rightarrow> u32 \<Rightarrow> u32 \<Rightarrow> mem \<Rightarrow> mon_status \<times> mem" where
  "rela32_apply E reloc symtab rela m =
     (let L = L32 E; target_addr = load32 m (rela + o_rela_offset L) + reloc;
          kind = load32 m (rela + o_rela_info L) AND 0xFF;
          base = load32 m (rela + o_rela_addend L) + reloc in
      if kind = R_386_32 E then
        let m1 = store32 target_addr base m;
            symtab_idx = drop_bit 8 (load32 m1 (rela + o_rela_info L));
            st_value = load32 m1 (symtab + symtab_idx * sizeof_sym L + o_st_value L)
        in (MON_OK, store32 target_addr (load32 m1 target_addr + st_value) m1)
      else if kind = R_386_RELATIVE E then (MON_OK, store32 target_addr base m)
      else if kind = 0 then (MON_OK, m)
      else (MON_ERROR, m))"

definition rel32_apply :: "elf_env \<Rightarrow> u32 \<Rightarrow> u32 \<Rightarrow> u32 \<Rightarrow> mem \<Rightarrow> mon_status \<times> mem" where
  "rel32_apply E reloc symtab rel m =
     (let L = L32 E; target_addr = load32 m (rel + o_rel_offset L) + reloc;
          kind = load32 m (rel + o_rel_info L) AND 0xFF in
      if kind = R_386_32 E then
        let m1 = store32 target_addr (load32 m target_addr + reloc) m;
            symtab_idx = drop_bit 8 (load32 m1 (rel + o_rel_info L));
            st_value = load32 m1 (symtab + symtab_idx * sizeof_sym L + o_st_value L)
        in (MON_OK, store32 target_addr (load32 m1 target_addr + st_value) m1)
      else if kind = R_386_RELATIVE E
      then (MON_OK, store32 target_addr (load32 m target_addr + reloc) m)
      else (MON_ERROR, m))"

definition elf32_do_relocation ::
    "elf_env \<Rightarrow> mem_image_access \<Rightarrow> elf_load_info \<Rightarrow> u32 \<Rightarrow> mem \<Rightarrow> mon_status \<times> mem" where
  "elf32_do_relocation E im p_info phdr_dyn m =
     (let L = L32 E; dyn_section_sz = p32_filesz L m phdr_dyn;
          reloc = ucast (relocation_offset p_info);
          (got, dyn_section) = mem_image_map_to_mem im (p32_offset L m phdr_dyn) dyn_section_sz in
      if got \<noteq> dyn_section_sz then (MON_ERROR, m)
      else
        let r = dyn32_walk E p_info m (unat (dyn_section_sz div sizeof_dyn L)) dyn_section
                  \<lparr>d32_rela = 0, d32_rela_sz = 0, d32_rela_entsz = 0, d32_symtab = 0, d32_symtab_entsz = 0,
                   d32_rel = 0, d32_rel_sz = 0, d32_rel_entsz = 0\<rparr> in
        if d32_rela r \<noteq> 0 \<and> d32_rela_sz r \<noteq> 0 \<and> d32_symtab r \<noteq> 0
           \<and> sizeof_rela L = d32_rela_entsz r \<and> sizeof_sym L = d32_symtab_entsz r
        then reloc_loop (rela32_apply E reloc (d32_symtab r)) (sizeof_rela L)
               (signed_count (d32_rela_sz r) (d32_rela_entsz r)) (d32_rela r) m
        else if d32_rel r \<noteq> 0 \<and> d32_symtab r \<noteq> 0 \<and> d32_rel_sz r \<noteq> 0 \<and> sizeof_rel L = d32_rel_entsz r
        then reloc_loop (rel32_apply E reloc (d32_symtab r)) (sizeof_rel L)
               (signed_count (d32_rel_sz r) (d32_rel_entsz r)) (d32_rel r) m
        else (MON_ERROR, m))"

subsection \<open>Sections\<close>

definition elf32_copy_section_header_table ::
    "elf_env \<Rightarrow> mem_image_access \<Rightarrow> elf_load_info \<Rightarrow> mem \<Rightarrow> mon_status \<times> mem" where
  "elf32_copy_section_header_table E im p_info m =
     (let L = L32 E; ehdr = ucast (start_addr p_info); shdrtab = ucast (sections_addr p_info);
          section_hdr_tabsiz = ucast (e_shentsize L m ehdr) * ucast (e_shnum L m ehdr) in
      if \<not> elf32_header_is_valid E m ehdr then (MON_ERROR, m)
      else
        let (got, m1) = mem_image_read im shdrtab (e32_shoff L m ehdr) section_hdr_tabsiz m in
        if got \<noteq> section_hdr_tabsiz then (MON_ERROR, m1)
        else (MON_OK, store32 (ehdr + o_e_shoff L) (ucast (sections_addr p_info - start_addr p_info)) m1))"

partial_function (option) elf32_copy_sections_loop ::
    "elf_env \<Rightarrow> mem_image_access \<Rightarrow> elf_load_info \<Rightarrow> u32 \<Rightarrow> u16 \<Rightarrow> u32 \<Rightarrow> mem \<Rightarrow> (mon_status \<times> mem) option" where
  "elf32_copy_sections_loop E im p_info ehdr i curr_addr m =
     (if sint i < uint (e_shnum (L32 E) m ehdr) then
        let L = L32 E;
            shdr = ucast (sections_addr p_info + ucast i * ucast (e_shentsize L m ehdr)) in
        if sh32_addr L m shdr \<noteq> 0 then
          elf32_copy_sections_loop E im p_info ehdr (i + 1) curr_addr
            (store32 (shdr + o_sh_addr L) (sh32_addr L m shdr + ucast (relocation_offset p_info)) m)
        else if sh32_size L m shdr = 0 then elf32_copy_sections_loop E im p_info ehdr (i + 1) curr_addr m
        else
          let al = sh32_addralign L m shdr;
              curr_addr = (if al > 1 then align_up32 curr_addr al else curr_addr);
              (got, m1) = mem_image_read im curr_addr (sh32_offset L m shdr) (sh32_size L m shdr) m in
          if got \<noteq> sh32_size L m1 shdr then Some (MON_ERROR, m1)
          else
            let m2 = store32 (shdr + o_sh_addr L) curr_addr m1 in
            elf32_copy_sections_loop E im p_info ehdr (i + 1) (curr_addr + sh32_size L m2 shdr) m2
      else Some (MON_OK, m))"

definition elf32_copy_sections ::
    "elf_env \<Rightarrow> mem_image_access \<Rightarrow> elf_load_info \<Rightarrow> mem \<Rightarrow> (mon_status \<times> mem) option" where
  "elf32_copy_sections E im p_info m =
     (let L = L32 E; ehdr = ucast (start_addr p_info);
          section_hdr_tabsiz = ucast (e_shentsize L m ehdr) * ucast (e_shnum L m ehdr) :: u32 in
      elf32_copy_sections_loop E im p_info ehdr 0
        (ucast (sections_addr p_info + ucast section_hdr_tabsiz)) m)"

subsection \<open>The whole load\<close>

definition elf32_load_executable ::
    "elf_env \<Rightarrow> mem_image_access \<Rightarrow> elf_load_info \<Rightarrow> mem \<Rightarrow> (mon_status \<times> mem) option" where
  "elf32_load_executable E im p_info m =
     (let L = L32 E; (got, ehdr) = mem_image_map_to_mem im 0 (sizeof_ehdr L) in
      if sizeof_ehdr L \<noteq> got then Some (MON_ERROR, m)
      else
        let phsize = ucast (e_phnum L m ehdr) * ucast (e_phentsize L m ehdr);
            (got, phdrtab) = mem_image_map_to_mem im (e32_phoff L m ehdr) phsize in
        if got \<noteq> phsize then Some (MON_ERROR, m)
        else
          let (status, phdr_dyn, m1) = elf32_load_segments E im p_info ehdr phdrtab 0 0 m in
          if status = MON_ERROR then Some (MON_ERROR, m1)
          else
            let ehdr = ucast (start_addr p_info);
                phdrtab = ucast (start_addr p_info + ucast (e32_phoff L m1 ehdr));
                m2 = elf32_update_phdrs E (relocation_offset p_info) ehdr phdrtab 0 m1;
                (status, m3) = (if phdr_dyn \<noteq> 0 then elf32_do_relocation E im p_info phdr_dyn m2
                                else (MON_OK, m2)) in
            if status = MON_ERROR then Some (MON_ERROR, m3)
            else
              let (status, m4) = (if copy_section_headers p_info \<or> copy_symbol_tables p_info
                                  then elf32_copy_section_header_table E im p_info m3
                                  else (MON_OK, m3)) in
              if copy_symbol_tables p_info then elf32_copy_sections E im p_info m4
              else Some (status, m4))"

section \<open>The span of the loadable segments\<close>

definition loads32 :: "elf_env \<Rightarrow> mem \<Rightarrow> u32 \<Rightarrow> bool" where
  "loads32 E m phdr \<longleftrightarrow> PT_LOAD E = p_type (L32 E) m phdr \<and> p32_memsz (L32 E) m phdr \<noteq> 0"

definition loadable32 :: "elf_env \<Rightarrow> mem \<Rightarrow> u32 \<Rightarrow> u32 \<Rightarrow> nat \<Rightarrow> u32 list" where
  "loadable32 E m ehdr phdrtab i =
     filter (loads32 E m) (map (ph_at E (L32 E) m ehdr phdrtab) [i..<ph_count (L32 E) m ehdr])"

definition p32_end :: "elf_env \<Rightarrow> mem \<Rightarrow> u32 \<Rightarrow> u32" where
  "p32_end E m phdr = p32_paddr (L32 E) m phdr + p32_memsz (L32 E) m phdr"

lemma elf32_span_fold:
  "elf32_span E m ehdr phdrtab i low mx =
     (fold min (map (p32_paddr (L32 E) m) (loadable32 E m ehdr phdrtab i)) low,
      fold max (map (p32_end E m) (loadable32 E m ehdr phdrtab i)) mx)"
proof (induction "ph_count (L32 E) m ehdr - i" arbitrary: i low mx)
  case 0
  then show ?case
    by (subst elf32_span.simps) (simp add: loadable32_def ph_more_count)
next
  case (Suc k)
  let ?ph = "ph_at E (L32 E) m ehdr phdrtab i"
  have more: "ph_more (L32 E) m ehdr i" and up: "[i..<ph_count (L32 E) m ehdr] = i # [Suc i..<ph_count (L32 E) m ehdr]"
    using Suc.hyps(2) by (simp_all add: ph_more_count upt_conv_Cons)
  note IH = Suc.hyps(1) [of "Suc i"]
  show ?case
  proof (cases "loads32 E m ?ph")
    case True
    then have ps: "loadable32 E m ehdr phdrtab i = ?ph # loadable32 E m ehdr phdrtab (Suc i)"
      by (simp add: loadable32_def up)
    have "elf32_span E m ehdr phdrtab i low mx
        = elf32_span E m ehdr phdrtab (Suc i) (min (p32_paddr (L32 E) m ?ph) low) (max (p32_end E m ?ph) mx)"
      using True more
      by (subst elf32_span.simps) (auto simp: Let_def loads32_def p32_end_def min_def max_def)
    then show ?thesis using IH Suc.hyps(2) by (simp add: ps)
  next
    case False
    then have ps: "loadable32 E m ehdr phdrtab i = loadable32 E m ehdr phdrtab (Suc i)"
      by (simp add: loadable32_def up)
    have "elf32_span E m ehdr phdrtab i low mx = elf32_span E m ehdr phdrtab (Suc i) low mx"
      using False more by (subst elf32_span.simps) (auto simp: Let_def loads32_def)
    then show ?thesis using IH Suc.hyps(2) by (simp add: ps)
  qed
qed

lemma elf32_span_MinMax:
  assumes "elf32_span E m ehdr phdrtab 0 (- 1) 0 = (low, mx)" and "loadable32 E m ehdr phdrtab 0 \<noteq> []"
  shows "low = Min (p32_paddr (L32 E) m ` set (loadable32 E m ehdr phdrtab 0))
    \<and> mx = Max (p32_end E m ` set (loadable32 E m ehdr phdrtab 0))"
proof -
  let ?ps = "loadable32 E m ehdr phdrtab 0"
  have "fold min (map (p32_paddr (L32 E) m) ?ps) (- 1) = Min (set (- 1 # map (p32_paddr (L32 E) m) ?ps))"
    and "fold max (map (p32_end E m) ?ps) 0 = Max (set (0 # map (p32_end E m) ?ps))"
    by (simp_all only: Min.set_eq_fold Max.set_eq_fold)
  with assms show ?thesis
    by (simp add: elf32_span_fold min_def max_def word_order.extremum_unique)
qed

section \<open>Loading one segment\<close>

definition seg32_dst :: "elf_env \<Rightarrow> elf_load_info \<Rightarrow> mem \<Rightarrow> u32 \<Rightarrow> u32" where
  "seg32_dst E p_info m phdr = p32_paddr (L32 E) m phdr + ucast (relocation_offset p_info)"

definition seg32_file :: "elf_env \<Rightarrow> mem \<Rightarrow> u32 \<Rightarrow> u32" where
  "seg32_file E m phdr = min (p32_filesz (L32 E) m phdr) (p32_memsz (L32 E) m phdr)"

definition seg32_byte :: "elf_env \<Rightarrow> mem_image_access \<Rightarrow> elf_load_info \<Rightarrow> mem \<Rightarrow> u32 \<Rightarrow> u32 \<Rightarrow> u8" where
  "seg32_byte E im p_info m phdr x =
     (let k = x - seg32_dst E p_info m phdr
      in if unat k < unat (seg32_file E m phdr)
         then m (image im + p32_offset (L32 E) m phdr + k) else 0)"

definition phdr32_inside :: "elf_env \<Rightarrow> mem_image_access \<Rightarrow> u32 \<Rightarrow> bool" where
  "phdr32_inside E im phdr \<longleftrightarrow>
     (let L = L32 E; a = image im; n = unat (image_size im) in
      inside (phdr + o_p_type L) 4 a n \<and> inside (phdr + o_p_offset L) 4 a n
      \<and> inside (phdr + o_p_paddr L) 4 a n \<and> inside (phdr + o_p_filesz L) 4 a n
      \<and> inside (phdr + o_p_memsz L) 4 a n)"

text \<open>A segment whose file part lies in the image and whose target does not touch the image.\<close>

definition seg32_ok :: "elf_env \<Rightarrow> mem_image_access \<Rightarrow> elf_load_info \<Rightarrow> mem \<Rightarrow> u32 \<Rightarrow> bool" where
  "seg32_ok E im p_info m phdr \<longleftrightarrow>
     unat (p32_offset (L32 E) m phdr) + unat (seg32_file E m phdr) \<le> unat (image_size im)
     \<and> sep (seg32_dst E p_info m phdr) (unat (p32_memsz (L32 E) m phdr)) (image im) (unat (image_size im))"

lemma agree_phdr32:
  assumes "agree_on (image im) (unat (image_size im)) m m'" and "phdr32_inside E im phdr"
  shows "p_type (L32 E) m' phdr = p_type (L32 E) m phdr"
    and "p32_offset (L32 E) m' phdr = p32_offset (L32 E) m phdr"
    and "p32_paddr (L32 E) m' phdr = p32_paddr (L32 E) m phdr"
    and "p32_filesz (L32 E) m' phdr = p32_filesz (L32 E) m phdr"
    and "p32_memsz (L32 E) m' phdr = p32_memsz (L32 E) m phdr"
  using assms agree_on_load [OF assms(1)]
  by (auto simp: phdr32_inside_def p_type_def elf32_fields Let_def)

lemma elf32_load_segment_eq:
  "elf32_load_segment E im p_info phdr m =
     (let memsz = p32_memsz (L32 E) m phdr; filesz = seg32_file E m phdr; d = seg32_dst E p_info m phdr;
          (got, m1) = mem_image_read im d (p32_offset (L32 E) m phdr) filesz m
      in if got \<noteq> filesz then (MON_ERROR, m1)
         else (MON_OK, if filesz < memsz then mon_memset (d + filesz) 0 (memsz - filesz) m1 else m1))"
proof -
  have clip: "(if p32_filesz (L32 E) m phdr > p32_memsz (L32 E) m phdr then p32_memsz (L32 E) m phdr
      else p32_filesz (L32 E) m phdr) = seg32_file E m phdr"
    by (auto simp: seg32_file_def min_def)
  show ?thesis
    unfolding elf32_load_segment_def Let_def clip seg32_dst_def ucast_add64
    by (auto simp: add_ac split: prod.split)
qed

lemma elf32_load_segment_ok:
  assumes agree: "agree_on (image im) (unat (image_size im)) m m'"
    and inside: "phdr32_inside E im phdr" and ok: "seg32_ok E im p_info m phdr"
  shows "\<exists>m''. elf32_load_segment E im p_info phdr m' = (MON_OK, m'')
    \<and> (\<forall>x. m'' x = (if in_range (seg32_dst E p_info m phdr) (unat (p32_memsz (L32 E) m phdr)) x
                     then seg32_byte E im p_info m phdr x else m' x))"
proof -
  let ?d = "seg32_dst E p_info m phdr" and ?f = "seg32_file E m phdr" and ?z = "p32_memsz (L32 E) m phdr"
  note same = agree_phdr32 [OF agree inside]
  have same': "seg32_dst E p_info m' phdr = ?d" "seg32_file E m' phdr = ?f"
    using same by (simp_all add: seg32_file_def seg32_dst_def)
  have "unat (p32_offset (L32 E) m phdr) + unat ?f \<le> unat (image_size im)" "unat ?f \<le> unat ?z"
    "sep ?d (unat ?z) (image im) (unat (image_size im))"
    using ok by (auto simp: seg32_ok_def seg32_file_def min_def word_le_nat_alt)
  note rd = read_segment [OF this agree]
  show ?thesis
    using rd unfolding elf32_load_segment_eq Let_def same same'
    by (auto simp: seg32_byte_def Let_def split: prod.split)
qed

section \<open>Loading all segments\<close>

text \<open>An image whose header counts and whose program headers lie in the image, whose loadable
  segments are well placed, and whose segment targets do not overlap each other.\<close>

definition elf32_layout_ok :: "elf_env \<Rightarrow> mem_image_access \<Rightarrow> elf_load_info \<Rightarrow> u32 \<Rightarrow> u32 \<Rightarrow> mem \<Rightarrow> bool" where
  "elf32_layout_ok E im p_info ehdr phdrtab m \<longleftrightarrow>
     (let L = L32 E; cnt = ph_count L m ehdr; ph = ph_at E L m ehdr phdrtab in
      PT_LOAD E \<noteq> PT_DYNAMIC E \<and> counts_inside L im ehdr
      \<and> list_all (\<lambda>i. phdr32_inside E im (ph i)) [0..<cnt]
      \<and> list_all (\<lambda>i. loads32 E m (ph i) \<longrightarrow> seg32_ok E im p_info m (ph i)) [0..<cnt]
      \<and> list_all (\<lambda>i. list_all (\<lambda>j. loads32 E m (ph i) \<and> loads32 E m (ph j) \<longrightarrow>
           sep (seg32_dst E p_info m (ph i)) (unat (p32_memsz L m (ph i)))
               (seg32_dst E p_info m (ph j)) (unat (p32_memsz L m (ph j)))) [0..<i]) [0..<cnt])"

lemma elf32_layout_okD:
  assumes "elf32_layout_ok E im p_info ehdr phdrtab m"
  defines "ph \<equiv> ph_at E (L32 E) m ehdr phdrtab"
  shows "PT_LOAD E \<noteq> PT_DYNAMIC E" and "counts_inside (L32 E) im ehdr"
    and "i < ph_count (L32 E) m ehdr \<Longrightarrow> phdr32_inside E im (ph i)"
    and "i < ph_count (L32 E) m ehdr \<Longrightarrow> loads32 E m (ph i) \<Longrightarrow> seg32_ok E im p_info m (ph i)"
    and "i < ph_count (L32 E) m ehdr \<Longrightarrow> j < i \<Longrightarrow> loads32 E m (ph i) \<Longrightarrow> loads32 E m (ph j) \<Longrightarrow>
           sep (seg32_dst E p_info m (ph i)) (unat (p32_memsz (L32 E) m (ph i)))
               (seg32_dst E p_info m (ph j)) (unat (p32_memsz (L32 E) m (ph j)))"
  using assms by (auto simp: elf32_layout_ok_def list_all_iff Let_def)

definition dynamic32 :: "elf_env \<Rightarrow> mem \<Rightarrow> u32 \<Rightarrow> bool" where
  "dynamic32 E m phdr \<longleftrightarrow> PT_DYNAMIC E = p_type (L32 E) m phdr"

text \<open>The dynamic-section headers; the loop remembers the last one.\<close>

definition dyn_phdrs32 :: "elf_env \<Rightarrow> mem \<Rightarrow> u32 \<Rightarrow> u32 \<Rightarrow> u32 list" where
  "dyn_phdrs32 E m ehdr phdrtab =
     filter (dynamic32 E m) (map (ph_at E (L32 E) m ehdr phdrtab) [0..<ph_count (L32 E) m ehdr])"

text \<open>
  The memory a load is meant to produce: each address in the target of a loadable segment shows the
  segment's byte, every other address is unchanged.
\<close>

definition loaded32 :: "elf_env \<Rightarrow> mem_image_access \<Rightarrow> elf_load_info \<Rightarrow> u32 \<Rightarrow> u32 \<Rightarrow> mem \<Rightarrow> mem" where
  "loaded32 E im p_info ehdr phdrtab m x =
     (case find (\<lambda>ph. in_range (seg32_dst E p_info m ph) (unat (p32_memsz (L32 E) m ph)) x)
             (loadable32 E m ehdr phdrtab 0) of
        Some ph \<Rightarrow> seg32_byte E im p_info m ph x
      | None \<Rightarrow> m x)"

text \<open>The 32-bit loader's loop implements the interface of the segment loop.\<close>

interpretation seg32: segment_loop
  "elf32_load_segments E (mem_image_create_ex img sz) p_info ehdr phdrtab"
  "\<lambda>m. ph_count (L32 E) m ehdr" "\<lambda>m. ph_at E (L32 E) m ehdr phdrtab" "dynamic32 E" "loads32 E"
  "elf32_load_segment E (mem_image_create_ex img sz) p_info" img "unat sz"
  "elf32_layout_ok E (mem_image_create_ex img sz) p_info ehdr phdrtab"
  "seg32_dst E p_info" "\<lambda>m ph. unat (p32_memsz (L32 E) m ph)" "seg32_byte E (mem_image_create_ex img sz) p_info"
  for E img sz p_info ehdr phdrtab
proof
  let ?im = "mem_image_create_ex img sz" and ?L = "L32 E"
  show "elf32_load_segments E ?im p_info ehdr phdrtab i d m =
      (if i < ph_count ?L m ehdr then
         if dynamic32 E m (ph_at E ?L m ehdr phdrtab i)
         then elf32_load_segments E ?im p_info ehdr phdrtab (Suc i) (ph_at E ?L m ehdr phdrtab i) m
         else if \<not> loads32 E m (ph_at E ?L m ehdr phdrtab i)
         then elf32_load_segments E ?im p_info ehdr phdrtab (Suc i) d m
         else (case elf32_load_segment E ?im p_info (ph_at E ?L m ehdr phdrtab i) m of
                 (MON_ERROR, m1) \<Rightarrow> (MON_ERROR, d, m1)
               | (MON_OK, m1) \<Rightarrow> elf32_load_segments E ?im p_info ehdr phdrtab (Suc i) d m1)
       else (MON_OK, d, m))" for i d m
    by (subst elf32_load_segments.simps) (simp add: Let_def ph_more_count dynamic32_def loads32_def)
  fix m
  assume ok: "elf32_layout_ok E ?im p_info ehdr phdrtab m"
  note D = elf32_layout_okD [OF ok]
  show "\<not> dynamic32 E m p" if "loads32 E m p" for p
    using that D(1) by (auto simp: dynamic32_def loads32_def)
  show "sep (seg32_dst E p_info m (ph_at E ?L m ehdr phdrtab i)) (unat (p32_memsz ?L m (ph_at E ?L m ehdr phdrtab i)))
      img (unat sz)" if "i < ph_count ?L m ehdr" "loads32 E m (ph_at E ?L m ehdr phdrtab i)" for i
    using D(4) [OF that] by (simp add: seg32_ok_def)
  show "sep (seg32_dst E p_info m (ph_at E ?L m ehdr phdrtab i)) (unat (p32_memsz ?L m (ph_at E ?L m ehdr phdrtab i)))
      (seg32_dst E p_info m (ph_at E ?L m ehdr phdrtab j)) (unat (p32_memsz ?L m (ph_at E ?L m ehdr phdrtab j)))"
    if "i < ph_count ?L m ehdr" "j < i" "loads32 E m (ph_at E ?L m ehdr phdrtab i)"
      "loads32 E m (ph_at E ?L m ehdr phdrtab j)" for i j
    using D(5) [OF that] .
  fix m'
  assume ag: "agree_on img (unat sz) m m'"
  then have ag': "agree_on (image ?im) (unat (image_size ?im)) m m'" by simp
  show "ph_count ?L m' ehdr = ph_count ?L m ehdr \<and> ph_at E ?L m' ehdr phdrtab = ph_at E ?L m ehdr phdrtab"
    using counts_stable [OF D(2) ag'] by simp
  fix i
  assume i: "i < ph_count ?L m ehdr"
  show "dynamic32 E m' (ph_at E ?L m ehdr phdrtab i) = dynamic32 E m (ph_at E ?L m ehdr phdrtab i)
      \<and> loads32 E m' (ph_at E ?L m ehdr phdrtab i) = loads32 E m (ph_at E ?L m ehdr phdrtab i)"
    using agree_phdr32 [OF ag' D(3) [OF i]] by (simp add: dynamic32_def loads32_def)
  show "\<exists>m''. elf32_load_segment E ?im p_info (ph_at E ?L m ehdr phdrtab i) m' = (MON_OK, m'') \<and> (\<forall>x. m'' x =
      (if in_range (seg32_dst E p_info m (ph_at E ?L m ehdr phdrtab i))
           (unat (p32_memsz ?L m (ph_at E ?L m ehdr phdrtab i))) x
       then seg32_byte E ?im p_info m (ph_at E ?L m ehdr phdrtab i) x else m' x))"
    if "loads32 E m (ph_at E ?L m ehdr phdrtab i)"
    by (rule elf32_load_segment_ok [OF ag' D(3) [OF i] D(4) [OF i that]])
qed

section \<open>Properties\<close>

text \<open>
  C13. Loading the segments of a well-laid-out image: the loop ends with \<^verbatim>\<open>MON_OK\<close>, has remembered the last
  dynamic-section header, and the memory is exactly the intended one: the file bytes of
  every loadable segment at its relocated physical address, zeroes after them up to the memory
  size, nothing else changed.
\<close>

theorem elf32_load_segments_correct:
  assumes "elf32_layout_ok E (mem_image_create_ex img sz) p_info ehdr phdrtab m"
  shows "elf32_load_segments E (mem_image_create_ex img sz) p_info ehdr phdrtab 0 0 m
    = (MON_OK, last (0 # dyn_phdrs32 E m ehdr phdrtab),
       loaded32 E (mem_image_create_ex img sz) p_info ehdr phdrtab m)"
  using seg32.loop_correct [OF assms, of 0]
  by (simp add: seg32.dyn_from_def dyn_phdrs32_def fun_eq_iff seg32.loaded_def loaded32_def loadable32_def)

text \<open>
  An 88-byte image with one loadable segment: two bytes from offset 84, four bytes of memory
  at \<^verbatim>\<open>0x8000\<close>, entry point \<^verbatim>\<open>0x8001\<close>.
\<close>

definition tiny_elf32_mem :: mem where
  "tiny_elf32_mem = (\<lambda>_. 0)(
     0x5000 := 0x7F, 0x5001 := 0x45, 0x5002 := 0x4C, 0x5003 := 0x46, 0x5004 := 0x1,
     0x5005 := 0x1, 0x5006 := 0x1, 0x5010 := 0x2, 0x5012 := 0x3, 0x5014 := 0x1,
     0x5018 := 0x1, 0x5019 := 0x80, 0x501C := 0x34, 0x5028 := 0x34, 0x502A := 0x20,
     0x502C := 0x1, 0x5034 := 0x1, 0x5038 := 0x54, 0x503D := 0x80, 0x5041 := 0x80,
     0x5044 := 0x2, 0x5048 := 0x4, 0x504C := 0x5, 0x5054 := 0xAA, 0x5055 := 0xBB,
     0x5056 := 0xCC, 0x5057 := 0xDD)"

definition no_info32 :: elf_load_info where
  "no_info32 = \<lparr>start_addr = 0, end_addr = 0, entry_addr = 0, sections_addr = 0, relocation_offset = 0x1000,
     machine_type = 0, copy_section_headers = False, copy_symbol_tables = False\<rparr>"

lemma tiny_elf32_fields:
  "e_type std_L32 tiny_elf32_mem 0x5000 = 2"
  "e_phnum std_L32 tiny_elf32_mem 0x5000 = 1" "e_phentsize std_L32 tiny_elf32_mem 0x5000 = 32"
  "e32_phoff std_L32 tiny_elf32_mem 0x5000 = 52" "e32_entry std_L32 tiny_elf32_mem 0x5000 = 0x8001"
  "p_type std_L32 tiny_elf32_mem 0x5034 = 1" "p32_offset std_L32 tiny_elf32_mem 0x5034 = 84"
  "p32_paddr std_L32 tiny_elf32_mem 0x5034 = 0x8000" "p32_filesz std_L32 tiny_elf32_mem 0x5034 = 2"
  "p32_memsz std_L32 tiny_elf32_mem 0x5034 = 4"
  by (simp_all add: elf_fields elf32_fields std_L32_def tiny_elf32_mem_def mem_eval)

lemma tiny_elf32_table:
  "ph_count std_L32 tiny_elf32_mem 0x5000 = 1"
  "ph_at std_elf std_L32 tiny_elf32_mem 0x5000 0x5034 0 = 0x5034"
  "loadable32 std_elf tiny_elf32_mem 0x5000 0x5034 0 = [0x5034]"
  by (simp_all add: ph_count_def ph_at_def loadable32_def loads32_def tiny_elf32_fields std_elf_def)

theorem elf32_load_segments_correct_witness:
  "snd (snd (elf32_load_segments std_elf (mem_image_create_ex 0x5000 88) no_info32 0x5000 0x5034 0 0 tiny_elf32_mem)) 0x9001 = 0xBB"
proof -
  have L: "L32 std_elf = std_L32" by (simp add: std_elf_def)
  let ?im = "mem_image_create_ex 0x5000 88"
  have "elf32_layout_ok std_elf ?im no_info32 0x5000 0x5034 tiny_elf32_mem"
    by (simp add: elf32_layout_ok_def L Let_def tiny_elf32_table tiny_elf32_fields inside_def counts_inside_def
        phdr32_inside_def seg32_ok_def seg32_file_def seg32_dst_def no_info32_def sep_def)
      (simp add: std_L32_def std_elf_def)
  from elf32_load_segments_correct [OF this] show ?thesis
    by (simp add: loaded32_def tiny_elf32_table L seg32_dst_def seg32_byte_def seg32_file_def
        tiny_elf32_fields no_info32_def in_range_def Let_def)
      (simp add: tiny_elf32_mem_def)
qed

text \<open>
  C15. When \<^verbatim>\<open>elf32_get_load_info\<close> accepts an image (without the section options), the image has a loadable segment,
  the reported start is the lowest physical address of the loadable segments and page aligned,
  the reported end is the highest segment end, the entry point is the header's, and no
  other field of the record changed.
\<close>

theorem elf32_get_load_info_bounds:
  assumes "elf32_get_load_info E (mem_image_create_ex img sz) p_info m = Some (MON_OK, info)"
    and "\<not> copy_section_headers p_info" and "\<not> copy_symbol_tables p_info" and "PAGE_4KB_MASK E \<noteq> 0"
  shows "let ps = loadable32 E m img (img + e32_phoff (L32 E) m img) 0;
             low = Min (p32_paddr (L32 E) m ` set ps); high = Max (p32_end E m ` set ps)
         in ps \<noteq> [] \<and> low AND PAGE_4KB_MASK E = 0
            \<and> info = p_info\<lparr>start_addr := ucast low, end_addr := ucast high, entry_addr := ucast (e32_entry (L32 E) m img)\<rparr>"
proof -
  let ?tab = "img + e32_phoff (L32 E) m img"
  let ?ps = "loadable32 E m img ?tab 0"
  obtain low mx where sp: "elf32_span E m img ?tab 0 (- 1) 0 = (low, mx)" by fastforce
  have al: "low AND PAGE_4KB_MASK E = 0"
    and info: "info = p_info\<lparr>start_addr := ucast low, end_addr := ucast mx, entry_addr := ucast (e32_entry (L32 E) m img)\<rparr>"
    using assms(1-3) sp
    by (auto simp: elf32_get_load_info_def mem_image_map_to_mem_def Let_def split: if_splits prod.splits)
  have "?ps \<noteq> []"
  proof
    assume "?ps = []"
    then have "low = - 1" using sp by (simp add: elf32_span_fold)
    with al assms(4) show False by simp
  qed
  with elf32_span_MinMax [OF sp] al info show ?thesis by (simp add: Let_def)
qed

theorem elf32_get_load_info_bounds_witness:
  "loadable32 std_elf tiny_elf32_mem 0x5000 0x5034 0 \<noteq> []
   \<and> elf32_get_load_info std_elf (mem_image_create_ex 0x5000 88) no_info32 tiny_elf32_mem
     = Some (MON_OK, no_info32\<lparr>start_addr := 0x8000, end_addr := 0x8004, entry_addr := 0x8001\<rparr>)"
proof -
  have L: "L32 std_elf = std_L32" by (simp add: std_elf_def)
  have s: "sizeof_ehdr std_L32 = 52" by (simp add: std_L32_def)
  have sp: "elf32_span std_elf tiny_elf32_mem 0x5000 0x5034 0 (- 1) 0 = (0x8000, 0x8004)"
    by (simp add: elf32_span_fold tiny_elf32_table L tiny_elf32_fields p32_end_def min_def max_def)
  have run: "elf32_get_load_info std_elf (mem_image_create_ex 0x5000 88) no_info32 tiny_elf32_mem
     = Some (MON_OK, no_info32\<lparr>start_addr := 0x8000, end_addr := 0x8004, entry_addr := 0x8001\<rparr>)"
    by (simp add: elf32_get_load_info_def L s tiny_elf32_fields mem_image_map_to_mem_def Let_def sp)
      (simp add: std_elf_def no_info32_def)
  then show ?thesis
    using elf32_get_load_info_bounds [OF run] tiny_elf32_fields(4)
    by (simp add: no_info32_def Let_def L std_elf_def)
qed

section \<open>Relative relocations with the addend in place\<close>

definition rel32_at :: "elf_env \<Rightarrow> u32 \<Rightarrow> nat \<Rightarrow> u32" where
  "rel32_at E rel i = rel + of_nat i * sizeof_rel (L32 E)"

definition rel32_target :: "elf_env \<Rightarrow> u32 \<Rightarrow> u32 \<Rightarrow> mem \<Rightarrow> nat \<Rightarrow> u32" where
  "rel32_target E reloc rel m i = load32 m (rel32_at E rel i + o_rel_offset (L32 E)) + reloc"

text \<open>
  A table of \<open>n\<close> relative relocations whose fields lie in the \<open>tn\<close> bytes of the table, whose targets
  lie outside of it and do not overlap each other.
\<close>

definition relative32_ok :: "elf_env \<Rightarrow> u32 \<Rightarrow> u32 \<Rightarrow> nat \<Rightarrow> nat \<Rightarrow> mem \<Rightarrow> bool" where
  "relative32_ok E reloc rel tn n m \<longleftrightarrow>
     R_386_RELATIVE E \<noteq> R_386_32 E
     \<and> list_all (\<lambda>i. let r = rel32_at E rel i; L = L32 E in
          inside (r + o_rel_offset L) 4 rel tn \<and> inside (r + o_rel_info L) 4 rel tn
          \<and> load32 m (r + o_rel_info L) AND 0xFF = R_386_RELATIVE E
          \<and> sep (rel32_target E reloc rel m i) 4 rel tn
          \<and> list_all (\<lambda>j. sep (rel32_target E reloc rel m i) 4 (rel32_target E reloc rel m j) 4) [0..<i])
        [0..<n]"

lemma rel32_apply_relative:
  assumes ok: "relative32_ok E reloc rel tn n m" and i: "i < n" and ag: "agree_on rel tn m m'"
    and tg: "agree_on (rel32_target E reloc rel m i) 4 m m'"
  shows "rel32_apply E reloc symtab (rel32_at E rel i) m' =
    (MON_OK, store32 (rel32_target E reloc rel m i) (load32 m (rel32_target E reloc rel m i) + reloc) m')"
proof -
  let ?r = "rel32_at E rel i" and ?L = "L32 E"
  have D: "inside (?r + o_rel_offset ?L) 4 rel tn" "inside (?r + o_rel_info ?L) 4 rel tn"
    "load32 m (?r + o_rel_info ?L) AND 0xFF = R_386_RELATIVE E" "R_386_RELATIVE E \<noteq> R_386_32 E"
    using ok i by (auto simp: relative32_ok_def list_all_iff Let_def)
  show ?thesis
    using D(3,4) agree_on_load(2) [OF ag] D(1,2) agree_on_self [OF tg]
    by (simp add: rel32_apply_def Let_def rel32_target_def)
qed

text \<open>
  C30. Relocating with a \<^verbatim>\<open>DT_REL\<close> table of relative entries: the loop ends with \<^verbatim>\<open>MON_OK\<close>, every target has grown by the
  relocation offset exactly once, and no byte outside the targets changes.
\<close>

theorem rel32_relative_correct:
  assumes ok: "relative32_ok E reloc rel tn n m"
  shows "\<exists>m'. reloc_loop (rel32_apply E reloc symtab) (sizeof_rel (L32 E)) n rel m = (MON_OK, m')
    \<and> (\<forall>i < n. load32 m' (rel32_target E reloc rel m i) = load32 m (rel32_target E reloc rel m i) + reloc)
    \<and> (\<forall>x. (\<forall>i < n. \<not> in_range (rel32_target E reloc rel m i) 4 x) \<longrightarrow> m' x = m x)"
proof (rule reloc_loop_placed [where n = n and tab = rel and tn = tn and m = m and w = 4
      and tgt = "rel32_target E reloc rel m" and step = "rel32_apply E reloc symtab"
      and ent = rel and esz = "sizeof_rel (L32 E)"
      and val_byte = "\<lambda>i. let t = rel32_target E reloc rel m i in scalar_byte 4 (load32 m t + reloc) t"])
  show "\<exists>m''. rel32_apply E reloc symtab (rel + of_nat i * sizeof_rel (L32 E)) m' = (MON_OK, m'')
      \<and> (\<forall>x. m'' x = (if in_range (rel32_target E reloc rel m i) 4 x
           then (let t = rel32_target E reloc rel m i in scalar_byte 4 (load32 m t + reloc) t) x else m' x))"
    if "i < n" "agree_on rel tn m m'" "agree_on (rel32_target E reloc rel m i) 4 m m'" for i m'
    using rel32_apply_relative [OF ok that, unfolded rel32_at_def] by (simp add: store_scalar Let_def)
  show "sep (rel32_target E reloc rel m i) 4 rel tn" if "i < n" for i
    using ok that by (auto simp: relative32_ok_def list_all_iff Let_def)
  show "sep (rel32_target E reloc rel m i) 4 (rel32_target E reloc rel m j) 4" if "i < n" "j < i" for i j
    using ok that by (auto simp: relative32_ok_def list_all_iff Let_def)
qed (use load_scalar(1) in \<open>auto simp: Let_def\<close>)

text \<open>Two relative relocations at \<^verbatim>\<open>0x5000\<close>, for the targets \<^verbatim>\<open>0x8000\<close> and \<^verbatim>\<open>0x8004\<close>.\<close>

definition two_rels :: mem where
  "two_rels = (\<lambda>_. 0)(0x5001 := 0x80, 0x5004 := 8, 0x5008 := 4, 0x5009 := 0x80, 0x500C := 8, 0x8104 := 0x22)"

theorem rel32_relative_correct_witness:
  "\<exists>m'. reloc_loop (rel32_apply std_elf 0x100 0) 8 2 0x5000 two_rels = (MON_OK, m')
    \<and> load32 m' 0x8104 = 0x122"
proof -
  have L: "L32 std_elf = std_L32" "sizeof_rel std_L32 = 8" "o_rel_offset std_L32 = 0"
    "o_rel_info std_L32 = 4" "R_386_32 std_elf = 1" "R_386_RELATIVE std_elf = 8"
    by (simp_all add: std_elf_def std_L32_def)
  have up: "[0..<2] = [0, 1 :: nat]" "[0..<Suc 0] = [0]" by (simp_all add: upt_rec)
  have t: "rel32_target std_elf 0x100 0x5000 two_rels 0 = 0x8100"
    "rel32_target std_elf 0x100 0x5000 two_rels (Suc 0) = 0x8104" "load32 two_rels 0x8104 = 0x22"
    by (simp_all add: rel32_target_def rel32_at_def L two_rels_def mem_eval)
  have "relative32_ok std_elf 0x100 0x5000 16 2 two_rels"
    by (simp add: relative32_ok_def up Let_def t L rel32_at_def inside_def sep_def)
      (simp add: two_rels_def mem_eval)
  from rel32_relative_correct [OF this, of 0] obtain m' where
    run: "reloc_loop (rel32_apply std_elf 0x100 0) (sizeof_rel (L32 std_elf)) 2 0x5000 two_rels = (MON_OK, m')"
    and val: "\<forall>i < 2. load32 m' (rel32_target std_elf 0x100 0x5000 two_rels i)
      = load32 two_rels (rel32_target std_elf 0x100 0x5000 two_rels i) + 0x100" by blast
  show ?thesis using run val [rule_format, of "Suc 0"] by (simp add: L t)
qed

end
