(* ===== verification/Elf64_Ld.thy ===== *)
theory Elf64_Ld
  imports Elf_Segments "HOL-Library.Monad_Syntax"
begin

text \<open>
  The loader for 64-bit ELF images, \<^verbatim>\<open>common/ld/elf_ld/elf64_ld.c\<close>. Headers and tables are read from
  memory at the moment the C code reads them, so an image that overlaps its own target is
  modelled too.

  The loops over program headers run while \<^verbatim>\<open>i < (int16_t)e_phnum\<close> and stop for every header. The loops over
  section headers compare a 16-bit signed counter with an unsigned 16-bit count and run forever when the
  count exceeds \<^verbatim>\<open>0x7FFF\<close>: they are partial, with \<open>None\<close> for not returning. The debug prints
  expand to nothing in a release build.
\<close>

text \<open>Header fields of class 64.\<close>

definition e64_entry :: "elf_layout \<Rightarrow> mem \<Rightarrow> u32 \<Rightarrow> u64" where
  "e64_entry L m ehdr = load64 m (ehdr + o_e_entry L)"

definition e64_phoff :: "elf_layout \<Rightarrow> mem \<Rightarrow> u32 \<Rightarrow> u64" where
  "e64_phoff L m ehdr = load64 m (ehdr + o_e_phoff L)"

definition e64_shoff :: "elf_layout \<Rightarrow> mem \<Rightarrow> u32 \<Rightarrow> u64" where
  "e64_shoff L m ehdr = load64 m (ehdr + o_e_shoff L)"

definition p64_offset :: "elf_layout \<Rightarrow> mem \<Rightarrow> u32 \<Rightarrow> u64" where
  "p64_offset L m phdr = load64 m (phdr + o_p_offset L)"

definition p64_vaddr :: "elf_layout \<Rightarrow> mem \<Rightarrow> u32 \<Rightarrow> u64" where
  "p64_vaddr L m phdr = load64 m (phdr + o_p_vaddr L)"

definition p64_paddr :: "elf_layout \<Rightarrow> mem \<Rightarrow> u32 \<Rightarrow> u64" where
  "p64_paddr L m phdr = load64 m (phdr + o_p_paddr L)"

definition p64_filesz :: "elf_layout \<Rightarrow> mem \<Rightarrow> u32 \<Rightarrow> u64" where
  "p64_filesz L m phdr = load64 m (phdr + o_p_filesz L)"

definition p64_memsz :: "elf_layout \<Rightarrow> mem \<Rightarrow> u32 \<Rightarrow> u64" where
  "p64_memsz L m phdr = load64 m (phdr + o_p_memsz L)"

definition sh64_addr :: "elf_layout \<Rightarrow> mem \<Rightarrow> u32 \<Rightarrow> u64" where
  "sh64_addr L m shdr = load64 m (shdr + o_sh_addr L)"

definition sh64_offset :: "elf_layout \<Rightarrow> mem \<Rightarrow> u32 \<Rightarrow> u64" where
  "sh64_offset L m shdr = load64 m (shdr + o_sh_offset L)"

definition sh64_size :: "elf_layout \<Rightarrow> mem \<Rightarrow> u32 \<Rightarrow> u64" where
  "sh64_size L m shdr = load64 m (shdr + o_sh_size L)"

definition sh64_addralign :: "elf_layout \<Rightarrow> mem \<Rightarrow> u32 \<Rightarrow> u64" where
  "sh64_addralign L m shdr = load64 m (shdr + o_sh_addralign L)"

lemmas elf64_fields = e64_entry_def e64_phoff_def e64_shoff_def p64_offset_def p64_vaddr_def p64_paddr_def
  p64_filesz_def p64_memsz_def sh64_addr_def sh64_offset_def sh64_size_def sh64_addralign_def

text \<open>Rounding up to a power-of-two alignment as the code writes it.\<close>

definition align_up64 :: "u64 \<Rightarrow> u64 \<Rightarrow> u64" where
  "align_up64 a al = (a + (al - 1)) AND NOT (al - 1)"

section \<open>elf64_get_load_info\<close>

function elf64_span :: "elf_env \<Rightarrow> mem \<Rightarrow> u32 \<Rightarrow> u32 \<Rightarrow> nat \<Rightarrow> u64 \<Rightarrow> u64 \<Rightarrow> u64 \<times> u64" where
  "elf64_span E m ehdr phdrtab i low_addr max_addr =
     (if ph_more (L64 E) m ehdr i then
        let phdr = ph_at E (L64 E) m ehdr phdrtab i;
            addr = p64_paddr (L64 E) m phdr; memsz = p64_memsz (L64 E) m phdr
        in if PT_LOAD E \<noteq> p_type (L64 E) m phdr \<or> memsz = 0
           then elf64_span E m ehdr phdrtab (Suc i) low_addr max_addr
           else elf64_span E m ehdr phdrtab (Suc i)
                  (if addr < low_addr then addr else low_addr)
                  (if addr + memsz > max_addr then addr + memsz else max_addr)
      else (low_addr, max_addr))"
  by pat_completeness auto
termination
  by (relation "measure (\<lambda>(E, m, ehdr, phdrtab, i, low_addr, max_addr). 32768 - i)")
    (auto dest: ph_more_bound)

declare elf64_span.simps [simp del]

text \<open>
  The walk over the section headers that reserves room for the sections outside the program
  segments. The counter \<open>i\<close> is \<^verbatim>\<open>int16_t\<close>.
\<close>

partial_function (option) elf64_section_room ::
    "elf_env \<Rightarrow> mem \<Rightarrow> u32 \<Rightarrow> u32 \<Rightarrow> u16 \<Rightarrow> u64 \<Rightarrow> u64 option" where
  "elf64_section_room E m ehdr shdrtab i max_addr =
     (if sint i < uint (e_shnum (L64 E) m ehdr) then
        let shdr = GET_SHDR E (e_shentsize (L64 E) m ehdr) shdrtab i; sz = sh64_size (L64 E) m shdr
        in if sz = 0 \<or> sh64_addr (L64 E) m shdr \<noteq> 0
           then elf64_section_room E m ehdr shdrtab (i + 1) max_addr
           else let al = sh64_addralign (L64 E) m shdr;
                    a = (if al > 1 then align_up64 max_addr al else max_addr)
                in elf64_section_room E m ehdr shdrtab (i + 1) (a + sz)
      else Some max_addr)"

definition elf64_get_load_info ::
    "elf_env \<Rightarrow> mem_image_access \<Rightarrow> elf_load_info \<Rightarrow> mem \<Rightarrow> (mon_status \<times> elf_load_info) option" where
  "elf64_get_load_info E im p_info m =
     (let L = L64 E; (got, ehdr) = gen_map_to_mem (gen im) 0 (sizeof_ehdr L) in
      if sizeof_ehdr L \<noteq> got then Some (MON_ERROR, p_info)
      else if e_type L m ehdr \<noteq> ET_EXEC E \<and> e_type L m ehdr \<noteq> ET_DYN E then Some (MON_ERROR, p_info)
      else
        let phsize = ucast (e_phnum L m ehdr) * ucast (e_phentsize L m ehdr);
            (got, phdrtab) = gen_map_to_mem (gen im) (ucast (e64_phoff L m ehdr)) phsize in
        if got \<noteq> phsize then Some (MON_ERROR, p_info)
        else
          let (low_addr, max_addr) = elf64_span E m ehdr phdrtab 0 (- 1) 0 in
          if low_addr AND ucast (PAGE_4KB_MASK E) \<noteq> 0 then Some (MON_ERROR, p_info)
          else if copy_section_headers p_info \<or> copy_symbol_tables p_info then
            let sa = (max_addr + 0xF) AND NOT 0xF;
                p_info = p_info\<lparr>sections_addr := sa\<rparr>;
                shsize = ucast (e_shnum L m ehdr) * ucast (e_shentsize L m ehdr) :: u32;
                max_addr = sa + ucast shsize in
            if copy_symbol_tables p_info then
              let (got, shdrtab) = gen_map_to_mem (gen im) (ucast (e64_shoff L m ehdr)) shsize in
              if got \<noteq> shsize then Some (MON_ERROR, p_info)
              else do {
                max_addr \<leftarrow> elf64_section_room E m ehdr shdrtab 0 max_addr;
                Some (MON_OK, p_info\<lparr>start_addr := low_addr, end_addr := max_addr,
                                     entry_addr := e64_entry L m ehdr\<rparr>) }
            else Some (MON_OK, p_info\<lparr>start_addr := low_addr, end_addr := max_addr,
                                      entry_addr := e64_entry L m ehdr\<rparr>)
          else Some (MON_OK, p_info\<lparr>start_addr := low_addr, end_addr := max_addr,
                                    entry_addr := e64_entry L m ehdr\<rparr>))"

section \<open>elf64_load_executable\<close>

text \<open>
  The loop that copies the loadable segments. The result is the status, the address of the last
  \<^verbatim>\<open>PT_DYNAMIC\<close> header (0 for none) and the memory; on a short read the loop stops at once, after
  the read has written what it did.
\<close>

definition elf64_load_segment ::
    "elf_env \<Rightarrow> mem_image_access \<Rightarrow> elf_load_info \<Rightarrow> u32 \<Rightarrow> mem \<Rightarrow> mon_status \<times> mem" where
  "elf64_load_segment E im p_info phdr m =
     (let L = L64 E; addr = p64_paddr L m phdr; memsz = p64_memsz L m phdr;
          filesz = (if p64_filesz L m phdr > memsz then memsz else p64_filesz L m phdr);
          (got, m1) = gen_read (gen im) (ucast (addr + relocation_offset p_info))
                        (ucast (p64_offset L m phdr)) (ucast filesz) m
      in if got \<noteq> ucast filesz then (MON_ERROR, m1)
         else if filesz < memsz
         then (MON_OK, mon_memset (ucast (addr + filesz + relocation_offset p_info)) 0 (ucast (memsz - filesz)) m1)
         else (MON_OK, m1))"

function elf64_load_segments ::
    "elf_env \<Rightarrow> mem_image_access \<Rightarrow> elf_load_info \<Rightarrow> u32 \<Rightarrow> u32 \<Rightarrow> nat \<Rightarrow> u32 \<Rightarrow> mem
      \<Rightarrow> mon_status \<times> u32 \<times> mem" where
  "elf64_load_segments E im p_info ehdr phdrtab i phdr_dyn m =
     (if ph_more (L64 E) m ehdr i then
        let phdr = ph_at E (L64 E) m ehdr phdrtab i in
        if PT_DYNAMIC E = p_type (L64 E) m phdr
        then elf64_load_segments E im p_info ehdr phdrtab (Suc i) phdr m
        else if PT_LOAD E \<noteq> p_type (L64 E) m phdr \<or> p64_memsz (L64 E) m phdr = 0
        then elf64_load_segments E im p_info ehdr phdrtab (Suc i) phdr_dyn m
        else (case elf64_load_segment E im p_info phdr m of
                (MON_ERROR, m1) \<Rightarrow> (MON_ERROR, phdr_dyn, m1)
              | (MON_OK, m1) \<Rightarrow> elf64_load_segments E im p_info ehdr phdrtab (Suc i) phdr_dyn m1)
      else (MON_OK, phdr_dyn, m))"
  by pat_completeness auto
termination
  by (relation "measure (\<lambda>(E, im, p_info, ehdr, phdrtab, i, phdr_dyn, m). 32768 - i)")
    (auto dest: ph_more_bound)

declare elf64_load_segments.simps [simp del]

text \<open>The loop that adds the relocation offset to the addresses in the copied program headers.\<close>

function elf64_update_phdrs :: "elf_env \<Rightarrow> u64 \<Rightarrow> u32 \<Rightarrow> u32 \<Rightarrow> nat \<Rightarrow> mem \<Rightarrow> mem" where
  "elf64_update_phdrs E reloc ehdr phdrtab i m =
     (if ph_more (L64 E) m ehdr i then
        let L = L64 E; phdr = ph_at E L m ehdr phdrtab i in
        if 0 \<noteq> p64_memsz L m phdr then
          let m1 = store64 (phdr + o_p_paddr L) (p64_paddr L m phdr + reloc) m;
              m2 = store64 (phdr + o_p_vaddr L) (p64_vaddr L m1 phdr + reloc) m1
          in elf64_update_phdrs E reloc ehdr phdrtab (Suc i) m2
        else elf64_update_phdrs E reloc ehdr phdrtab (Suc i) m
      else m)"
  by pat_completeness auto
termination
  by (relation "measure (\<lambda>(E, reloc, ehdr, phdrtab, i, m). 32768 - i)")
    (auto dest: ph_more_bound)

declare elf64_update_phdrs.simps [simp del]

subsection \<open>Relocation\<close>

text \<open>The locals of \<^verbatim>\<open>elf64_do_relocation\<close> that the walk over the dynamic section fills in.\<close>

record dyn64 =
  dyn_rela :: u32
  dyn_rela_sz :: u32
  dyn_rela_entsz :: u32
  dyn_symtab :: u32
  dyn_symtab_entsz :: u32

definition dyn64_entry :: "elf_env \<Rightarrow> elf_load_info \<Rightarrow> mem \<Rightarrow> u32 \<Rightarrow> dyn64 \<Rightarrow> dyn64" where
  "dyn64_entry E p_info m d r =
     (let tag = load64 m (d + o_d_tag (L64 E)); val = load64 m (d + o_d_un (L64 E)) in
      if tag = ucast (DT_RELA E) then r\<lparr>dyn_rela := ucast (val + start_addr p_info)\<rparr>
      else if tag = ucast (DT_RELASZ E) then r\<lparr>dyn_rela_sz := ucast val\<rparr>
      else if tag = ucast (DT_RELAENT E) then r\<lparr>dyn_rela_entsz := ucast val\<rparr>
      else if tag = ucast (DT_SYMTAB E) then r\<lparr>dyn_symtab := ucast (val + start_addr p_info)\<rparr>
      else if tag = ucast (DT_SYMENT E) then r\<lparr>dyn_symtab_entsz := ucast val\<rparr>
      else r)"

fun dyn64_walk :: "elf_env \<Rightarrow> elf_load_info \<Rightarrow> mem \<Rightarrow> nat \<Rightarrow> u32 \<Rightarrow> dyn64 \<Rightarrow> dyn64" where
  "dyn64_walk E p_info m 0 d r = r"
| "dyn64_walk E p_info m (Suc n) d r =
     dyn64_walk E p_info m n (d + sizeof_dyn (L64 E)) (dyn64_entry E p_info m d r)"

text \<open>
  One relocation entry at address \<open>rela\<close>. The symbol index is the upper half of \<^verbatim>\<open>r_info\<close>, read
  after the target was written.
\<close>

definition rela64_apply :: "elf_env \<Rightarrow> u64 \<Rightarrow> u32 \<Rightarrow> u32 \<Rightarrow> mem \<Rightarrow> mon_status \<times> mem" where
  "rela64_apply E reloc symtab rela m =
     (let L = L64 E; target_addr = ucast (load64 m (rela + o_rela_offset L) + reloc);
          kind = load64 m (rela + o_rela_info L) AND 0xFF;
          base = load64 m (rela + o_rela_addend L) + reloc in
      if kind = ucast (R_X86_64_64 E) then
        let m1 = store64 target_addr base m;
            symtab_idx = load32 m1 (rela + o_rela_info L + 4);
            st_value = load64 m1 (symtab + symtab_idx * sizeof_sym L + o_st_value L)
        in (MON_OK, store64 target_addr (load64 m1 target_addr + st_value) m1)
      else if kind = ucast (R_X86_64_RELATIVE E) then (MON_OK, store64 target_addr base m)
      else if kind = 0 then (MON_OK, m)
      else (MON_ERROR, m))"

definition elf64_do_relocation ::
    "elf_env \<Rightarrow> mem_image_access \<Rightarrow> elf_load_info \<Rightarrow> u32 \<Rightarrow> mem \<Rightarrow> mon_status \<times> mem" where
  "elf64_do_relocation E im p_info phdr_dyn m =
     (let L = L64 E; dyn_section_sz = ucast (p64_filesz L m phdr_dyn) :: u32;
          (got, dyn_section) = gen_map_to_mem (gen im) (ucast (p64_offset L m phdr_dyn)) dyn_section_sz in
      if got \<noteq> dyn_section_sz then (MON_ERROR, m)
      else
        let r = dyn64_walk E p_info m (unat (dyn_section_sz div sizeof_dyn L)) dyn_section
                  \<lparr>dyn_rela = 0, dyn_rela_sz = 0, dyn_rela_entsz = 0, dyn_symtab = 0, dyn_symtab_entsz = 0\<rparr> in
        if dyn_rela r = 0 \<or> dyn_rela_sz r = 0 \<or> dyn_symtab r = 0
           \<or> sizeof_rela L \<noteq> dyn_rela_entsz r \<or> sizeof_sym L \<noteq> dyn_symtab_entsz r
        then (MON_ERROR, m)
        else reloc_loop (rela64_apply E (relocation_offset p_info) (dyn_symtab r)) (sizeof_rela L)
               (signed_count (dyn_rela_sz r) (dyn_rela_entsz r)) (dyn_rela r) m)"

subsection \<open>Sections\<close>

definition elf64_copy_section_header_table ::
    "elf_env \<Rightarrow> mem_image_access \<Rightarrow> elf_load_info \<Rightarrow> mem \<Rightarrow> mon_status \<times> mem" where
  "elf64_copy_section_header_table E im p_info m =
     (let L = L64 E; ehdr = ucast (start_addr p_info); shdrtab = ucast (sections_addr p_info);
          section_hdr_tabsiz = ucast (e_shentsize L m ehdr) * ucast (e_shnum L m ehdr) in
      if \<not> elf64_header_is_valid E m ehdr then (MON_ERROR, m)
      else
        let (got, m1) = gen_read (gen im) shdrtab (ucast (e64_shoff L m ehdr)) section_hdr_tabsiz m in
        if got \<noteq> section_hdr_tabsiz then (MON_ERROR, m1)
        else (MON_OK, store64 (ehdr + o_e_shoff L) (sections_addr p_info - start_addr p_info) m1))"

partial_function (option) elf64_copy_sections_loop ::
    "elf_env \<Rightarrow> mem_image_access \<Rightarrow> elf_load_info \<Rightarrow> u32 \<Rightarrow> u16 \<Rightarrow> u64 \<Rightarrow> mem \<Rightarrow> (mon_status \<times> mem) option" where
  "elf64_copy_sections_loop E im p_info ehdr i curr_addr m =
     (if sint i < uint (e_shnum (L64 E) m ehdr) then
        let L = L64 E;
            shdr = GET_SHDR E (e_shentsize L m ehdr) (ucast (sections_addr p_info)) i in
        if sh64_addr L m shdr \<noteq> 0 then
          elf64_copy_sections_loop E im p_info ehdr (i + 1) curr_addr
            (store64 (shdr + o_sh_addr L) (sh64_addr L m shdr + relocation_offset p_info) m)
        else if sh64_size L m shdr = 0 then elf64_copy_sections_loop E im p_info ehdr (i + 1) curr_addr m
        else
          let al = sh64_addralign L m shdr;
              curr_addr = (if al > 1 then align_up64 curr_addr al else curr_addr);
              (got, m1) = gen_read (gen im) (ucast curr_addr) (ucast (sh64_offset L m shdr))
                            (ucast (sh64_size L m shdr)) m in
          if ucast got \<noteq> sh64_size L m1 shdr then Some (MON_ERROR, m1)
          else
            let m2 = store64 (shdr + o_sh_addr L) curr_addr m1 in
            elf64_copy_sections_loop E im p_info ehdr (i + 1) (curr_addr + sh64_size L m2 shdr) m2
      else Some (MON_OK, m))"

definition elf64_copy_sections ::
    "elf_env \<Rightarrow> mem_image_access \<Rightarrow> elf_load_info \<Rightarrow> mem \<Rightarrow> (mon_status \<times> mem) option" where
  "elf64_copy_sections E im p_info m =
     (let L = L64 E; ehdr = ucast (start_addr p_info);
          section_hdr_tabsiz = ucast (e_shentsize L m ehdr) * ucast (e_shnum L m ehdr) :: u32 in
      elf64_copy_sections_loop E im p_info ehdr 0 (sections_addr p_info + ucast section_hdr_tabsiz) m)"

subsection \<open>The whole load\<close>

definition elf64_load_executable ::
    "elf_env \<Rightarrow> mem_image_access \<Rightarrow> elf_load_info \<Rightarrow> mem \<Rightarrow> (mon_status \<times> mem) option" where
  "elf64_load_executable E im p_info m =
     (let L = L64 E; (got, ehdr) = gen_map_to_mem (gen im) 0 (sizeof_ehdr L) in
      if sizeof_ehdr L \<noteq> got then Some (MON_ERROR, m)
      else
        let phsize = ucast (e_phnum L m ehdr) * ucast (e_phentsize L m ehdr);
            (got, phdrtab) = gen_map_to_mem (gen im) (ucast (e64_phoff L m ehdr)) phsize in
        if got \<noteq> phsize then Some (MON_ERROR, m)
        else
          let (status, phdr_dyn, m1) = elf64_load_segments E im p_info ehdr phdrtab 0 0 m in
          if status = MON_ERROR then Some (MON_ERROR, m1)
          else
            let ehdr = ucast (start_addr p_info);
                phdrtab = ucast (start_addr p_info + e64_phoff L m1 ehdr);
                m2 = elf64_update_phdrs E (relocation_offset p_info) ehdr phdrtab 0 m1;
                (status, m3) = (if phdr_dyn \<noteq> 0 then elf64_do_relocation E im p_info phdr_dyn m2
                                else (MON_OK, m2)) in
            if status = MON_ERROR then Some (MON_ERROR, m3)
            else
              let (status, m4) = (if copy_section_headers p_info \<or> copy_symbol_tables p_info
                                  then elf64_copy_section_header_table E im p_info m3
                                  else (MON_OK, m3)) in
              if copy_symbol_tables p_info then elf64_copy_sections E im p_info m4
              else Some (status, m4))"

section \<open>The span of the loadable segments\<close>

definition loads64 :: "elf_env \<Rightarrow> mem \<Rightarrow> u32 \<Rightarrow> bool" where
  "loads64 E m phdr \<longleftrightarrow> PT_LOAD E = p_type (L64 E) m phdr \<and> p64_memsz (L64 E) m phdr \<noteq> 0"

definition loadable64 :: "elf_env \<Rightarrow> mem \<Rightarrow> u32 \<Rightarrow> u32 \<Rightarrow> nat \<Rightarrow> u32 list" where
  "loadable64 E m ehdr phdrtab i =
     filter (loads64 E m) (map (ph_at E (L64 E) m ehdr phdrtab) [i..<ph_count (L64 E) m ehdr])"

definition p64_end :: "elf_env \<Rightarrow> mem \<Rightarrow> u32 \<Rightarrow> u64" where
  "p64_end E m phdr = p64_paddr (L64 E) m phdr + p64_memsz (L64 E) m phdr"

lemma elf64_span_fold:
  "elf64_span E m ehdr phdrtab i low mx =
     (fold min (map (p64_paddr (L64 E) m) (loadable64 E m ehdr phdrtab i)) low,
      fold max (map (p64_end E m) (loadable64 E m ehdr phdrtab i)) mx)"
proof (induction "ph_count (L64 E) m ehdr - i" arbitrary: i low mx)
  case 0
  then show ?case
    by (subst elf64_span.simps) (simp add: loadable64_def ph_more_count)
next
  case (Suc k)
  let ?ph = "ph_at E (L64 E) m ehdr phdrtab i"
  have more: "ph_more (L64 E) m ehdr i" and up: "[i..<ph_count (L64 E) m ehdr] = i # [Suc i..<ph_count (L64 E) m ehdr]"
    using Suc.hyps(2) by (simp_all add: ph_more_count upt_conv_Cons)
  note IH = Suc.hyps(1) [of "Suc i"]
  show ?case
  proof (cases "loads64 E m ?ph")
    case True
    then have ps: "loadable64 E m ehdr phdrtab i = ?ph # loadable64 E m ehdr phdrtab (Suc i)"
      by (simp add: loadable64_def up)
    have "elf64_span E m ehdr phdrtab i low mx
        = elf64_span E m ehdr phdrtab (Suc i) (min (p64_paddr (L64 E) m ?ph) low) (max (p64_end E m ?ph) mx)"
      using True more
      by (subst elf64_span.simps) (auto simp: Let_def loads64_def p64_end_def min_def max_def)
    then show ?thesis using IH Suc.hyps(2) by (simp add: ps)
  next
    case False
    then have ps: "loadable64 E m ehdr phdrtab i = loadable64 E m ehdr phdrtab (Suc i)"
      by (simp add: loadable64_def up)
    have "elf64_span E m ehdr phdrtab i low mx = elf64_span E m ehdr phdrtab (Suc i) low mx"
      using False more by (subst elf64_span.simps) (auto simp: Let_def loads64_def)
    then show ?thesis using IH Suc.hyps(2) by (simp add: ps)
  qed
qed

lemma elf64_span_MinMax:
  assumes "elf64_span E m ehdr phdrtab 0 (- 1) 0 = (low, mx)" and "loadable64 E m ehdr phdrtab 0 \<noteq> []"
  shows "low = Min (p64_paddr (L64 E) m ` set (loadable64 E m ehdr phdrtab 0))
    \<and> mx = Max (p64_end E m ` set (loadable64 E m ehdr phdrtab 0))"
proof -
  let ?ps = "loadable64 E m ehdr phdrtab 0"
  have "fold min (map (p64_paddr (L64 E) m) ?ps) (- 1) = Min (set (- 1 # map (p64_paddr (L64 E) m) ?ps))"
    and "fold max (map (p64_end E m) ?ps) 0 = Max (set (0 # map (p64_end E m) ?ps))"
    by (simp_all only: Min.set_eq_fold Max.set_eq_fold)
  with assms show ?thesis
    by (simp add: elf64_span_fold min_def max_def word_order.extremum_unique)
qed

section \<open>Loading one segment\<close>

definition seg64_dst :: "elf_env \<Rightarrow> elf_load_info \<Rightarrow> mem \<Rightarrow> u32 \<Rightarrow> u32" where
  "seg64_dst E p_info m phdr = ucast (p64_paddr (L64 E) m phdr + relocation_offset p_info)"

definition seg64_file :: "elf_env \<Rightarrow> mem \<Rightarrow> u32 \<Rightarrow> u64" where
  "seg64_file E m phdr = min (p64_filesz (L64 E) m phdr) (p64_memsz (L64 E) m phdr)"

definition seg64_byte :: "elf_env \<Rightarrow> mem_image_access \<Rightarrow> elf_load_info \<Rightarrow> mem \<Rightarrow> u32 \<Rightarrow> u32 \<Rightarrow> u8" where
  "seg64_byte E im p_info m phdr x =
     (let k = x - seg64_dst E p_info m phdr
      in if unat k < unat (seg64_file E m phdr)
         then m (image im + ucast (p64_offset (L64 E) m phdr) + k) else 0)"

definition phdr64_inside :: "elf_env \<Rightarrow> mem_image_access \<Rightarrow> u32 \<Rightarrow> bool" where
  "phdr64_inside E im phdr \<longleftrightarrow>
     (let L = L64 E; a = image im; n = unat (image_size im) in
      inside (phdr + o_p_type L) 4 a n \<and> inside (phdr + o_p_offset L) 8 a n
      \<and> inside (phdr + o_p_paddr L) 8 a n \<and> inside (phdr + o_p_filesz L) 8 a n
      \<and> inside (phdr + o_p_memsz L) 8 a n)"

text \<open>A segment whose file part lies in the image, whose size fits in 32 bits, and whose target
  does not touch the image.\<close>

definition seg64_ok :: "elf_env \<Rightarrow> mem_image_access \<Rightarrow> elf_load_info \<Rightarrow> mem \<Rightarrow> u32 \<Rightarrow> bool" where
  "seg64_ok E im p_info m phdr \<longleftrightarrow>
     unat (p64_memsz (L64 E) m phdr) < 2 ^ 32
     \<and> unat (ucast (p64_offset (L64 E) m phdr) :: u32) + unat (seg64_file E m phdr) \<le> unat (image_size im)
     \<and> sep (seg64_dst E p_info m phdr) (unat (p64_memsz (L64 E) m phdr)) (image im) (unat (image_size im))"

lemma agree_phdr64:
  assumes "agree_on (image im) (unat (image_size im)) m m'" and "phdr64_inside E im phdr"
  shows "p_type (L64 E) m' phdr = p_type (L64 E) m phdr"
    and "p64_offset (L64 E) m' phdr = p64_offset (L64 E) m phdr"
    and "p64_paddr (L64 E) m' phdr = p64_paddr (L64 E) m phdr"
    and "p64_filesz (L64 E) m' phdr = p64_filesz (L64 E) m phdr"
    and "p64_memsz (L64 E) m' phdr = p64_memsz (L64 E) m phdr"
  using assms agree_on_load [OF assms(1)]
  by (auto simp: phdr64_inside_def p_type_def elf64_fields Let_def)

lemma elf64_load_segment_eq:
  "elf64_load_segment E im p_info phdr m =
     (let memsz = p64_memsz (L64 E) m phdr; filesz = seg64_file E m phdr;
          (got, m1) = gen_read (gen im) (seg64_dst E p_info m phdr)
                        (ucast (p64_offset (L64 E) m phdr)) (ucast filesz) m
      in if got \<noteq> ucast filesz then (MON_ERROR, m1)
         else if filesz < memsz
         then (MON_OK, mon_memset (seg64_dst E p_info m phdr + ucast filesz) 0 (ucast (memsz - filesz)) m1)
         else (MON_OK, m1))"
proof -
  have clip: "(if p64_filesz (L64 E) m phdr > p64_memsz (L64 E) m phdr then p64_memsz (L64 E) m phdr
      else p64_filesz (L64 E) m phdr) = seg64_file E m phdr"
    by (auto simp: seg64_file_def min_def)
  show ?thesis
    unfolding elf64_load_segment_def Let_def clip seg64_dst_def ucast_add64
    by (auto simp: add_ac split: prod.split)
qed

lemma elf64_load_segment_ok:
  assumes im: "im = mem_image_create_ex img sz"
    and agree: "agree_on (image im) (unat (image_size im)) m m'"
    and inside: "phdr64_inside E im phdr" and ok: "seg64_ok E im p_info m phdr"
  shows "\<exists>m''. elf64_load_segment E im p_info phdr m' = (MON_OK, m'')
    \<and> (\<forall>x. m'' x = (if in_range (seg64_dst E p_info m phdr) (unat (p64_memsz (L64 E) m phdr)) x
                     then seg64_byte E im p_info m phdr x else m' x))"
proof -
  let ?d = "seg64_dst E p_info m phdr" and ?f = "seg64_file E m phdr" and ?z = "p64_memsz (L64 E) m phdr"
  let ?f' = "ucast ?f :: u32" and ?z' = "ucast ?z :: u32" and ?off = "ucast (p64_offset (L64 E) m phdr) :: u32"
  have z: "unat ?z < 2 ^ 32" and fz: "unat ?f \<le> unat ?z" and f: "unat ?f < 2 ^ 32"
    using ok by (auto simp: seg64_ok_def seg64_file_def min_def word_le_nat_alt split: if_splits)
  have u: "unat ?f' = unat ?f" "unat ?z' = unat ?z" using f z by (simp_all only: unat_ucast_small)
  have less: "?f < ?z \<longleftrightarrow> ?f' < ?z'" using u by (simp add: word_less_nat_alt)
  have gap: "ucast (?z - ?f) = ?z' - ?f'" by (rule ucast_diff64)
  note same = agree_phdr64 [OF agree inside]
  have same': "seg64_dst E p_info m' phdr = ?d" "seg64_file E m' phdr = ?f"
    using same by (simp_all add: seg64_file_def seg64_dst_def)
  have "unat ?off + unat ?f' \<le> unat (image_size im)" "unat ?f' \<le> unat ?z'"
    "sep ?d (unat ?z') (image im) (unat (image_size im))"
    using ok fz u by (simp_all add: seg64_ok_def)
  note rd = read_segment [OF this agree]
  show ?thesis
    using rd unfolding elf64_load_segment_eq Let_def same same' less gap im create_ex_simps u
    by (auto simp: seg64_byte_def Let_def u split: prod.split)
qed

section \<open>Loading all segments\<close>

text \<open>An image whose header counts and whose program headers lie in the image, whose loadable
  segments are well placed, and whose segment targets do not overlap each other.\<close>

definition elf64_layout_ok :: "elf_env \<Rightarrow> mem_image_access \<Rightarrow> elf_load_info \<Rightarrow> u32 \<Rightarrow> u32 \<Rightarrow> mem \<Rightarrow> bool" where
  "elf64_layout_ok E im p_info ehdr phdrtab m \<longleftrightarrow>
     (let L = L64 E; cnt = ph_count L m ehdr; ph = ph_at E L m ehdr phdrtab in
      PT_LOAD E \<noteq> PT_DYNAMIC E \<and> counts_inside L im ehdr
      \<and> list_all (\<lambda>i. phdr64_inside E im (ph i)) [0..<cnt]
      \<and> list_all (\<lambda>i. loads64 E m (ph i) \<longrightarrow> seg64_ok E im p_info m (ph i)) [0..<cnt]
      \<and> list_all (\<lambda>i. list_all (\<lambda>j. loads64 E m (ph i) \<and> loads64 E m (ph j) \<longrightarrow>
           sep (seg64_dst E p_info m (ph i)) (unat (p64_memsz L m (ph i)))
               (seg64_dst E p_info m (ph j)) (unat (p64_memsz L m (ph j)))) [0..<i]) [0..<cnt])"

lemma elf64_layout_okD:
  assumes "elf64_layout_ok E im p_info ehdr phdrtab m"
  defines "ph \<equiv> ph_at E (L64 E) m ehdr phdrtab"
  shows "PT_LOAD E \<noteq> PT_DYNAMIC E" and "counts_inside (L64 E) im ehdr"
    and "i < ph_count (L64 E) m ehdr \<Longrightarrow> phdr64_inside E im (ph i)"
    and "i < ph_count (L64 E) m ehdr \<Longrightarrow> loads64 E m (ph i) \<Longrightarrow> seg64_ok E im p_info m (ph i)"
    and "i < ph_count (L64 E) m ehdr \<Longrightarrow> j < i \<Longrightarrow> loads64 E m (ph i) \<Longrightarrow> loads64 E m (ph j) \<Longrightarrow>
           sep (seg64_dst E p_info m (ph i)) (unat (p64_memsz (L64 E) m (ph i)))
               (seg64_dst E p_info m (ph j)) (unat (p64_memsz (L64 E) m (ph j)))"
  using assms by (auto simp: elf64_layout_ok_def list_all_iff Let_def)

definition dynamic64 :: "elf_env \<Rightarrow> mem \<Rightarrow> u32 \<Rightarrow> bool" where
  "dynamic64 E m phdr \<longleftrightarrow> PT_DYNAMIC E = p_type (L64 E) m phdr"

text \<open>The dynamic-section headers; the loop remembers the last one.\<close>

definition dyn_phdrs64 :: "elf_env \<Rightarrow> mem \<Rightarrow> u32 \<Rightarrow> u32 \<Rightarrow> u32 list" where
  "dyn_phdrs64 E m ehdr phdrtab =
     filter (dynamic64 E m) (map (ph_at E (L64 E) m ehdr phdrtab) [0..<ph_count (L64 E) m ehdr])"

text \<open>
  The memory a load is meant to produce: each address in the target of a loadable segment shows the
  segment's byte, every other address is unchanged.
\<close>

definition loaded64 :: "elf_env \<Rightarrow> mem_image_access \<Rightarrow> elf_load_info \<Rightarrow> u32 \<Rightarrow> u32 \<Rightarrow> mem \<Rightarrow> mem" where
  "loaded64 E im p_info ehdr phdrtab m x =
     (case find (\<lambda>ph. in_range (seg64_dst E p_info m ph) (unat (p64_memsz (L64 E) m ph)) x)
             (loadable64 E m ehdr phdrtab 0) of
        Some ph \<Rightarrow> seg64_byte E im p_info m ph x
      | None \<Rightarrow> m x)"

text \<open>The 64-bit loader's loop implements the interface of the segment loop.\<close>

interpretation seg64: segment_loop
  "elf64_load_segments E (mem_image_create_ex img sz) p_info ehdr phdrtab"
  "\<lambda>m. ph_count (L64 E) m ehdr" "\<lambda>m. ph_at E (L64 E) m ehdr phdrtab" "dynamic64 E" "loads64 E"
  "elf64_load_segment E (mem_image_create_ex img sz) p_info" img "unat sz"
  "elf64_layout_ok E (mem_image_create_ex img sz) p_info ehdr phdrtab"
  "seg64_dst E p_info" "\<lambda>m ph. unat (p64_memsz (L64 E) m ph)" "seg64_byte E (mem_image_create_ex img sz) p_info"
  for E img sz p_info ehdr phdrtab
proof
  let ?im = "mem_image_create_ex img sz" and ?L = "L64 E"
  show "elf64_load_segments E ?im p_info ehdr phdrtab i d m =
      (if i < ph_count ?L m ehdr then
         if dynamic64 E m (ph_at E ?L m ehdr phdrtab i)
         then elf64_load_segments E ?im p_info ehdr phdrtab (Suc i) (ph_at E ?L m ehdr phdrtab i) m
         else if \<not> loads64 E m (ph_at E ?L m ehdr phdrtab i)
         then elf64_load_segments E ?im p_info ehdr phdrtab (Suc i) d m
         else (case elf64_load_segment E ?im p_info (ph_at E ?L m ehdr phdrtab i) m of
                 (MON_ERROR, m1) \<Rightarrow> (MON_ERROR, d, m1)
               | (MON_OK, m1) \<Rightarrow> elf64_load_segments E ?im p_info ehdr phdrtab (Suc i) d m1)
       else (MON_OK, d, m))" for i d m
    by (subst elf64_load_segments.simps) (simp add: Let_def ph_more_count dynamic64_def loads64_def)
  fix m
  assume ok: "elf64_layout_ok E ?im p_info ehdr phdrtab m"
  note D = elf64_layout_okD [OF ok]
  show "\<not> dynamic64 E m p" if "loads64 E m p" for p
    using that D(1) by (auto simp: dynamic64_def loads64_def)
  show "sep (seg64_dst E p_info m (ph_at E ?L m ehdr phdrtab i)) (unat (p64_memsz ?L m (ph_at E ?L m ehdr phdrtab i)))
      img (unat sz)" if "i < ph_count ?L m ehdr" "loads64 E m (ph_at E ?L m ehdr phdrtab i)" for i
    using D(4) [OF that] by (simp add: seg64_ok_def)
  show "sep (seg64_dst E p_info m (ph_at E ?L m ehdr phdrtab i)) (unat (p64_memsz ?L m (ph_at E ?L m ehdr phdrtab i)))
      (seg64_dst E p_info m (ph_at E ?L m ehdr phdrtab j)) (unat (p64_memsz ?L m (ph_at E ?L m ehdr phdrtab j)))"
    if "i < ph_count ?L m ehdr" "j < i" "loads64 E m (ph_at E ?L m ehdr phdrtab i)"
      "loads64 E m (ph_at E ?L m ehdr phdrtab j)" for i j
    using D(5) [OF that] .
  fix m'
  assume ag: "agree_on img (unat sz) m m'"
  then have ag': "agree_on (image ?im) (unat (image_size ?im)) m m'" by simp
  show "ph_count ?L m' ehdr = ph_count ?L m ehdr \<and> ph_at E ?L m' ehdr phdrtab = ph_at E ?L m ehdr phdrtab"
    using counts_stable [OF D(2) ag'] by simp
  fix i
  assume i: "i < ph_count ?L m ehdr"
  show "dynamic64 E m' (ph_at E ?L m ehdr phdrtab i) = dynamic64 E m (ph_at E ?L m ehdr phdrtab i)
      \<and> loads64 E m' (ph_at E ?L m ehdr phdrtab i) = loads64 E m (ph_at E ?L m ehdr phdrtab i)"
    using agree_phdr64 [OF ag' D(3) [OF i]] by (simp add: dynamic64_def loads64_def)
  show "\<exists>m''. elf64_load_segment E ?im p_info (ph_at E ?L m ehdr phdrtab i) m' = (MON_OK, m'') \<and> (\<forall>x. m'' x =
      (if in_range (seg64_dst E p_info m (ph_at E ?L m ehdr phdrtab i))
           (unat (p64_memsz ?L m (ph_at E ?L m ehdr phdrtab i))) x
       then seg64_byte E ?im p_info m (ph_at E ?L m ehdr phdrtab i) x else m' x))"
    if "loads64 E m (ph_at E ?L m ehdr phdrtab i)"
    by (rule elf64_load_segment_ok [OF refl ag' D(3) [OF i] D(4) [OF i that]])
qed

section \<open>Properties\<close>

text \<open>
  C1. Loading the segments of a well-laid-out image: the loop ends with \<^verbatim>\<open>MON_OK\<close>, has remembered the last
  dynamic-section header, and the memory is exactly the intended one: the file bytes of
  every loadable segment at its relocated physical address, zeroes after them up to the memory
  size, nothing else changed.
\<close>

theorem elf64_load_segments_correct:
  assumes "elf64_layout_ok E (mem_image_create_ex img sz) p_info ehdr phdrtab m"
  shows "elf64_load_segments E (mem_image_create_ex img sz) p_info ehdr phdrtab 0 0 m
    = (MON_OK, last (0 # dyn_phdrs64 E m ehdr phdrtab),
       loaded64 E (mem_image_create_ex img sz) p_info ehdr phdrtab m)"
  using seg64.loop_correct [OF assms, of 0]
  by (simp add: seg64.dyn_from_def dyn_phdrs64_def fun_eq_iff seg64.loaded_def loaded64_def loadable64_def)

text \<open>
  A 124-byte image with one loadable segment: two bytes from offset 120, four bytes of memory
  at \<^verbatim>\<open>0x8000\<close>, entry point \<^verbatim>\<open>0x8001\<close>.
\<close>

definition tiny_elf64_mem :: mem where
  "tiny_elf64_mem = (\<lambda>_. 0)(
     0x5000 := 0x7F, 0x5001 := 0x45, 0x5002 := 0x4C, 0x5003 := 0x46, 0x5004 := 0x2,
     0x5005 := 0x1, 0x5006 := 0x1, 0x5010 := 0x2, 0x5012 := 0x3E, 0x5014 := 0x1,
     0x5018 := 0x1, 0x5019 := 0x80, 0x5020 := 0x40, 0x5034 := 0x40, 0x5036 := 0x38,
     0x5038 := 0x1, 0x503A := 0x40, 0x5040 := 0x1, 0x5044 := 0x5, 0x5048 := 0x78,
     0x5051 := 0x80, 0x5059 := 0x80, 0x5060 := 0x2, 0x5068 := 0x4, 0x5071 := 0x10,
     0x5078 := 0xAA, 0x5079 := 0xBB, 0x507A := 0xCC, 0x507B := 0xDD)"

definition no_info :: elf_load_info where
  "no_info = \<lparr>start_addr = 0, end_addr = 0, entry_addr = 0, sections_addr = 0, relocation_offset = 0,
     machine_type = 0, copy_section_headers = False, copy_symbol_tables = False\<rparr>"

lemma tiny_elf64_fields:
  "e_type std_L64 tiny_elf64_mem 0x5000 = 2"
  "e_phnum std_L64 tiny_elf64_mem 0x5000 = 1" "e_phentsize std_L64 tiny_elf64_mem 0x5000 = 56"
  "e64_phoff std_L64 tiny_elf64_mem 0x5000 = 64" "e64_entry std_L64 tiny_elf64_mem 0x5000 = 0x8001"
  "p_type std_L64 tiny_elf64_mem 0x5040 = 1" "p64_offset std_L64 tiny_elf64_mem 0x5040 = 120"
  "p64_paddr std_L64 tiny_elf64_mem 0x5040 = 0x8000" "p64_filesz std_L64 tiny_elf64_mem 0x5040 = 2"
  "p64_memsz std_L64 tiny_elf64_mem 0x5040 = 4"
  by (simp_all add: elf_fields elf64_fields std_L64_def tiny_elf64_mem_def mem_eval)

lemma tiny_elf64_table:
  "ph_count std_L64 tiny_elf64_mem 0x5000 = 1"
  "ph_at std_elf std_L64 tiny_elf64_mem 0x5000 0x5040 0 = 0x5040"
  "loadable64 std_elf tiny_elf64_mem 0x5000 0x5040 0 = [0x5040]"
  by (simp_all add: ph_count_def ph_at_def loadable64_def loads64_def tiny_elf64_fields std_elf_def)

theorem elf64_load_segments_correct_witness:
  "snd (snd (elf64_load_segments std_elf (mem_image_create_ex 0x5000 124) no_info 0x5000 0x5040 0 0 tiny_elf64_mem)) 0x8001 = 0xBB"
proof -
  have L: "L64 std_elf = std_L64" by (simp add: std_elf_def)
  let ?im = "mem_image_create_ex 0x5000 124"
  have "elf64_layout_ok std_elf ?im no_info 0x5000 0x5040 tiny_elf64_mem"
    by (simp add: elf64_layout_ok_def L Let_def tiny_elf64_table tiny_elf64_fields inside_def counts_inside_def
        phdr64_inside_def seg64_ok_def seg64_file_def seg64_dst_def no_info_def sep_def)
      (simp add: std_L64_def std_elf_def)
  from elf64_load_segments_correct [OF this] show ?thesis
    by (simp add: loaded64_def tiny_elf64_table L seg64_dst_def seg64_byte_def seg64_file_def
        tiny_elf64_fields no_info_def in_range_def Let_def)
      (simp add: tiny_elf64_mem_def)
qed

text \<open>
  C14. When \<^verbatim>\<open>elf64_get_load_info\<close> accepts an image (without the section options), the image has a loadable segment,
  the reported start is the lowest physical address of the loadable segments and page aligned,
  the reported end is the highest segment end, the entry point is the header's, and no
  other field of the record changed.
\<close>

theorem elf64_get_load_info_bounds:
  assumes "elf64_get_load_info E (mem_image_create_ex img sz) p_info m = Some (MON_OK, info)"
    and "\<not> copy_section_headers p_info" and "\<not> copy_symbol_tables p_info" and "PAGE_4KB_MASK E \<noteq> 0"
  shows "let ps = loadable64 E m img (img + ucast (e64_phoff (L64 E) m img)) 0;
             low = Min (p64_paddr (L64 E) m ` set ps); high = Max (p64_end E m ` set ps)
         in ps \<noteq> [] \<and> low AND ucast (PAGE_4KB_MASK E) = 0
            \<and> info = p_info\<lparr>start_addr := low, end_addr := high, entry_addr := e64_entry (L64 E) m img\<rparr>"
proof -
  let ?tab = "img + ucast (e64_phoff (L64 E) m img)"
  let ?ps = "loadable64 E m img ?tab 0"
  obtain low mx where sp: "elf64_span E m img ?tab 0 (- 1) 0 = (low, mx)" by fastforce
  have al: "low AND ucast (PAGE_4KB_MASK E) = 0"
    and info: "info = p_info\<lparr>start_addr := low, end_addr := mx, entry_addr := e64_entry (L64 E) m img\<rparr>"
    using assms(1-3) sp
    by (auto simp: elf64_get_load_info_def mem_image_map_to_mem_def Let_def split: if_splits prod.splits)
  have "?ps \<noteq> []"
  proof
    assume "?ps = []"
    then have "low = - 1" using sp by (simp add: elf64_span_fold)
    with al have "ucast (PAGE_4KB_MASK E) = (0 :: u64)" by simp
    then have "unat (ucast (PAGE_4KB_MASK E) :: u64) = 0" by simp
    then have "take_bit 64 (unat (PAGE_4KB_MASK E)) = 0" by (simp only: unsigned_ucast_eq) simp
    with assms(4) unat_bound(3) [of "PAGE_4KB_MASK E"] show False
      by (simp add: take_bit_nat_eq_self unat_eq_0)
  qed
  with elf64_span_MinMax [OF sp] al info show ?thesis by (simp add: Let_def)
qed

theorem elf64_get_load_info_bounds_witness:
  "loadable64 std_elf tiny_elf64_mem 0x5000 0x5040 0 \<noteq> []
   \<and> elf64_get_load_info std_elf (mem_image_create_ex 0x5000 124) no_info tiny_elf64_mem
     = Some (MON_OK, no_info\<lparr>start_addr := 0x8000, end_addr := 0x8004, entry_addr := 0x8001\<rparr>)"
proof -
  have L: "L64 std_elf = std_L64" by (simp add: std_elf_def)
  have s: "sizeof_ehdr std_L64 = 64" by (simp add: std_L64_def)
  have sp: "elf64_span std_elf tiny_elf64_mem 0x5000 0x5040 0 (- 1) 0 = (0x8000, 0x8004)"
    by (simp add: elf64_span_fold tiny_elf64_table L tiny_elf64_fields p64_end_def min_def max_def)
  have run: "elf64_get_load_info std_elf (mem_image_create_ex 0x5000 124) no_info tiny_elf64_mem
     = Some (MON_OK, no_info\<lparr>start_addr := 0x8000, end_addr := 0x8004, entry_addr := 0x8001\<rparr>)"
    by (simp add: elf64_get_load_info_def L s tiny_elf64_fields mem_image_map_to_mem_def Let_def sp)
      (simp add: std_elf_def no_info_def)
  then show ?thesis
    using elf64_get_load_info_bounds [OF run] tiny_elf64_fields(4)
    by (simp add: no_info_def Let_def L std_elf_def)
qed

lemma elf64_section_room_diverges:
  assumes "elf64_section_room E m ehdr shdrtab i a = Some r"
  shows "e_shnum (L64 E) m ehdr < 0x8000"
proof (rule elf64_section_room.raw_induct
    [where P = "\<lambda>E m ehdr shdrtab i a r. e_shnum (L64 E) m ehdr < 0x8000", OF _ assms])
  fix f E m ehdr shdrtab and i :: u16 and a r
  assume IH: "\<And>E m ehdr shdrtab i a r. f E m ehdr shdrtab i a = Some r \<Longrightarrow> e_shnum (L64 E) m ehdr < 0x8000"
    and run: "(if sint i < uint (e_shnum (L64 E) m ehdr) then
        let shdr = GET_SHDR E (e_shentsize (L64 E) m ehdr) shdrtab i; sz = sh64_size (L64 E) m shdr
        in if sz = 0 \<or> sh64_addr (L64 E) m shdr \<noteq> 0 then f E m ehdr shdrtab (i + 1) a
           else let al = sh64_addralign (L64 E) m shdr; a = if al > 1 then align_up64 a al else a
                in f E m ehdr shdrtab (i + 1) (a + sz)
      else Some a) = Some r"
  show "e_shnum (L64 E) m ehdr < 0x8000"
  proof (cases "sint i < uint (e_shnum (L64 E) m ehdr)")
    case True
    with run obtain i' a' where "f E m ehdr shdrtab i' a' = Some r"
      by (auto simp: Let_def split: if_splits)
    then show ?thesis by (rule IH)
  next
    case False
    then show ?thesis using sint_lt [of i] by (simp add: word_less_def)
  qed
qed

lemma elf64_section_room_returns:
  assumes "e_shnum (L64 E) m ehdr < 0x8000" 
  shows "\<exists>r. elf64_section_room E m ehdr shdrtab i a = Some r"
proof (induction "nat (uint (e_shnum (L64 E) m ehdr) - sint i)" arbitrary: i a rule: less_induct)
  case less
  show ?case
  proof (cases "sint i < uint (e_shnum (L64 E) m ehdr)")
    case True
    moreover have "uint (e_shnum (L64 E) m ehdr) < 32768"  using assms by (simp add: word_less_def)
    ultimately have "nat (uint (e_shnum (L64 E) m ehdr) - sint (i + 1)) < nat (uint (e_shnum (L64 E) m ehdr) - sint i)"
      by (simp add: sint_u16_Suc)
    then have IH: "\<exists>r. elf64_section_room E m ehdr shdrtab (i + 1) a' = Some r" for a'
      by (rule less)
    show ?thesis using True by (subst elf64_section_room.simps) (auto simp: Let_def intro: IH)
  next
    case False
    then show ?thesis by (subst elf64_section_room.simps) simp
  qed
qed

text \<open>
  C39. The walk over the section headers returns exactly when the header counts fewer than \<open>2 ^ 15\<close>
  sections: above that the signed 16-bit counter never reaches the unsigned count.
\<close>

theorem elf64_section_room_returns_iff:
  "(\<exists>r. elf64_section_room E m ehdr shdrtab 0 a = Some r) \<longleftrightarrow> e_shnum (L64 E) m ehdr < 0x8000"
  using elf64_section_room_diverges elf64_section_room_returns by blast

section \<open>Relative relocations\<close>

text \<open>Entry \<open>i\<close> of the relocation table, its target and the value it stores.\<close>

definition rela64_at :: "elf_env \<Rightarrow> u32 \<Rightarrow> nat \<Rightarrow> u32" where
  "rela64_at E rela i = rela + of_nat i * sizeof_rela (L64 E)"

definition rela64_target :: "elf_env \<Rightarrow> u64 \<Rightarrow> u32 \<Rightarrow> mem \<Rightarrow> nat \<Rightarrow> u32" where
  "rela64_target E reloc rela m i = ucast (load64 m (rela64_at E rela i + o_rela_offset (L64 E)) + reloc)"

definition rela64_value :: "elf_env \<Rightarrow> u64 \<Rightarrow> u32 \<Rightarrow> mem \<Rightarrow> nat \<Rightarrow> u64" where
  "rela64_value E reloc rela m i = load64 m (rela64_at E rela i + o_rela_addend (L64 E)) + reloc"

text \<open>
  A table of \<open>n\<close> relative relocations whose fields lie in the \<open>tn\<close> bytes of the table, whose targets
  lie outside of it and do not overlap each other.
\<close>

definition relative64_ok :: "elf_env \<Rightarrow> u64 \<Rightarrow> u32 \<Rightarrow> nat \<Rightarrow> nat \<Rightarrow> mem \<Rightarrow> bool" where
  "relative64_ok E reloc rela tn n m \<longleftrightarrow>
     R_X86_64_RELATIVE E \<noteq> R_X86_64_64 E
     \<and> list_all (\<lambda>i. let r = rela64_at E rela i; L = L64 E in
          inside (r + o_rela_offset L) 8 rela tn \<and> inside (r + o_rela_info L) 8 rela tn
          \<and> inside (r + o_rela_addend L) 8 rela tn
          \<and> load64 m (r + o_rela_info L) AND 0xFF = ucast (R_X86_64_RELATIVE E)
          \<and> sep (rela64_target E reloc rela m i) 8 rela tn
          \<and> list_all (\<lambda>j. sep (rela64_target E reloc rela m i) 8 (rela64_target E reloc rela m j) 8) [0..<i])
        [0..<n]"

lemma rela64_apply_relative:
  assumes ok: "relative64_ok E reloc rela tn n m" and i: "i < n" and ag: "agree_on rela tn m m'"
  shows "rela64_apply E reloc symtab (rela64_at E rela i) m' =
    (MON_OK, store64 (rela64_target E reloc rela m i) (rela64_value E reloc rela m i) m')"
proof -
  let ?r = "rela64_at E rela i" and ?L = "L64 E"
  have D: "inside (?r + o_rela_offset ?L) 8 rela tn" "inside (?r + o_rela_info ?L) 8 rela tn"
    "inside (?r + o_rela_addend ?L) 8 rela tn"
    "load64 m (?r + o_rela_info ?L) AND 0xFF = ucast (R_X86_64_RELATIVE E)"
    using ok i by (auto simp: relative64_ok_def list_all_iff Let_def)
  have ne: "(ucast (R_X86_64_RELATIVE E) :: u64) \<noteq> ucast (R_X86_64_64 E)"
    using ok ucast_up_down unfolding relative64_ok_def by metis
  show ?thesis
    using D(4) ne agree_on_load(3) [OF ag] D(1-3)
    by (simp add: rela64_apply_def Let_def rela64_target_def rela64_value_def)
qed

lemma rela64_relative_run:
  assumes ok: "relative64_ok E reloc rela tn n m"
  shows "\<exists>m'. reloc_loop (rela64_apply E reloc symtab) (sizeof_rela (L64 E)) n rela m = (MON_OK, m')
    \<and> (\<forall>i < n. load64 m' (rela64_target E reloc rela m i) = rela64_value E reloc rela m i)
    \<and> (\<forall>x. (\<forall>i < n. \<not> in_range (rela64_target E reloc rela m i) 8 x) \<longrightarrow> m' x = m x)"
proof (rule reloc_loop_placed [where n = n and tab = rela and tn = tn and m = m and w = 8
      and tgt = "rela64_target E reloc rela m" and step = "rela64_apply E reloc symtab"
      and ent = rela and esz = "sizeof_rela (L64 E)"
      and val_byte = "\<lambda>i. scalar_byte 8 (rela64_value E reloc rela m i) (rela64_target E reloc rela m i)"])
  show "\<exists>m''. rela64_apply E reloc symtab (rela + of_nat i * sizeof_rela (L64 E)) m' = (MON_OK, m'')
      \<and> (\<forall>x. m'' x = (if in_range (rela64_target E reloc rela m i) 8 x
           then scalar_byte 8 (rela64_value E reloc rela m i) (rela64_target E reloc rela m i) x else m' x))"
    if "i < n" "agree_on rela tn m m'" for i m'
    using rela64_apply_relative [OF ok that, unfolded rela64_at_def] by (simp add: store_scalar)
  show "sep (rela64_target E reloc rela m i) 8 rela tn" if "i < n" for i
    using ok that by (auto simp: relative64_ok_def list_all_iff Let_def)
  show "sep (rela64_target E reloc rela m i) 8 (rela64_target E reloc rela m j) 8" if "i < n" "j < i" for i j
    using ok that by (auto simp: relative64_ok_def list_all_iff Let_def)
qed (use load_scalar(2) in blast)

text \<open>
  C29. Relocating with a table of relative entries: the loop ends with \<^verbatim>\<open>MON_OK\<close>, every target holds its entry's addend
  plus the relocation offset, and no byte outside the targets changes.
\<close>

theorem rela64_relative_correct:
  assumes ok: "relative64_ok E reloc rela tn n m"
  shows "\<exists>m'. reloc_loop (rela64_apply E reloc symtab) (sizeof_rela (L64 E)) n rela m = (MON_OK, m')
    \<and> (\<forall>i < n. load64 m' (rela64_target E reloc rela m i) = rela64_value E reloc rela m i)
    \<and> (\<forall>x. (\<forall>i < n. \<not> in_range (rela64_target E reloc rela m i) 8 x) \<longrightarrow> m' x = m x)"
  by (rule rela64_relative_run [OF ok])

text \<open>Two relative relocations at \<^verbatim>\<open>0x5000\<close>, for the targets \<^verbatim>\<open>0x8000\<close> and \<^verbatim>\<open>0x8008\<close>.\<close>

definition two_relas :: mem where
  "two_relas = (\<lambda>_. 0)(0x5001 := 0x80, 0x5008 := 8, 0x5010 := 0x11,
     0x5018 := 8, 0x5019 := 0x80, 0x5020 := 8, 0x5028 := 0x22)"

theorem rela64_relative_correct_witness:
  "\<exists>m'. reloc_loop (rela64_apply std_elf 0x100 0) 24 2 0x5000 two_relas = (MON_OK, m')
    \<and> load64 m' 0x8108 = 0x122"
proof -
  have L: "L64 std_elf = std_L64" "sizeof_rela std_L64 = 24" "o_rela_offset std_L64 = 0"
    "o_rela_info std_L64 = 8" "o_rela_addend std_L64 = 16"
    "R_X86_64_64 std_elf = 1" "R_X86_64_RELATIVE std_elf = 8" by (simp_all add: std_elf_def std_L64_def)
  have up: "[0..<2] = [0, 1 :: nat]" "[0..<Suc 0] = [0]" by (simp_all add: upt_rec)
  have t: "rela64_target std_elf 0x100 0x5000 two_relas 0 = 0x8100"
    "rela64_target std_elf 0x100 0x5000 two_relas (Suc 0) = 0x8108"
    "rela64_value std_elf 0x100 0x5000 two_relas (Suc 0) = 0x122"
    by (simp_all add: rela64_target_def rela64_value_def rela64_at_def L two_relas_def mem_eval)
  have "relative64_ok std_elf 0x100 0x5000 48 2 two_relas"
    by (simp add: relative64_ok_def up Let_def t L rela64_at_def inside_def sep_def)
      (simp add: two_relas_def mem_eval)
  from rela64_relative_correct [OF this, of 0] obtain m' where
    run: "reloc_loop (rela64_apply std_elf 0x100 0) (sizeof_rela (L64 std_elf)) 2 0x5000 two_relas = (MON_OK, m')"
    and val: "\<forall>i < 2. load64 m' (rela64_target std_elf 0x100 0x5000 two_relas i)
      = rela64_value std_elf 0x100 0x5000 two_relas i" by blast
  show ?thesis using run val [rule_format, of "Suc 0"] by (simp add: L t)
qed

end
