(* ===== verification/Elf64_Image.thy ===== *)
theory Elf64_Image
  imports Elf64_Ld
begin

text \<open>
  What the 64-bit loader does after the segments are in place: the addresses in the copied program headers, the dynamic section, and
  the relocation of a whole image. Each step is described by the fields it changes and the frame it keeps, independently of the loops
  of \<^verbatim>\<open>elf64_ld.c\<close>.
\<close>

section \<open>The copied program headers\<close>

text \<open>The fields that the loop over the copied headers writes: for header \<open>i\<close>, field \<open>2 * i\<close> is its physical and \<open>2 * i + 1\<close> its virtual address.\<close>

definition hdr_field :: "elf_env \<Rightarrow> u32 \<Rightarrow> u32 \<Rightarrow> mem \<Rightarrow> nat \<Rightarrow> u32" where
  "hdr_field E ehdr tab m k = ph_at E (L64 E) m ehdr tab (k div 2) + (if even k then o_p_paddr (L64 E) else o_p_vaddr (L64 E))"

definition hdr_live :: "elf_env \<Rightarrow> u32 \<Rightarrow> u32 \<Rightarrow> mem \<Rightarrow> nat \<Rightarrow> bool" where
  "hdr_live E ehdr tab m k \<longleftrightarrow> p64_memsz (L64 E) m (ph_at E (L64 E) m ehdr tab (k div 2)) \<noteq> 0"

text \<open>The fields overlap neither each other nor the counts in the ELF header nor the sizes in the program headers.\<close>

definition phdrs64_apart :: "elf_env \<Rightarrow> u32 \<Rightarrow> u32 \<Rightarrow> mem \<Rightarrow> bool" where
  "phdrs64_apart E ehdr tab m \<longleftrightarrow>
     (let L = L64 E; cnt = ph_count L m ehdr; fld = hdr_field E ehdr tab m in
      list_all (\<lambda>k. sep (fld k) 8 (ehdr + o_e_phnum L) 2 \<and> sep (fld k) 8 (ehdr + o_e_phentsize L) 2
        \<and> list_all (\<lambda>i. sep (fld k) 8 (ph_at E L m ehdr tab i + o_p_memsz L) 8) [0..<cnt]
        \<and> list_all (\<lambda>l. sep (fld k) 8 (fld l) 8) [0..<k]) [0..<2 * cnt])"

lemma phdrs64_apartD:
  assumes "phdrs64_apart E ehdr tab m" "k < 2 * ph_count (L64 E) m ehdr"
  shows "sep (hdr_field E ehdr tab m k) 8 (ehdr + o_e_phnum (L64 E)) 2"
    and "sep (hdr_field E ehdr tab m k) 8 (ehdr + o_e_phentsize (L64 E)) 2"
    and "i < ph_count (L64 E) m ehdr \<Longrightarrow> sep (hdr_field E ehdr tab m k) 8 (ph_at E (L64 E) m ehdr tab i + o_p_memsz (L64 E)) 8"
    and "l < k \<Longrightarrow> sep (hdr_field E ehdr tab m k) 8 (hdr_field E ehdr tab m l) 8"
  using assms by (auto simp: phdrs64_apart_def list_all_iff Let_def)

lemma agree_on_field: "agree_on a 2 m m' \<Longrightarrow> load16 m' a = load16 m a" "agree_on a 8 m m' \<Longrightarrow> load64 m' a = load64 m a"
  using agree_on_load(1) [of a 2 m m' a] agree_on_load(3) [of a 8 m m' a] by (simp_all add: inside_def)

definition hdrs_placed :: "elf_env \<Rightarrow> u64 \<Rightarrow> u32 \<Rightarrow> u32 \<Rightarrow> mem \<Rightarrow> nat \<Rightarrow> mem \<Rightarrow> bool" where
  "hdrs_placed E reloc ehdr tab m = placed (hdr_live E ehdr tab m) (hdr_field E ehdr tab m) (\<lambda>_. 8)
     (\<lambda>k. scalar_byte 8 (load64 m (hdr_field E ehdr tab m k) + reloc) (hdr_field E ehdr tab m k)) m"

lemma hdrs_placed_agree:
  assumes "hdrs_placed E reloc ehdr tab m j m'" "\<And>k. k < j \<Longrightarrow> sep (hdr_field E ehdr tab m k) 8 a n"
  shows "agree_on a n m m'"
  by (rule placed_agree [OF assms(1) [unfolded hdrs_placed_def] assms(2)])

lemma update_phdrs_from:
  assumes ok: "phdrs64_apart E ehdr tab m"
  shows "hdrs_placed E reloc ehdr tab m (2 * i) m' \<Longrightarrow> i \<le> ph_count (L64 E) m ehdr
    \<Longrightarrow> hdrs_placed E reloc ehdr tab m (2 * ph_count (L64 E) m ehdr) (elf64_update_phdrs E reloc ehdr tab i m')"
proof (induction "ph_count (L64 E) m ehdr - i" arbitrary: i m')
  case 0
  let ?L = "L64 E"
  have "agree_on (ehdr + o_e_phnum ?L) 2 m m'"
    using "0.prems"(2) phdrs64_apartD(1) [OF ok] by (intro hdrs_placed_agree [OF "0.prems"(1)]) simp
  then have "ph_count ?L m' ehdr = ph_count ?L m ehdr" using agree_on_field(1) by (simp add: ph_count_def e_phnum_def)
  then show ?case using 0 by (subst elf64_update_phdrs.simps) (simp add: ph_more_count)
next
  case (Suc n)
  let ?L = "L64 E" and ?fld = "hdr_field E ehdr tab m" and ?ph = "ph_at E (L64 E) m ehdr tab i"
  have i: "i < ph_count ?L m ehdr" using Suc.hyps(2) by simp
  have early: "k < 2 * ph_count ?L m ehdr" if "k < 2 * i + 2" for k using that i by linarith
  have cnt: "e_phnum ?L m' ehdr = e_phnum ?L m ehdr" "e_phentsize ?L m' ehdr = e_phentsize ?L m ehdr"
    using agree_on_field(1) [OF hdrs_placed_agree [OF Suc.prems(1)]] phdrs64_apartD(1,2) [OF ok] early by (simp_all add: e_phnum_def e_phentsize_def)
  then have same: "ph_more ?L m' ehdr i" "ph_at E ?L m' ehdr tab i = ?ph"
    using i by (simp_all add: ph_more_count ph_count_def ph_at_def)
  have sz: "p64_memsz ?L m' ?ph = p64_memsz ?L m ?ph"
    unfolding p64_memsz_def by (rule agree_on_field(2) [OF hdrs_placed_agree [OF Suc.prems(1)]]) (rule phdrs64_apartD(3) [OF ok early i], simp)
  have live: "hdr_live E ehdr tab m (2 * i) \<longleftrightarrow> p64_memsz ?L m ?ph \<noteq> 0" "hdr_live E ehdr tab m (Suc (2 * i)) \<longleftrightarrow> p64_memsz ?L m ?ph \<noteq> 0"
    by (simp_all add: hdr_live_def)
  have f: "?ph + o_p_paddr ?L = ?fld (2 * i)" "?ph + o_p_vaddr ?L = ?fld (Suc (2 * i))" by (simp_all add: hdr_field_def)
  have others: "sep (?fld k) 8 (?fld l) 8" if "k < 2 * i + 2" "l < k" for k l using phdrs64_apartD(4) [OF ok early [OF that(1)] that(2)] .
  note IH = Suc.hyps(1) [of "Suc i"]
  have two: "2 * Suc i = Suc (Suc (2 * i))" by simp
  show ?case
  proof (cases "p64_memsz ?L m ?ph = 0")
    case True
    then have "hdrs_placed E reloc ehdr tab m (Suc (Suc (2 * i))) m'"
      using Suc.prems(1) live unfolding hdrs_placed_def by (intro placed_skip) simp_all
    moreover have "elf64_update_phdrs E reloc ehdr tab i m' = elf64_update_phdrs E reloc ehdr tab (Suc i) m'"
      using same sz True by (subst elf64_update_phdrs.simps) (simp add: Let_def)
    ultimately show ?thesis using IH Suc.hyps(2) i two by simp
  next
    case False
    define m1 where "m1 = store64 (?fld (2 * i)) (load64 m (?fld (2 * i)) + reloc) m'"
    define m2 where "m2 = store64 (?fld (Suc (2 * i))) (load64 m (?fld (Suc (2 * i))) + reloc) m1"
    have p1: "hdrs_placed E reloc ehdr tab m (Suc (2 * i)) m1"
      unfolding hdrs_placed_def
      by (rule placed_step [OF Suc.prems(1) [unfolded hdrs_placed_def]]) (use others live False in \<open>simp_all add: m1_def store_scalar\<close>)
    have p2: "hdrs_placed E reloc ehdr tab m (Suc (Suc (2 * i))) m2"
      unfolding hdrs_placed_def
      by (rule placed_step [OF p1 [unfolded hdrs_placed_def]]) (use others live False in \<open>simp_all add: m2_def store_scalar\<close>)
    have v1: "load64 m' (?fld (2 * i)) = load64 m (?fld (2 * i))"
      by (rule agree_on_field(2) [OF hdrs_placed_agree [OF Suc.prems(1)]]) (use others in \<open>simp add: sep_sym\<close>)
    have v2: "load64 m1 (?fld (Suc (2 * i))) = load64 m (?fld (Suc (2 * i)))"
      by (rule agree_on_field(2) [OF hdrs_placed_agree [OF p1]]) (use others in \<open>simp add: sep_sym\<close>)
    have "elf64_update_phdrs E reloc ehdr tab i m' = elf64_update_phdrs E reloc ehdr tab (Suc i) m2"
      using same sz False v1 v2
      by (subst elf64_update_phdrs.simps) (simp add: Let_def p64_paddr_def p64_vaddr_def f m1_def m2_def)
    then show ?thesis using IH [of m2] p2 Suc.hyps(2) i two by simp
  qed
qed

lemma update_phdrs_placed:
  assumes "phdrs64_apart E ehdr tab m"
  shows "hdrs_placed E reloc ehdr tab m (2 * ph_count (L64 E) m ehdr) (elf64_update_phdrs E reloc ehdr tab 0 m)"
  using update_phdrs_from [OF assms, of reloc 0 m] by (simp add: hdrs_placed_def)

lemma update_phdrs_fields:
  fixes reloc :: u64
  assumes ok: "phdrs64_apart E ehdr tab m" and i: "i < ph_count (L64 E) m ehdr"
    and live: "p64_memsz (L64 E) m (ph_at E (L64 E) m ehdr tab i) \<noteq> 0"
  defines "m' \<equiv> elf64_update_phdrs E reloc ehdr tab 0 m"
  shows "p64_paddr (L64 E) m' (ph_at E (L64 E) m ehdr tab i) = p64_paddr (L64 E) m (ph_at E (L64 E) m ehdr tab i) + reloc"
    and "p64_vaddr (L64 E) m' (ph_at E (L64 E) m ehdr tab i) = p64_vaddr (L64 E) m (ph_at E (L64 E) m ehdr tab i) + reloc"
proof -
  let ?fld = "hdr_field E ehdr tab m"
  have "load64 m' (?fld k) = load64 m (?fld k) + reloc" if "k div 2 = i" for k
  proof (rule load_scalar(2))
    have "k < 2 * ph_count (L64 E) m ehdr" "hdr_live E ehdr tab m k" using i live that by (auto simp: hdr_live_def)
    then show "m' x = scalar_byte 8 (load64 m (?fld k) + reloc) (?fld k) x" if "in_range (?fld k) 8 x" for x
      using update_phdrs_placed [OF ok, of reloc] that unfolding hdrs_placed_def placed_def m'_def by blast
  qed
  from this [of "2 * i"] this [of "Suc (2 * i)"] show
    "p64_paddr (L64 E) m' (ph_at E (L64 E) m ehdr tab i) = p64_paddr (L64 E) m (ph_at E (L64 E) m ehdr tab i) + reloc"
    "p64_vaddr (L64 E) m' (ph_at E (L64 E) m ehdr tab i) = p64_vaddr (L64 E) m (ph_at E (L64 E) m ehdr tab i) + reloc"
    by (simp_all add: hdr_field_def p64_paddr_def p64_vaddr_def)
qed

section \<open>The dynamic section\<close>

text \<open>The dynamic section at \<open>d\<close> as a list of \<open>n\<close> pairs of a tag and a value. Of several entries with one tag the last one counts.\<close>

definition dyn_entry :: "elf_env \<Rightarrow> mem \<Rightarrow> u32 \<Rightarrow> u64 \<times> u64" where
  "dyn_entry E m d = (load64 m (d + o_d_tag (L64 E)), load64 m (d + o_d_un (L64 E)))"

definition dyn_entries :: "elf_env \<Rightarrow> mem \<Rightarrow> u32 \<Rightarrow> nat \<Rightarrow> (u64 \<times> u64) list" where
  "dyn_entries E m d n = map (\<lambda>i. dyn_entry E m (d + of_nat i * sizeof_dyn (L64 E))) [0..<n]"

definition dyn_lookup :: "(u64 \<times> u64) list \<Rightarrow> u32 \<Rightarrow> u64 option" where
  "dyn_lookup ds tag = map_of (rev ds) (ucast tag)"

lemma dyn_entries_Suc: "dyn_entries E m d (Suc n) = dyn_entry E m d # dyn_entries E m (d + sizeof_dyn (L64 E)) n"
  by (simp add: dyn_entries_def upt_conv_Cons map_Suc_upt [symmetric] algebra_simps del: upt_Suc)

lemma dyn_lookup_Cons:
  "dyn_lookup (e # ds) tag = (case dyn_lookup ds tag of Some v \<Rightarrow> Some v | None \<Rightarrow> if fst e = ucast tag then Some (snd e) else None)"
  by (cases e) (auto simp: dyn_lookup_def map_add_def split: option.split)

lemma case_option_or:
  "(case (case x of Some v \<Rightarrow> Some v | None \<Rightarrow> y) of Some v \<Rightarrow> f v | None \<Rightarrow> z)
    = (case x of Some v \<Rightarrow> f v | None \<Rightarrow> (case y of Some v \<Rightarrow> f v | None \<Rightarrow> z))"
  by (cases x) simp_all

lemma dyn64_walk_lookup:
  assumes "distinct [DT_RELA E, DT_RELASZ E, DT_RELAENT E, DT_SYMTAB E, DT_SYMENT E]"
  shows "dyn64_walk E p_info m n d r =
    (let ds = dyn_entries E m d n; base = start_addr p_info in
     \<lparr>dyn_rela = (case dyn_lookup ds (DT_RELA E) of Some v \<Rightarrow> ucast (v + base) | None \<Rightarrow> dyn_rela r),
      dyn_rela_sz = (case dyn_lookup ds (DT_RELASZ E) of Some v \<Rightarrow> ucast v | None \<Rightarrow> dyn_rela_sz r),
      dyn_rela_entsz = (case dyn_lookup ds (DT_RELAENT E) of Some v \<Rightarrow> ucast v | None \<Rightarrow> dyn_rela_entsz r),
      dyn_symtab = (case dyn_lookup ds (DT_SYMTAB E) of Some v \<Rightarrow> ucast (v + base) | None \<Rightarrow> dyn_symtab r),
      dyn_symtab_entsz = (case dyn_lookup ds (DT_SYMENT E) of Some v \<Rightarrow> ucast v | None \<Rightarrow> dyn_symtab_entsz r)\<rparr>)"
proof (induction n arbitrary: d r)
  case 0
  then show ?case by (simp add: dyn_entries_def dyn_lookup_def)
next
  case (Suc n)
  let ?tags = "[DT_RELA E, DT_RELASZ E, DT_RELAENT E, DT_SYMTAB E, DT_SYMENT E]"
  obtain tag val where e: "dyn_entry E m d = (tag, val)" by fastforce
  then have tv: "load64 m (d + o_d_tag (L64 E)) = tag" "load64 m (d + o_d_un (L64 E)) = val" by (simp_all add: dyn_entry_def)
  have inj: "(ucast a :: u64) = ucast b \<longleftrightarrow> a = b" for a b :: u32 using ucast_up_down by metis
  have ne: "DT_RELASZ E \<noteq> DT_RELA E" "DT_RELAENT E \<noteq> DT_RELA E" "DT_SYMTAB E \<noteq> DT_RELA E" "DT_SYMENT E \<noteq> DT_RELA E"
    "DT_RELAENT E \<noteq> DT_RELASZ E" "DT_SYMTAB E \<noteq> DT_RELASZ E" "DT_SYMENT E \<noteq> DT_RELASZ E"
    "DT_SYMTAB E \<noteq> DT_RELAENT E" "DT_SYMENT E \<noteq> DT_RELAENT E" "DT_SYMENT E \<noteq> DT_SYMTAB E" using assms by auto
  note step = Suc Let_def dyn_entries_Suc dyn_lookup_Cons dyn64_entry_def e tv case_option_or inj
  consider "tag = ucast (DT_RELA E)" | "tag = ucast (DT_RELASZ E)" | "tag = ucast (DT_RELAENT E)" | "tag = ucast (DT_SYMTAB E)"
    | "tag = ucast (DT_SYMENT E)" | "list_all (\<lambda>t. tag \<noteq> ucast t) ?tags" by auto
  then show ?case by cases (simp_all add: step ne ne [symmetric] cong: option.case_cong)
qed

text \<open>
  An image with relative relocations: its dynamic section, described by the header \<open>ph\<close>, lies in the image (the memory is \<open>m0\<close>) and names a table of \<open>n\<close>
  entries, which after loading at \<open>target\<close> (the memory is \<open>m1\<close>) is found at \<open>rela\<close> and consists of relative relocations for the offset \<open>off\<close>.
\<close>

definition dynamic64_ok :: "elf_env \<Rightarrow> mem_image_access \<Rightarrow> u64 \<Rightarrow> u32 \<Rightarrow> u32 \<Rightarrow> mem \<Rightarrow> mem \<Rightarrow> u32 \<Rightarrow> nat \<Rightarrow> bool" where
  "dynamic64_ok E im off target ph m0 m1 rela n \<longleftrightarrow>
     (let L = L64 E; at = ucast (p64_offset L m0 ph) :: u32; sz = ucast (p64_filesz L m0 ph) :: u32; d = image im + at;
          cnt = unat (sz div sizeof_dyn L); ds = dyn_entries E m0 d cnt; esz = sizeof_rela L in
      distinct [DT_RELA E, DT_RELASZ E, DT_RELAENT E, DT_SYMTAB E, DT_SYMENT E]
      \<and> unat at + unat sz \<le> unat (image_size im)
      \<and> list_all (\<lambda>i. inside (d + of_nat i * sizeof_dyn L + o_d_tag L) 8 (image im) (unat (image_size im))
          \<and> inside (d + of_nat i * sizeof_dyn L + o_d_un L) 8 (image im) (unat (image_size im))) [0..<cnt]
      \<and> map_option (\<lambda>v. ucast (v + ucast target)) (dyn_lookup ds (DT_RELA E)) = Some rela \<and> rela \<noteq> 0
      \<and> map_option (\<lambda>v. unat (ucast v :: u32)) (dyn_lookup ds (DT_RELASZ E)) = Some (n * unat esz)
      \<and> 0 < n \<and> 0 < unat esz \<and> n * unat esz < 2 ^ 31
      \<and> map_option ucast (dyn_lookup ds (DT_RELAENT E)) = Some esz
      \<and> map_option ucast (dyn_lookup ds (DT_SYMENT E)) = Some (sizeof_sym L)
      \<and> (case dyn_lookup ds (DT_SYMTAB E) of None \<Rightarrow> False | Some v \<Rightarrow> (ucast (v + ucast target) :: u32) \<noteq> 0)
      \<and> relative64_ok E off rela (n * unat esz) n m1)"

lemma sint_small: "unat (w :: u32) < 2 ^ 31 \<Longrightarrow> sint w = int (unat w)"
proof -
  assume "unat w < 2 ^ 31"
  then have "int (unat w) < int (2 ^ 31)" by (simp only: of_nat_less_iff)
  then have "uint w < 2 ^ 31" by simp
  moreover have "- (2 ^ 31) \<le> uint w" by (rule order_trans [OF _ uint_ge_0]) simp
  ultimately have "signed_take_bit 31 (uint w) = uint w" by (intro signed_take_bit_int_eq_self)
  then show ?thesis by (simp add: sint_uint)
qed

lemma signed_count_exact:
  assumes "unat sz = n * unat esz" "0 < unat esz" "n * unat esz < 2 ^ 31" "0 < n"
  shows "signed_count sz esz = n"
proof -
  have "unat esz \<le> n * unat esz" using assms(4) by simp
  then have "unat esz < 2 ^ 31" using assms(3) by (rule le_less_trans)
  then have "sint sz = int (n * unat esz)" "sint esz = int (unat esz)"
    using assms(1,3) sint_small [of sz] sint_small [of esz] by simp_all
  moreover have "int (n * unat esz) > 0" "int (unat esz) > 0" using assms(2,4) by (simp_all only: of_nat_0_less_iff nat_0_less_mult_iff)
  moreover have "int (n * unat esz) div int (unat esz) = int n" using assms(2) by (simp only: zdiv_int [symmetric]) simp
  ultimately show ?thesis by (simp only: signed_count_def not_less [symmetric] if_False simp_thms nat_int)
qed

lemma relative64_cong:
  assumes "relative64_ok E off rela tn n m" "agree_on rela tn m m'" "i < n"
  shows "rela64_target E off rela m' i = rela64_target E off rela m i" "rela64_value E off rela m' i = rela64_value E off rela m i"
    "load64 m' (rela64_at E rela i + o_rela_info (L64 E)) = load64 m (rela64_at E rela i + o_rela_info (L64 E))"
proof -
  have "inside (rela64_at E rela i + k) 8 rela tn" if "k \<in> {o_rela_offset (L64 E), o_rela_info (L64 E), o_rela_addend (L64 E)}" for k
    using assms(1,3) that by (auto simp: relative64_ok_def list_all_iff Let_def)
  from agree_on_load(3) [OF assms(2) this] show "rela64_target E off rela m' i = rela64_target E off rela m i"
    "rela64_value E off rela m' i = rela64_value E off rela m i"
    "load64 m' (rela64_at E rela i + o_rela_info (L64 E)) = load64 m (rela64_at E rela i + o_rela_info (L64 E))"
    by (simp_all add: rela64_target_def rela64_value_def)
qed

lemma relative64_ok_cong:
  assumes "relative64_ok E off rela tn n m" "agree_on rela tn m m'"
  shows "relative64_ok E off rela tn n m'"
  using assms(1) relative64_cong [OF assms] unfolding relative64_ok_def by (simp add: list_all_iff Let_def)

lemma dyn_entries_cong:
  assumes "agree_on a len m m'" "list_all (\<lambda>i. inside (d + of_nat i * sizeof_dyn (L64 E) + o_d_tag (L64 E)) 8 a len
      \<and> inside (d + of_nat i * sizeof_dyn (L64 E) + o_d_un (L64 E)) 8 a len) [0..<n]"
  shows "dyn_entries E m' d n = dyn_entries E m d n"
  using assms(2) agree_on_load(3) [OF assms(1)] by (simp add: dyn_entries_def dyn_entry_def list_all_iff)

lemma do_relocation_relative:
  assumes im: "im = mem_image_create_ex img sz" and dyn: "dynamic64_ok E im off target ph m0 m1 rela n"
    and ag: "agree_on (image im) (unat (image_size im)) m0 m2" and hdr: "phdr64_inside E im ph"
    and tab: "agree_on rela (n * unat (sizeof_rela (L64 E))) m1 m2"
    and info: "start_addr p_info = ucast target" "relocation_offset p_info = off"
  shows "\<exists>m3. elf64_do_relocation E im p_info ph m2 = (MON_OK, m3)
    \<and> (\<forall>i < n. load64 m3 (rela64_target E off rela m1 i) = rela64_value E off rela m1 i)
    \<and> (\<forall>x. (\<forall>i < n. \<not> in_range (rela64_target E off rela m1 i) 8 x) \<longrightarrow> m3 x = m2 x)"
proof -
  let ?L = "L64 E" and ?esz = "sizeof_rela (L64 E)"
  let ?at = "ucast (p64_offset ?L m0 ph) :: u32" and ?sz = "ucast (p64_filesz ?L m0 ph) :: u32"
  let ?d = "image im + ?at" and ?cnt = "unat (?sz div sizeof_dyn ?L)"
  let ?ds = "dyn_entries E m0 ?d ?cnt"
  note D = dyn [unfolded dynamic64_ok_def Let_def]
  have same: "p64_offset ?L m2 ph = p64_offset ?L m0 ph" "p64_filesz ?L m2 ph = p64_filesz ?L m0 ph"
    "dyn_entries E m2 ?d ?cnt = ?ds"
    using agree_phdr64 [OF ag hdr] dyn_entries_cong [OF ag] D by simp_all
  have map: "gen_map_to_mem (gen im) ?at ?sz = (?sz, ?d)"
    using D mem_image.map_inside [of ?at ?sz im] by (simp add: im prod_eq_iff) (simp add: mem_image_map_to_mem_def Let_def)
  obtain r where r: "dyn64_walk E p_info m2 ?cnt ?d \<lparr>dyn_rela = 0, dyn_rela_sz = 0, dyn_rela_entsz = 0, dyn_symtab = 0, dyn_symtab_entsz = 0\<rparr> = r"
    by blast
  have walk: "dyn_rela r = rela" "unat (dyn_rela_sz r) = n * unat ?esz" "dyn_rela_entsz r = ?esz" "dyn_symtab_entsz r = sizeof_sym ?L"
    "dyn_symtab r \<noteq> 0"
    using D dyn64_walk_lookup [of E p_info m2 ?cnt ?d] by (auto simp: r [symmetric] Let_def same info split: option.splits)
  have "dyn_rela_sz r \<noteq> 0" using walk(2) D by auto
  moreover have "signed_count (dyn_rela_sz r) ?esz = n" using signed_count_exact [OF walk(2)] D by simp
  ultimately have run: "elf64_do_relocation E im p_info ph m2 = reloc_loop (rela64_apply E off (dyn_symtab r)) ?esz n rela m2"
    using D walk by (simp add: elf64_do_relocation_def Let_def same map r info)
  have ok: "relative64_ok E off rela (n * unat ?esz) n m1" using D by simp
  note c = relative64_cong [OF ok tab]
  from rela64_relative_run [OF relative64_ok_cong [OF ok tab], of "dyn_symtab r"] show ?thesis unfolding run by (simp add: c)
qed

section \<open>The whole image\<close>

text \<open>
  Either there is no dynamic section, or the last header of one describes \<open>n\<close> relative relocations.
\<close>

definition relocs64_ok :: "elf_env \<Rightarrow> mem_image_access \<Rightarrow> u64 \<Rightarrow> u32 \<Rightarrow> u32 list \<Rightarrow> mem \<Rightarrow> mem \<Rightarrow> u32 \<Rightarrow> nat \<Rightarrow> bool" where
  "relocs64_ok E im off target phs m0 m1 rela n \<longleftrightarrow>
     (if phs = [] then n = 0 else last phs \<noteq> 0 \<and> dynamic64_ok E im off target (last phs) m0 m1 rela n)"

text \<open>The address fields of the copied headers meet neither the image nor the relocation table nor a target of a relocation.\<close>

definition hdrs64_clear :: "elf_env \<Rightarrow> mem_image_access \<Rightarrow> u64 \<Rightarrow> u32 \<Rightarrow> u32 \<Rightarrow> mem \<Rightarrow> u32 \<Rightarrow> nat \<Rightarrow> bool" where
  "hdrs64_clear E im off ehdr tab m rela n \<longleftrightarrow> phdrs64_apart E ehdr tab m
     \<and> list_all (\<lambda>k. let f = hdr_field E ehdr tab m k in
          (0 < n \<longrightarrow> sep f 8 (image im) (unat (image_size im)) \<and> sep f 8 rela (n * unat (sizeof_rela (L64 E))))
          \<and> list_all (\<lambda>i. sep (rela64_target E off rela m i) 8 f 8) [0..<n]) [0..<2 * ph_count (L64 E) m ehdr]"

text \<open>
  A memory \<open>m3\<close> in which the image that stands at \<open>ehdr\<close> in \<open>m1\<close> has been moved by \<open>off\<close>: the headers of a non-empty segment show
  the addresses it has now, each target of a relocation shows the addend plus \<open>off\<close>, and every other byte is as in \<open>m1\<close>.
\<close>

definition moved64 :: "elf_env \<Rightarrow> u64 \<Rightarrow> u32 \<Rightarrow> u32 \<Rightarrow> u32 \<Rightarrow> nat \<Rightarrow> mem \<Rightarrow> mem \<Rightarrow> bool" where
  "moved64 E off ehdr tab rela n m1 m3 \<longleftrightarrow>
     (\<forall>i < ph_count (L64 E) m1 ehdr. let ph = ph_at E (L64 E) m1 ehdr tab i in p64_memsz (L64 E) m1 ph \<noteq> 0 \<longrightarrow>
        p64_paddr (L64 E) m3 ph = p64_paddr (L64 E) m1 ph + off \<and> p64_vaddr (L64 E) m3 ph = p64_vaddr (L64 E) m1 ph + off)
     \<and> (\<forall>i < n. load64 m3 (rela64_target E off rela m1 i) = rela64_value E off rela m1 i)
     \<and> (\<forall>x. (\<forall>k < 2 * ph_count (L64 E) m1 ehdr. hdr_live E ehdr tab m1 k \<longrightarrow> \<not> in_range (hdr_field E ehdr tab m1 k) 8 x)
          \<and> (\<forall>i < n. \<not> in_range (rela64_target E off rela m1 i) 8 x) \<longrightarrow> m3 x = m1 x)"

lemma update_phdrs_other:
  assumes "phdrs64_apart E ehdr tab m"
    and "\<forall>k < 2 * ph_count (L64 E) m ehdr. hdr_live E ehdr tab m k \<longrightarrow> \<not> in_range (hdr_field E ehdr tab m k) 8 x"
  shows "elf64_update_phdrs E reloc ehdr tab 0 m x = m x"
  using update_phdrs_placed [OF assms(1), of reloc] assms(2) by (auto simp: hdrs_placed_def placed_def)

lemma moved64_relocated:
  assumes clear: "hdrs64_clear E im off ehdr tab m1 rela n"
    and val: "\<forall>i < n. load64 m3 (rela64_target E off rela m1 i) = rela64_value E off rela m1 i"
    and frame: "\<forall>x. (\<forall>i < n. \<not> in_range (rela64_target E off rela m1 i) 8 x) \<longrightarrow> m3 x = elf64_update_phdrs E off ehdr tab 0 m1 x"
  shows "moved64 E off ehdr tab rela n m1 m3"
proof -
  let ?L = "L64 E" and ?m2 = "elf64_update_phdrs E off ehdr tab 0 m1" and ?fld = "hdr_field E ehdr tab m1"
  have ap: "phdrs64_apart E ehdr tab m1" using clear by (simp add: hdrs64_clear_def)
  have "load64 m3 (?fld k) = load64 ?m2 (?fld k)" if "k < 2 * ph_count ?L m1 ehdr" for k
  proof (rule agree_on_field(2))
    have "\<not> in_range (rela64_target E off rela m1 i) 8 x" if "i < n" "in_range (?fld k) 8 x" for i x
      by (rule sep_in_range [OF _ that(2)]) (use clear that(1) \<open>k < _\<close> in \<open>simp add: hdrs64_clear_def list_all_iff Let_def\<close>)
    then show "agree_on (?fld k) 8 ?m2 m3" using frame by (simp add: agree_on_def)
  qed
  from this [of "2 * i" for i] this [of "Suc (2 * i)" for i]
  have "p64_paddr ?L m3 (ph_at E ?L m1 ehdr tab i) = p64_paddr ?L ?m2 (ph_at E ?L m1 ehdr tab i)"
    "p64_vaddr ?L m3 (ph_at E ?L m1 ehdr tab i) = p64_vaddr ?L ?m2 (ph_at E ?L m1 ehdr tab i)" if "i < ph_count ?L m1 ehdr" for i
    using that by (simp_all add: hdr_field_def p64_paddr_def p64_vaddr_def)
  then show ?thesis
    using val frame update_phdrs_fields [OF ap, of _ off] update_phdrs_other [OF ap, of _ off] by (simp add: moved64_def Let_def)
qed

text \<open>Of the load parameters the placement of the segments uses the relocation offset only.\<close>

lemma loaded64_offset:
  assumes "relocation_offset p = relocation_offset q"
  shows "loaded64 E im p = loaded64 E im q" "elf64_layout_ok E im p = elf64_layout_ok E im q"
proof -
  have d: "seg64_dst E p = seg64_dst E q" using assms by (simp add: seg64_dst_def fun_eq_iff)
  then have b: "seg64_byte E im p = seg64_byte E im q" by (simp add: seg64_byte_def fun_eq_iff)
  show "loaded64 E im p = loaded64 E im q" by (intro ext, unfold loaded64_def d b) (rule refl)
  show "elf64_layout_ok E im p = elf64_layout_ok E im q" using d by (simp add: elf64_layout_ok_def seg64_ok_def fun_eq_iff)
qed

lemma loaded64_image:
  assumes "elf64_layout_ok E im p_info ehdr phdrtab m"
  shows "agree_on (image im) (unat (image_size im)) m (loaded64 E im p_info ehdr phdrtab m)"
  unfolding agree_on_def
proof (intro allI impI)
  fix x
  assume x: "in_range (image im) (unat (image_size im)) x"
  have "\<not> in_range (seg64_dst E p_info m ph) (unat (p64_memsz (L64 E) m ph)) x" if "ph \<in> set (loadable64 E m ehdr phdrtab 0)" for ph
    by (rule sep_in_range [OF _ x]) (use that elf64_layout_okD(4) [OF assms] in \<open>auto simp: loadable64_def seg64_ok_def\<close>)
  then have "find (\<lambda>ph. in_range (seg64_dst E p_info m ph) (unat (p64_memsz (L64 E) m ph)) x) (loadable64 E m ehdr phdrtab 0) = None"
    by (simp add: find_None_iff)
  then show "m x = loaded64 E im p_info ehdr phdrtab m x" by (simp add: loaded64_def)
qed

lemma load_segments_loaded:
  assumes "elf64_layout_ok E (mem_image_create_ex img sz) p_info ehdr phdrtab m"
  shows "elf64_load_segments E (mem_image_create_ex img sz) p_info ehdr phdrtab 0 d m
    = (MON_OK, last (d # dyn_phdrs64 E m ehdr phdrtab), loaded64 E (mem_image_create_ex img sz) p_info ehdr phdrtab m)"
  using seg64.loop_correct [OF assms, of d]
  by (simp add: seg64.dyn_from_def dyn_phdrs64_def fun_eq_iff seg64.loaded_def loaded64_def loadable64_def)

lemma load_executable_moved:
  fixes p_info E img sz m phdrtab
  defines "im \<equiv> mem_image_create_ex img sz"
  defines "m1 \<equiv> loaded64 E im p_info img phdrtab m"
  assumes hd: "mem_image_map_to_mem im 0 (sizeof_ehdr (L64 E)) = (sizeof_ehdr (L64 E), img)"
    and ph: "mem_image_map_to_mem im (ucast (e64_phoff (L64 E) m img)) (ucast (e_phnum (L64 E) m img) * ucast (e_phentsize (L64 E) m img))
      = (ucast (e_phnum (L64 E) m img) * ucast (e_phentsize (L64 E) m img), phdrtab)"
    and ok: "elf64_layout_ok E im p_info img phdrtab m"
    and info: "start_addr p_info = ucast target" "relocation_offset p_info = off" "\<not> copy_section_headers p_info" "\<not> copy_symbol_tables p_info"
    and tab: "tab = ucast (ucast target + e64_phoff (L64 E) m1 target)"
    and dyn: "relocs64_ok E im off target (dyn_phdrs64 E m img phdrtab) m m1 rela n"
    and clear: "hdrs64_clear E im off target tab m1 rela n"
  shows "\<exists>m3. elf64_load_executable E im p_info m = Some (MON_OK, m3) \<and> moved64 E off target tab rela n m1 m3"
proof -
  let ?phs = "dyn_phdrs64 E m img phdrtab" and ?m2 = "elf64_update_phdrs E off target tab 0 m1"
  note segs = load_segments_loaded [OF ok [unfolded im_def], of 0, folded im_def, folded m1_def]
  have ap: "phdrs64_apart E target tab m1" using clear by (simp add: hdrs64_clear_def)
  show ?thesis
  proof (cases "?phs = []")
    case True
    then have "n = 0" using dyn by (simp add: relocs64_ok_def)
    then have "moved64 E off target tab rela n m1 ?m2" by (intro moved64_relocated [OF clear]) simp_all
    moreover have "elf64_load_executable E im p_info m = Some (MON_OK, ?m2)"
      using True hd ph segs by (simp add: elf64_load_executable_def Let_def info tab im_def)
    ultimately show ?thesis by blast
  next
    case False
    have d: "last ?phs \<noteq> 0" "dynamic64_ok E im off target (last ?phs) m m1 rela n" using dyn False by (simp_all add: relocs64_ok_def)
    then have n: "0 < n" by (simp add: dynamic64_ok_def Let_def)
    have "last ?phs \<in> set ?phs" using False by simp
    then have "phdr64_inside E im (last ?phs)" using elf64_layout_okD(3) [OF ok] by (auto simp: dyn_phdrs64_def)
    moreover have "agree_on a len m1 ?m2" if "\<And>k. k < 2 * ph_count (L64 E) m1 target \<Longrightarrow> sep (hdr_field E target tab m1 k) 8 a len" for a len
      by (rule hdrs_placed_agree [OF update_phdrs_placed [OF ap]]) (rule that)
    note keep = this
    have "agree_on (image im) (unat (image_size im)) m1 ?m2" "agree_on rela (n * unat (sizeof_rela (L64 E))) m1 ?m2"
      by (rule keep, use clear n in \<open>simp add: hdrs64_clear_def list_all_iff Let_def\<close>)+
    moreover from this(1) loaded64_image [OF ok] have "agree_on (image im) (unat (image_size im)) m ?m2"
      by (simp add: agree_on_def m1_def)
    ultimately obtain m3 where m3: "elf64_do_relocation E im p_info (last ?phs) ?m2 = (MON_OK, m3)"
      "\<forall>i < n. load64 m3 (rela64_target E off rela m1 i) = rela64_value E off rela m1 i"
      "\<forall>x. (\<forall>i < n. \<not> in_range (rela64_target E off rela m1 i) 8 x) \<longrightarrow> m3 x = ?m2 x"
      using do_relocation_relative [OF im_def [THEN meta_eq_to_obj_eq] d(2)] info by blast
    have "elf64_load_executable E im p_info m = Some (MON_OK, m3)"
      using False d(1) hd ph segs m3(1) by (simp add: elf64_load_executable_def Let_def info tab im_def)
    with moved64_relocated [OF clear m3(2,3)] show ?thesis by blast
  qed
qed

section \<open>A position-independent image\<close>

text \<open>
  An image of \<^verbatim>\<open>0x120\<close> bytes at \<^verbatim>\<open>0x5000\<close>, linked at address 0. Its one loadable segment is the whole file, headers included, with eight
  bytes of zeros behind it; the dynamic section at offset \<^verbatim>\<open>0xB0\<close> names one relative relocation, for offset \<^verbatim>\<open>0x118\<close> with the addend \<^verbatim>\<open>0x40\<close>.
\<close>

definition pie_elf64_mem :: mem where
  "pie_elf64_mem = (\<lambda>_. 0)(
     0x5000 := 0x7F, 0x5001 := 0x45, 0x5002 := 0x4C, 0x5003 := 0x46, 0x5004 := 0x2,
     0x5005 := 0x1, 0x5006 := 0x1, 0x5010 := 0x3, 0x5012 := 0x3E, 0x5014 := 0x1,
     0x5018 := 0x20, 0x5020 := 0x40, 0x5034 := 0x40, 0x5036 := 0x38, 0x5038 := 0x2, 0x503A := 0x40,
     0x5040 := 0x1, 0x5044 := 0x5, 0x5060 := 0x20, 0x5061 := 0x1, 0x5068 := 0x28, 0x5069 := 0x1,
     0x5078 := 0x2, 0x5080 := 0xB0, 0x5088 := 0xB0, 0x5090 := 0xB0, 0x5098 := 0x50, 0x50A0 := 0x50,
     0x50B0 := 0x7, 0x50B9 := 0x1, 0x50C0 := 0x8, 0x50C8 := 0x18, 0x50D0 := 0x9, 0x50D8 := 0x18,
     0x50E0 := 0x6, 0x50E8 := 0x20, 0x50F0 := 0xB, 0x50F8 := 0x18,
     0x5100 := 0x18, 0x5101 := 0x1, 0x5108 := 0x8, 0x5110 := 0x40, 0x5118 := 0xAA)"

definition pie_info :: elf_load_info where
  "pie_info = no_info\<lparr>machine_type := 62, end_addr := 0x128, entry_addr := 0x20\<rparr>"

definition pie_loaded :: mem where
  "pie_loaded = loaded64 std_elf (mem_image_create_ex 0x5000 0x120) (pie_info\<lparr>relocation_offset := 0x9000\<rparr>) 0x5000 0x5040 pie_elf64_mem"

lemma pie_fields:
  "e_type std_L64 pie_elf64_mem 0x5000 = 3" "e_phnum std_L64 pie_elf64_mem 0x5000 = 2" "e_phentsize std_L64 pie_elf64_mem 0x5000 = 56"
  "e64_phoff std_L64 pie_elf64_mem 0x5000 = 64" "e64_entry std_L64 pie_elf64_mem 0x5000 = 0x20"
  "p_type std_L64 pie_elf64_mem 0x5040 = 1" "p64_offset std_L64 pie_elf64_mem 0x5040 = 0" "p64_paddr std_L64 pie_elf64_mem 0x5040 = 0"
  "p64_filesz std_L64 pie_elf64_mem 0x5040 = 0x120" "p64_memsz std_L64 pie_elf64_mem 0x5040 = 0x128"
  "p_type std_L64 pie_elf64_mem 0x5078 = 2" "p64_offset std_L64 pie_elf64_mem 0x5078 = 0xB0" "p64_filesz std_L64 pie_elf64_mem 0x5078 = 0x50"
  by (simp_all add: elf_fields elf64_fields std_L64_def pie_elf64_mem_def mem_eval)

lemma pie_upt: "[0..<2] = [0, 1 :: nat]" "[0..<Suc (Suc 0)] = [0, 1]" "[0..<Suc 0] = [0]" "[0..<4] = [0, 1, 2, 3 :: nat]"
  "[0..<5] = [0, 1, 2, 3, 4 :: nat]" "[0..<3] = [0, 1, 2 :: nat]"
  by (simp_all add: upt_rec)

lemma pie_table:
  "ph_count std_L64 pie_elf64_mem 0x5000 = 2"
  "ph_at std_elf std_L64 pie_elf64_mem 0x5000 0x5040 0 = 0x5040" "ph_at std_elf std_L64 pie_elf64_mem 0x5000 0x5040 (Suc 0) = 0x5078"
  "loadable64 std_elf pie_elf64_mem 0x5000 0x5040 0 = [0x5040]" "dyn_phdrs64 std_elf pie_elf64_mem 0x5000 0x5040 = [0x5078]"
  by (simp_all add: ph_count_def ph_at_def loadable64_def loads64_def dyn_phdrs64_def dynamic64_def pie_fields std_elf_def pie_upt)

lemma pie_info_accepted:
  "elf64_get_load_info std_elf (mem_image_create_ex 0x5000 0x120)
      (no_info\<lparr>copy_section_headers := False, copy_symbol_tables := False, machine_type := EM_X86_64 std_elf\<rparr>) pie_elf64_mem
    = Some (MON_OK, pie_info)"
proof -
  have L: "L64 std_elf = std_L64" "sizeof_ehdr std_L64 = 64" by (simp_all add: std_elf_def std_L64_def)
  have "elf64_span std_elf pie_elf64_mem 0x5000 0x5040 0 (- 1) 0 = (0, 0x128)"
    by (simp add: elf64_span_fold pie_table L pie_fields p64_end_def min_def max_def)
  then show ?thesis
    by (simp add: elf64_get_load_info_def L pie_fields mem_image_map_to_mem_def Let_def) (simp add: std_elf_def no_info_def pie_info_def)
qed

lemma pie_layout:
  "elf64_layout_ok std_elf (mem_image_create_ex 0x5000 0x120) (pie_info\<lparr>relocation_offset := 0x9000\<rparr>) 0x5000 0x5040 pie_elf64_mem"
proof -
  have L: "L64 std_elf = std_L64" by (simp add: std_elf_def)
  show ?thesis
    by (simp add: elf64_layout_ok_def L Let_def pie_table pie_upt inside_def counts_inside_def phdr64_inside_def seg64_ok_def seg64_file_def
        seg64_dst_def sep_def pie_fields loads64_def) (simp add: std_L64_def std_elf_def pie_fields)
qed

lemma pie_loaded_byte:
  "pie_loaded x = (if unat (x - 0x9000) < 0x128 then if unat (x - 0x9000) < 0x120 then pie_elf64_mem (x - 0x4000) else 0 else pie_elf64_mem x)"
proof -
  have L: "L64 std_elf = std_L64" by (simp add: std_elf_def)
  show ?thesis
    by (simp add: pie_loaded_def loaded64_def pie_table L seg64_dst_def seg64_byte_def seg64_file_def pie_fields in_range_def Let_def)
qed

lemma pie_loaded_fields:
  "e_phnum std_L64 pie_loaded 0x9000 = 2" "e_phentsize std_L64 pie_loaded 0x9000 = 56" "e64_phoff std_L64 pie_loaded 0x9000 = 64"
  "p64_memsz std_L64 pie_loaded 0x9040 = 0x128" "p64_memsz std_L64 pie_loaded 0x9078 = 0x50" "p64_vaddr std_L64 pie_loaded 0x9078 = 0xB0"
  "load64 pie_loaded 0x9100 = 0x118" "load64 pie_loaded 0x9108 = 8" "load64 pie_loaded 0x9110 = 0x40"
  by (simp_all add: elf_fields elf64_fields std_L64_def mem_eval pie_loaded_byte, simp_all add: pie_elf64_mem_def)

lemma pie_loaded_table:
  "ph_count std_L64 pie_loaded 0x9000 = 2"
  "ph_at std_elf std_L64 pie_loaded 0x9000 0x9040 0 = 0x9040" "ph_at std_elf std_L64 pie_loaded 0x9000 0x9040 (Suc 0) = 0x9078"
  by (simp_all add: ph_count_def ph_at_def pie_loaded_fields std_elf_def)

lemma pie_relocation:
  "rela64_target std_elf 0x9000 0x9100 pie_loaded 0 = 0x9118" "rela64_value std_elf 0x9000 0x9100 pie_loaded 0 = 0x9040"
  by (simp_all add: rela64_target_def rela64_value_def rela64_at_def std_elf_def, simp_all add: std_L64_def pie_loaded_fields)

lemma pie_dynamic:
  "dyn_entries std_elf pie_elf64_mem 0x50B0 5 = [(7, 0x100), (8, 0x18), (9, 0x18), (6, 0x20), (11, 0x18)]"
  by (simp add: dyn_entries_def pie_upt dyn_entry_def std_elf_def std_L64_def, simp add: pie_elf64_mem_def mem_eval)

lemma pie_relocs:
  "relocs64_ok std_elf (mem_image_create_ex 0x5000 0x120) 0x9000 0x9000 [0x5078] pie_elf64_mem pie_loaded 0x9100 1"
proof -
  have L: "L64 std_elf = std_L64" "sizeof_dyn std_L64 = 16" "o_d_tag std_L64 = 0" "o_d_un std_L64 = 8" "sizeof_rela std_L64 = 24" "sizeof_sym std_L64 = 24"
    "o_rela_offset std_L64 = 0" "o_rela_info std_L64 = 8" "o_rela_addend std_L64 = 16" by (simp_all add: std_elf_def std_L64_def)
  have T: "DT_RELA std_elf = 7" "DT_RELASZ std_elf = 8" "DT_RELAENT std_elf = 9" "DT_SYMTAB std_elf = 6" "DT_SYMENT std_elf = 11"
    "R_X86_64_64 std_elf = 1" "R_X86_64_RELATIVE std_elf = 8" by (simp_all add: std_elf_def)
  have rel: "relative64_ok std_elf 0x9000 0x9100 24 (Suc 0) pie_loaded"
    by (simp add: relative64_ok_def T L rela64_at_def inside_def sep_def pie_loaded_fields pie_relocation Let_def)
  show ?thesis
    by (simp add: relocs64_ok_def dynamic64_ok_def L T pie_fields pie_dynamic rel dyn_lookup_def pie_upt inside_def Let_def)
qed

lemma pie_clear: "hdrs64_clear std_elf (mem_image_create_ex 0x5000 0x120) 0x9000 0x9000 0x9040 pie_loaded 0x9100 1"
proof -
  have L: "L64 std_elf = std_L64" "o_p_paddr std_L64 = 24" "o_p_vaddr std_L64 = 16" "o_p_memsz std_L64 = 40" "sizeof_rela std_L64 = 24"
    "o_e_phnum std_L64 = 56" "o_e_phentsize std_L64 = 54" by (simp_all add: std_elf_def std_L64_def)
  have f: "hdr_field std_elf 0x9000 0x9040 pie_loaded 0 = 0x9058" "hdr_field std_elf 0x9000 0x9040 pie_loaded (Suc 0) = 0x9050"
    "hdr_field std_elf 0x9000 0x9040 pie_loaded 2 = 0x9090" "hdr_field std_elf 0x9000 0x9040 pie_loaded 3 = 0x9088"
    by (simp_all add: hdr_field_def L pie_loaded_table)
  show ?thesis
    by (simp add: hdrs64_clear_def phdrs64_apart_def L pie_loaded_table pie_upt f pie_relocation sep_def Let_def)
qed

end
