(* ===== verification/Screen.thy ===== *)
theory Screen
  imports Loader_Memory
begin

text \<open>
  The text console, \<^verbatim>\<open>pre_os/xmon_loader/utils/screen/screen.c\<close>: the global \<open>cursor\<close> points at
  the next character cell of the VGA text buffer at \<^verbatim>\<open>0xB8000\<close>; a cell is two bytes, of which
  the console writes the character byte only.

  A C string is modelled by the list of its bytes; the first zero byte (or the end of the list)
  ends it. String literals of the loader are written \<open>lit ''...''\<close>.
\<close>

definition MAX_ROWS :: nat where "MAX_ROWS = 49"
definition MAX_COLOUMNS :: nat where "MAX_COLOUMNS = 80"
definition VGA_BASE_ADDRESS :: u32 where "VGA_BASE_ADDRESS = 0xB8000"

definition lit :: "string \<Rightarrow> u8 list" where
  "lit cs = map of_char cs"

fun clear_loop :: "nat \<Rightarrow> loader_state \<Rightarrow> loader_state" where
  "clear_loop 0 s = s"
| "clear_loop (Suc n) s =
     clear_loop n (s\<lparr>mem := store8 (cursor s) 0x20 (mem s), cursor := cursor s + 2\<rparr>)"

definition clear_screen :: "loader_state \<Rightarrow> loader_state" where
  "clear_screen s =
     (clear_loop (MAX_COLOUMNS * MAX_ROWS) (s\<lparr>cursor := VGA_BASE_ADDRESS\<rparr>))\<lparr>cursor := VGA_BASE_ADDRESS\<rparr>"

definition put_char :: "u8 \<Rightarrow> loader_state \<Rightarrow> loader_state" where
  "put_char c s =
     (if c = 10 then
        let line_number = (cursor s - VGA_BASE_ADDRESS) div of_nat (MAX_COLOUMNS * 2) + 1
        in s\<lparr>cursor := line_number * of_nat MAX_COLOUMNS * 2 + VGA_BASE_ADDRESS\<rparr>
      else s\<lparr>mem := store8 (cursor s) c (mem s), cursor := cursor s + 2\<rparr>)"

fun print_string :: "u8 list \<Rightarrow> loader_state \<Rightarrow> loader_state" where
  "print_string [] s = s"
| "print_string (c # cs) s = (if c \<noteq> 0 then print_string cs (put_char c s) else s)"

text \<open>The character of the hexadecimal digit number \<open>index\<close> (0 is the most significant).\<close>

definition hex_char :: "u32 \<Rightarrow> nat \<Rightarrow> u8" where
  "hex_char val index =
     (let character = ucast (drop_bit ((7 - index) * 4) val AND 0x0F) + 0x30
      in if character > 0x39 then character - 0x30 - 10 + 0x41 else character)"

fun print_value_loop :: "nat list \<Rightarrow> u32 \<Rightarrow> loader_state \<Rightarrow> loader_state" where
  "print_value_loop [] val s = s"
| "print_value_loop (index # is) val s =
     print_value_loop is val
       (s\<lparr>mem := store8 (cursor s) (hex_char val index) (mem s), cursor := cursor s + 2\<rparr>)"

definition print_value :: "u32 \<Rightarrow> loader_state \<Rightarrow> loader_state" where
  "print_value val s = print_value_loop [0..<8] val s"

definition print_string_value :: "u8 list \<Rightarrow> u32 \<Rightarrow> loader_state \<Rightarrow> loader_state" where
  "print_string_value string val s = print_string (lit ''\<newline>'') (print_value val (print_string string s))"

section \<open>What the console keeps\<close>

text \<open>The console writes memory and the cursor only: the heap is not its business.\<close>

definition same_heap :: "loader_state \<Rightarrow> loader_state \<Rightarrow> bool" where
  "same_heap s t \<longleftrightarrow> heap_base t = heap_base s \<and> heap_current t = heap_current s \<and> heap_tops t = heap_tops s"

lemma same_heap_refl [simp]: "same_heap s s"
  by (simp add: same_heap_def)

lemma same_heap_trans [trans]: "same_heap s t \<Longrightarrow> same_heap t u \<Longrightarrow> same_heap s u"
  by (simp add: same_heap_def)

lemma same_heap_inv: "same_heap s t \<Longrightarrow> heap_inv s \<Longrightarrow> heap_inv t"
  by (simp add: same_heap_def heap_inv_def)

lemma put_char_same_heap [frame]: "same_heap s (put_char c s)"
  by (simp add: put_char_def same_heap_def Let_def)

lemma print_string_same_heap [frame]: "same_heap s (print_string cs s)"
proof (induction cs arbitrary: s)
  case Nil
  then show ?case by simp
next
  case (Cons c cs)
  then show ?case using put_char_same_heap [of s c] same_heap_trans by auto
qed

lemma print_value_loop_same_heap [frame]: "same_heap s (print_value_loop is v s)"
proof (induction "is" arbitrary: s)
  case Nil
  then show ?case by simp
next
  case (Cons i "is")
  have "same_heap s (s\<lparr>mem := store8 (cursor s) (hex_char v i) (mem s), cursor := cursor s + 2\<rparr>)"
    by (simp add: same_heap_def)
  then show ?case using Cons same_heap_trans by auto
qed

lemma print_string_value_same_heap [frame]: "same_heap s (print_string_value cs v s)"
  unfolding print_string_value_def print_value_def
  using print_string_same_heap print_value_loop_same_heap same_heap_trans by blast

text \<open>A string is printed inside the frame buffer: a character advances the cursor by a cell, a newline by at most a row.\<close>

definition cursor_off :: "loader_state \<Rightarrow> nat" where
  "cursor_off s = unat (cursor s - VGA_BASE_ADDRESS)"

lemma put_char_cursor:
  assumes "cursor_off s + 160 < 2 ^ 32"
  shows "cursor_off (put_char c s) \<le> cursor_off s + 160"
proof (cases "c = 10")
  case True
  define o0 where "o0 = cursor s - VGA_BASE_ADDRESS"
  have o0: "unat o0 + 160 < 2 ^ 32" using assms by (simp add: cursor_off_def o0_def)
  define w where "w = o0 div 160 + 1"
  have "unat w = unat o0 div 160 + 1" using o0 by (simp add: w_def unat_word_ariths(1) unat_div)
  moreover have "unat (w * 160) \<le> unat w * 160" using unat_word_ariths(2) [of w 160] by simp
  ultimately have "unat (w * 160) \<le> unat o0 + 160" using div_mult_mod_eq [of "unat o0" 160] by linarith
  moreover have "cursor (put_char c s) - VGA_BASE_ADDRESS = w * 160"
    using True by (simp add: w_def put_char_def o0_def Let_def MAX_COLOUMNS_def)
  ultimately show ?thesis by (simp add: cursor_off_def o0_def)
next
  case False
  then have "cursor (put_char c s) - VGA_BASE_ADDRESS = cursor s - VGA_BASE_ADDRESS + 2"
    by (simp add: put_char_def)
  then have "cursor_off (put_char c s) = unat (cursor s - VGA_BASE_ADDRESS + 2)" by (simp only: cursor_off_def)
  also have "\<dots> \<le> unat (cursor s - VGA_BASE_ADDRESS) + 2" using unat_word_ariths(1) [of "cursor s - VGA_BASE_ADDRESS" 2] by simp
  finally show ?thesis by (simp add: cursor_off_def)
qed

lemma print_string_cursor:
  "cursor_off s + 160 * length cs < 2 ^ 32 \<Longrightarrow> cursor_off (print_string cs s) \<le> cursor_off s + 160 * length cs"
proof (induction cs arbitrary: s)
  case Nil
  then show ?case by simp
next
  case (Cons c cs)
  have "cursor_off (put_char c s) \<le> cursor_off s + 160" by (rule put_char_cursor) (use Cons.prems in simp)
  then show ?case using Cons.IH [of "put_char c s"] Cons.prems by auto
qed

lemma print_string_frame [frame]:
  assumes "cursor_off s + 160 * length cs \<le> B" and "B < 2 ^ 32" and "\<not> in_range VGA_BASE_ADDRESS B x"
  shows "mem (print_string cs s) x = mem s x"
  using assms(1)
proof (induction cs arbitrary: s)
  case Nil
  then show ?case by simp
next
  case (Cons c cs)
  have "cursor_off (put_char c s) \<le> cursor_off s + 160"
    by (rule put_char_cursor) (use Cons.prems assms(2) in simp)
  then have "mem (print_string cs (put_char c s)) x = mem (put_char c s) x"
    by (intro Cons.IH) (use Cons.prems in simp)
  moreover have "x \<noteq> cursor s" using assms(3) Cons.prems by (auto simp: in_range_def cursor_off_def)
  ultimately show ?case by (simp add: put_char_def store8_def Let_def)
qed

section \<open>Properties\<close>

text \<open>Reading a printed hexadecimal character back.\<close>

definition hex_digit :: "u8 \<Rightarrow> u32" where
  "hex_digit c = (if c \<le> 0x39 then ucast (c - 0x30) else ucast (c - 0x41 + 10))"

definition cell :: "loader_state \<Rightarrow> u32 \<Rightarrow> nat \<Rightarrow> u8" where
  "cell t p i = mem t (p + 2 * of_nat i)"

lemma clear_loop_apply:
  "mem (clear_loop n s) x = (if \<exists>i < n. x = cursor s + 2 * of_nat i then 0x20 else mem s x)"
proof (induction n arbitrary: s)
  case 0
  then show ?case by simp
next
  case (Suc n)
  then show ?case by (auto simp: Ex_less_Suc2 store8_def algebra_simps)
qed

lemma nibble_cases: "(d :: u32) AND 0x0F \<in> {0, 1, 2, 3, 4, 5, 6, 7, 8, 9, 10, 11, 12, 13, 14, 15}"
proof -
  have "unat (d AND 0x0F) < 16"
    using word_and_le1 [of d 15] by (simp add: word_le_nat_alt)
  then have "unat (d AND 0x0F) \<in> set [0..<16]" by simp
  then have "of_nat (unat (d AND 0x0F)) \<in> (of_nat ` set [0..<16] :: u32 set)"
    by (rule imageI)
  then have "d AND 0x0F \<in> of_nat ` set [0..<16]" by simp
  then show ?thesis by (simp add: upt_rec)
qed

lemma hex_digit_char: "hex_digit (hex_char v i) = drop_bit ((7 - i) * 4) v AND 0x0F"
  using nibble_cases [of "drop_bit ((7 - i) * 4) v"]
  by (auto simp: hex_digit_def hex_char_def Let_def)

lemma join_nibble: "push_bit 4 (drop_bit 4 w) OR (w AND 0x0F) = (w :: u32)"
proof -
  have "(0x0F :: u32) = mask 4" by (simp add: mask_numeral)
  moreover have "push_bit 4 (drop_bit 4 w) OR (w AND mask 4) = w"
    by (rule bit_word_eqI) (auto simp: bit_simps)
  ultimately show ?thesis by (simp only:)
qed

lemma nibbles_join:
  "k \<le> 8 \<Longrightarrow> foldl (\<lambda>a i. push_bit 4 a OR (drop_bit ((7 - i) * 4) v AND 0x0F)) 0 [0..<k]
     = drop_bit (4 * (8 - k)) (v :: u32)"
proof (induction k)
  case 0
  have "drop_bit 32 v = 0" by (rule bit_word_eqI) (simp add: bit_simps bit_imp_le_length)
  then show ?case by simp
next
  case (Suc k)
  have "4 * (8 - k) = 4 + 4 * (7 - k)" using Suc.prems by arith
  with Suc join_nibble [of "drop_bit (4 * (7 - k)) v"] show ?case
    by (simp add: mult.commute [of _ 4])
qed

text \<open>Cells of one screen are apart from each other.\<close>

lemma cell_address_eq:
  assumes "i < 2 ^ 31" "j < 2 ^ 31"
  shows "p + 2 * of_nat i = p + 2 * (of_nat j :: u32) \<longleftrightarrow> i = j"
proof -
  have "unat (2 * of_nat k :: u32) = 2 * k" if "k < 2 ^ 31" for k
    using that by (simp add: unat_word_ariths(2) unsigned_of_nat take_bit_nat_eq_self)
  with assms show ?thesis by (metis add_left_cancel mult_left_cancel numeral_neq_zero word_unat_eq_iff)
qed

lemma print_value_loop_other:
  "(\<forall>i < length is. x \<noteq> cursor s + 2 * of_nat i) \<Longrightarrow> mem (print_value_loop is v s) x = mem s x"
proof (induction "is" arbitrary: s)
  case Nil
  then show ?case by simp
next
  case (Cons j "is")
  then show ?case by (simp add: All_less_Suc2 store8_def algebra_simps)
qed

lemma print_value_loop_cells:
  "length is < 2 ^ 31 \<Longrightarrow> i < length is \<Longrightarrow>
   cell (print_value_loop is v s) (cursor s) i = hex_char v (is ! i)"
proof (induction "is" arbitrary: s i)
  case Nil
  then show ?case by simp
next
  case (Cons j "is")
  let ?s = "s\<lparr>mem := store8 (cursor s) (hex_char v j) (mem s), cursor := cursor s + 2\<rparr>"
  show ?case
  proof (cases i)
    case 0
    have "cursor s \<noteq> cursor s + 2 + 2 * of_nat k" if "k < length is" for k
      using cell_address_eq [of 0 "Suc k" "cursor s"] that Cons.prems(1) by (simp add: algebra_simps)
    then have "mem (print_value_loop is v ?s) (cursor s) = mem ?s (cursor s)"
      by (intro print_value_loop_other) simp
    with 0 show ?thesis by (simp add: cell_def)
  next
    case (Suc k)
    then show ?thesis
      using Cons.IH [of k ?s] Cons.prems by (simp add: cell_def algebra_simps)
  qed
qed

text \<open>
  \<^verbatim>\<open>print_value\<close> writes eight hexadecimal digits to the eight cells at the cursor, and
  reading them back gives the printed number, for every 32-bit value.
\<close>

theorem print_value_roundtrip:
  "foldl (\<lambda>a i. push_bit 4 a OR hex_digit (cell (print_value v s) (cursor s) i)) 0 [0..<8] = v"
proof -
  have "hex_digit (cell (print_value v s) (cursor s) i) = drop_bit ((7 - i) * 4) v AND 0x0F"
    if "i \<in> set [0..<8]" for i
    using that print_value_loop_cells [of "[0..<8]" i v s]
    by (simp add: print_value_def hex_digit_char)
  then have "foldl (\<lambda>a i. push_bit 4 a OR hex_digit (cell (print_value v s) (cursor s) i)) 0 [0..<8]
      = foldl (\<lambda>a i. push_bit 4 a OR (drop_bit ((7 - i) * 4) v AND 0x0F)) 0 [0..<8]"
    by (intro foldl_cong) simp_all
  then show ?thesis using nibbles_join [of 8 v] by simp
qed

text \<open>
  \<^verbatim>\<open>clear_screen\<close> blanks the first 49 rows of 80 cells and leaves the fiftieth row as it was.
\<close>

theorem clear_screen_rows:
  assumes "row < 50" and "col < 80"
  shows "cell (clear_screen s) VGA_BASE_ADDRESS (80 * row + col)
     = (if row < 49 then 0x20 else cell s VGA_BASE_ADDRESS (80 * row + col))"
proof -
  let ?x = "VGA_BASE_ADDRESS + 2 * of_nat (80 * row + col) :: u32"
  have "(\<exists>i < 3920. ?x = VGA_BASE_ADDRESS + 2 * of_nat i) \<longleftrightarrow> 80 * row + col < 3920"
    using assms cell_address_eq [of "80 * row + col" _ VGA_BASE_ADDRESS] by fastforce
  also have "\<dots> \<longleftrightarrow> row < 49" using assms by auto
  finally show ?thesis
    by (simp add: cell_def clear_screen_def MAX_COLOUMNS_def MAX_ROWS_def clear_loop_apply
        del: of_nat_add of_nat_mult)
qed

theorem clear_screen_rows_witness:
  "cell (clear_screen small_heap) VGA_BASE_ADDRESS 3919 = 0x20
   \<and> cell (clear_screen small_heap) VGA_BASE_ADDRESS 3920 = 7"
  using clear_screen_rows [of 48 79 small_heap] clear_screen_rows [of 49 0 small_heap]
  by (simp add: cell_def small_heap_def)

end
