(* ===== verification/Elf_Ld.thy ===== *)
theory Elf_Ld
  imports Elf32_Ld Elf64_Image Screen
begin

text \<open>
  The front end of the ELF loader, \<^verbatim>\<open>common/ld/elf_ld/elf_ld.c\<close>: it picks the loader of the image's class,
  computes the relocation, and reports failures on the console. The local \<^verbatim>\<open>load_info\<close> of the two
  exported functions is not initialised except for its two options; its other fields start as
  the fields of a parameter \<open>junk\<close>.
\<close>

definition elf_get_load_info ::
    "elf_env \<Rightarrow> mem_image_access \<Rightarrow> elf_load_info \<Rightarrow> mem \<Rightarrow> (mon_status \<times> elf_load_info) option" where
  "elf_get_load_info E im p_info m =
     (let (got, p_buffer) = mem_image_map_to_mem im 0 (sizeof_ehdr (L64 E)) in
      if sizeof_ehdr (L64 E) \<noteq> got then Some (MON_ERROR, p_info)
      else if elf32_header_is_valid E m p_buffer
      then elf32_get_load_info E im (p_info\<lparr>machine_type := EM_386 E\<rparr>) m
      else if elf64_header_is_valid E m p_buffer
      then elf64_get_load_info E im (p_info\<lparr>machine_type := EM_X86_64 E\<rparr>) m
      else Some (MON_ERROR, p_info))"

text \<open>The load parameters after the relocation has been computed for the target \<open>p_dest\<close>.\<close>

definition relocated :: "elf_load_info \<Rightarrow> u32 \<Rightarrow> elf_load_info" where
  "relocated p_info p_dest =
     (let off = ucast p_dest - start_addr p_info in
      p_info\<lparr>relocation_offset := off, start_addr := start_addr p_info + off,
             end_addr := end_addr p_info + off, entry_addr := entry_addr p_info + off,
             sections_addr := sections_addr p_info + off\<rparr>)"

definition elf_load_executable ::
    "elf_env \<Rightarrow> mem_image_access \<Rightarrow> elf_load_info \<Rightarrow> u32 \<Rightarrow> mem \<Rightarrow> (mon_status \<times> elf_load_info \<times> mem) option" where
  "elf_load_executable E im p_info p_dest m =
     (let p_info = relocated p_info p_dest in
      if machine_type p_info = EM_386 E then
        do { (status, m1) \<leftarrow> elf32_load_executable E im p_info m; Some (status, p_info, m1) }
      else if machine_type p_info = EM_X86_64 E then
        do { (status, m1) \<leftarrow> elf64_load_executable E im p_info m; Some (status, p_info, m1) }
      else Some (MON_ERROR, p_info, m))"

definition load_elf_image ::
    "elf_env \<Rightarrow> elf_load_info \<Rightarrow> u32 \<Rightarrow> u32 \<Rightarrow> u32 \<Rightarrow> u32 \<Rightarrow> loader_state \<Rightarrow> (bool \<times> loader_state) option" where
  "load_elf_image E junk p_image p_target imsize p_entry_point_address s =
     (let im = mem_image_create_ex p_image imsize;
          load_info = junk\<lparr>copy_section_headers := False, copy_symbol_tables := False\<rparr> in
      do {
        (status, load_info) \<leftarrow> elf_get_load_info E im load_info (mem s);
        if status \<noteq> MON_OK
        then Some (False, print_string (lit ''elf_get_load_info() failed\<newline>'') s)
        else do {
          (status, load_info, m1) \<leftarrow> elf_load_executable E im load_info p_target (mem s);
          if status \<noteq> MON_OK
          then Some (False, print_string (lit ''elf_load_executable() failed\<newline>'') (s\<lparr>mem := m1\<rparr>))
          else Some (True, s\<lparr>mem := store64 p_entry_point_address (entry_addr load_info) m1\<rparr>) } })"

section \<open>Exported interface\<close>

datatype image_info_status = IMAGE_INFO_OK | IMAGE_INFO_WRONG_PARAMS | IMAGE_INFO_WRONG_FORMAT

datatype image_machine = IMAGE_MACHINE_X86 | IMAGE_MACHINE_EM64T | IMAGE_MACHINE_OTHER

record image_info =
  info_machine :: image_machine
  load_size :: u64

text \<open>
  The struct \<^verbatim>\<open>image_info_t\<close> belongs to the core: \<open>narrow\<close> is the conversion to the type of its field
  \<^verbatim>\<open>load_size\<close>. Creating the accessor over a caller-supplied buffer never fails.
\<close>

definition get_image_info ::
    "elf_env \<Rightarrow> elf_load_info \<Rightarrow> (u64 \<Rightarrow> u64) \<Rightarrow> u32 \<Rightarrow> u32 \<Rightarrow> image_info \<Rightarrow> mem
      \<Rightarrow> (image_info_status \<times> image_info) option" where
  "get_image_info E junk narrow file_mapped_into_memory allocated_size p_image_info m =
     (let im = mem_image_create_ex file_mapped_into_memory allocated_size in
      do {
        (status, load_info) \<leftarrow> elf_get_load_info E im
           (junk\<lparr>copy_section_headers := False, copy_symbol_tables := False\<rparr>) m;
        if status \<noteq> MON_OK then Some (IMAGE_INFO_WRONG_FORMAT, p_image_info)
        else
          let info = p_image_info\<lparr>load_size := narrow (end_addr load_info - start_addr load_info)\<rparr>;
              info = (if EM_386 E = machine_type load_info then info\<lparr>info_machine := IMAGE_MACHINE_X86\<rparr> else info);
              info = (if EM_X86_64 E = machine_type load_info then info\<lparr>info_machine := IMAGE_MACHINE_EM64T\<rparr> else info)
          in Some (IMAGE_INFO_OK, info) })"

definition load_image ::
    "elf_env \<Rightarrow> elf_load_info \<Rightarrow> u32 \<Rightarrow> u32 \<Rightarrow> u32 \<Rightarrow> u32 \<Rightarrow> loader_state \<Rightarrow> (bool \<times> loader_state) option" where
  "load_image E junk file_mapped_into_memory image_base_address allocated_size p_entry_point_address s =
     load_elf_image E junk file_mapped_into_memory image_base_address allocated_size p_entry_point_address s"

lemma relocated_simps [simp]:
  "relocation_offset (relocated p t) = ucast t - start_addr p"
  "start_addr (relocated p t) = ucast t"
  "end_addr (relocated p t) = end_addr p + (ucast t - start_addr p)"
  "entry_addr (relocated p t) = entry_addr p + (ucast t - start_addr p)"
  "machine_type (relocated p t) = machine_type p"
  "copy_section_headers (relocated p t) = copy_section_headers p"
  "copy_symbol_tables (relocated p t) = copy_symbol_tables p"
  by (simp_all add: relocated_def Let_def)

section \<open>The window a load writes\<close>

lemma unat_ucast_le: "unat (ucast (w :: u64) :: u32) \<le> unat w"
  by (simp add: unsigned_ucast_eq take_bit_eq_mod)

text \<open>
  A segment between the lowest and the highest address of the image lands inside the
  window of the image's size at the target.
\<close>

lemma seg_inside_window:
  fixes low high paddr memsz :: u64
  assumes "low \<le> paddr" and "paddr + memsz \<le> high" and "unat paddr + unat memsz < 2 ^ 64"
  shows "inside (ucast (paddr + (ucast target - low))) (unat memsz) target (unat (high - low))"
proof -
  have d: "(ucast (paddr + (ucast target - low)) :: u32) - target = ucast (paddr - low)"
    using ucast_add64 [of "paddr - low" "ucast target"] by (simp add: algebra_simps)
  have "unat (paddr + memsz) = unat paddr + unat memsz" using assms(3) by (simp add: unat_word_ariths(1))
  then have "unat paddr + unat memsz \<le> unat high" using assms(2) by (simp add: word_le_nat_alt)
  moreover have "unat (paddr - low) = unat paddr - unat low" "unat low \<le> unat paddr"
    using assms(1) by (simp_all add: word_le_nat_alt unat_sub)
  moreover from this have "unat (high - low) = unat high - unat low"
    using calculation(1) by (simp add: unat_sub_if')
  ultimately show ?thesis using unat_ucast_le [of "paddr - low"] by (simp add: inside_def d)
qed

lemma loaded64_in_window:
  assumes "elf64_span E m ehdr phdrtab 0 (- 1) 0 = (low, high)"
    and "list_all (\<lambda>ph. unat (p64_paddr (L64 E) m ph) + unat (p64_memsz (L64 E) m ph) < 2 ^ 64)
      (loadable64 E m ehdr phdrtab 0)"
    and "relocation_offset p_info = ucast target - low"
    and "\<not> in_range target (unat (high - low)) x"
  shows "loaded64 E im p_info ehdr phdrtab m x = m x"
proof -
  let ?ps = "loadable64 E m ehdr phdrtab 0"
  have "\<not> in_range (seg64_dst E p_info m ph) (unat (p64_memsz (L64 E) m ph)) x" if ph: "ph \<in> set ?ps" for ph
  proof -
    have "?ps \<noteq> []" using ph by auto
    with elf64_span_MinMax [OF assms(1)]
    have lh: "low = Min (p64_paddr (L64 E) m ` set ?ps)" "high = Max (p64_end E m ` set ?ps)" by simp_all
    have "low \<le> p64_paddr (L64 E) m ph" "p64_end E m ph \<le> high"
      unfolding lh by (rule Min_le Max_ge; use ph in simp)+
    with seg_inside_window [of low "p64_paddr (L64 E) m ph" "p64_memsz (L64 E) m ph" high target]
    have "inside (seg64_dst E p_info m ph) (unat (p64_memsz (L64 E) m ph)) target (unat (high - low))"
      using assms(2,3) ph by (simp add: list_all_iff p64_end_def seg64_dst_def)
    with assms(4) inside_in_range show ?thesis by blast
  qed
  then have "find (\<lambda>ph. in_range (seg64_dst E p_info m ph) (unat (p64_memsz (L64 E) m ph)) x) ?ps = None"
    by (simp add: find_None_iff)
  then show ?thesis by (simp add: loaded64_def)
qed

text \<open>What an accepted image tells about the scan of its headers.\<close>

lemma load_info_accepted:
  assumes "elf64_get_load_info E (mem_image_create_ex img sz) p m = Some (MON_OK, info)"
    and "\<not> copy_section_headers p" "\<not> copy_symbol_tables p"
  shows "elf64_span E m img (img + ucast (e64_phoff (L64 E) m img)) 0 (- 1) 0 = (start_addr info, end_addr info)"
    and "machine_type info = machine_type p" "\<not> copy_section_headers info" "\<not> copy_symbol_tables info"
    and "mem_image_map_to_mem (mem_image_create_ex img sz) (ucast (e64_phoff (L64 E) m img))
        (ucast (e_phnum (L64 E) m img) * ucast (e_phentsize (L64 E) m img)) =
      (ucast (e_phnum (L64 E) m img) * ucast (e_phentsize (L64 E) m img), img + ucast (e64_phoff (L64 E) m img))"
  using assms by (auto simp: elf64_get_load_info_def mem_image_map_to_mem_def Let_def split: if_splits prod.splits)

text \<open>
  C12. For an image that \<^verbatim>\<open>elf64_get_load_info\<close> accepts and whose segments are well laid out for the target, the segment loop of
  \<^verbatim>\<open>elf64_load_executable\<close> succeeds and writes only the window at the target: from \<open>target\<close> on, as many bytes as lie between the
  reported start and end. (Segment ends must not wrap around 64 bits.)
\<close>

theorem elf64_segments_in_window:
  fixes E img sz p m info target
  defines "im \<equiv> mem_image_create_ex img sz" and "phdrtab \<equiv> img + ucast (e64_phoff (L64 E) m img)"
  assumes "elf64_get_load_info E im p m = Some (MON_OK, info)"
    and "\<not> copy_section_headers p" and "\<not> copy_symbol_tables p"
    and "elf64_layout_ok E im (relocated info target) img phdrtab m"
    and "list_all (\<lambda>ph. unat (p64_paddr (L64 E) m ph) + unat (p64_memsz (L64 E) m ph) < 2 ^ 64) (loadable64 E m img phdrtab 0)"
  shows "\<exists>dyn m'. elf64_load_segments E im (relocated info target) img phdrtab 0 0 m = (MON_OK, dyn, m')
    \<and> (\<forall>x. \<not> in_range target (unat (end_addr info - start_addr info)) x \<longrightarrow> m' x = m x)"
proof -
  have "loaded64 E im (relocated info target) img phdrtab m x = m x" if "\<not> in_range target (unat (end_addr info - start_addr info)) x" for x
    using loaded64_in_window [OF load_info_accepted(1) [OF assms(3) [unfolded im_def] assms(4,5)] assms(7) [unfolded phdrtab_def] _ that]
    by (simp add: phdrtab_def)
  with load_segments_loaded [OF assms(6) [unfolded im_def]] show ?thesis by (simp add: im_def)
qed

theorem elf64_segments_in_window_witness:
  "\<exists>dyn m'. elf64_load_segments std_elf (mem_image_create_ex 0x5000 124)
       (relocated (no_info\<lparr>start_addr := 0x8000, end_addr := 0x8004, entry_addr := 0x8001\<rparr>) 0x9000) 0x5000 0x5040 0 0 tiny_elf64_mem
     = (MON_OK, dyn, m') \<and> m' 0x9004 = tiny_elf64_mem 0x9004"
proof -
  let ?im = "mem_image_create_ex 0x5000 124" and ?info = "no_info\<lparr>start_addr := 0x8000, end_addr := 0x8004, entry_addr := 0x8001\<rparr>"
  have L: "L64 std_elf = std_L64" "sizeof_ehdr std_L64 = 64" by (simp_all add: std_elf_def std_L64_def)
  have tab: "0x5000 + ucast (e64_phoff (L64 std_elf) tiny_elf64_mem 0x5000) = (0x5040 :: u32)" by (simp add: L tiny_elf64_fields)
  have sp: "elf64_span std_elf tiny_elf64_mem 0x5000 0x5040 0 (- 1) 0 = (0x8000, 0x8004)"
    by (simp add: elf64_span_fold tiny_elf64_table L tiny_elf64_fields p64_end_def min_def max_def)
  have info: "elf64_get_load_info std_elf ?im no_info tiny_elf64_mem = Some (MON_OK, ?info)"
    by (simp add: elf64_get_load_info_def L tiny_elf64_fields mem_image_map_to_mem_def Let_def sp) (simp add: std_elf_def no_info_def)
  have ok: "elf64_layout_ok std_elf ?im (relocated ?info 0x9000) 0x5000 0x5040 tiny_elf64_mem"
    by (simp add: elf64_layout_ok_def L Let_def tiny_elf64_table tiny_elf64_fields inside_def counts_inside_def
        phdr64_inside_def seg64_ok_def seg64_file_def seg64_dst_def sep_def)
      (simp add: std_L64_def std_elf_def)
  have nowrap: "list_all (\<lambda>ph. unat (p64_paddr (L64 std_elf) tiny_elf64_mem ph) + unat (p64_memsz (L64 std_elf) tiny_elf64_mem ph) < 2 ^ 64)
      (loadable64 std_elf tiny_elf64_mem 0x5000 0x5040 0)" by (simp add: tiny_elf64_table L tiny_elf64_fields)
  have flags: "\<not> copy_section_headers no_info" "\<not> copy_symbol_tables no_info" by (simp_all add: no_info_def)
  obtain dyn m' where run: "elf64_load_segments std_elf ?im (relocated ?info 0x9000) 0x5000 0x5040 0 0 tiny_elf64_mem = (MON_OK, dyn, m')"
    and frame: "\<forall>x. \<not> in_range 0x9000 (unat (end_addr ?info - start_addr ?info)) x \<longrightarrow> m' x = tiny_elf64_mem x"
    using elf64_segments_in_window [OF info flags, unfolded tab, OF ok nowrap] by blast
  from frame have "m' 0x9004 = tiny_elf64_mem 0x9004" by (simp add: in_range_def)
  with run show ?thesis by blast
qed

text \<open>
  C9. Loading a well-laid-out 64-bit image, with or without relative relocations, succeeds. \<^verbatim>\<open>load_image\<close> stores the relocated entry point in a memory
  \<open>m3\<close>, leaving the heap and the console as they were. Against the memory \<open>m1\<close>, in which each segment's bytes stand at their place
  for the target, \<open>m3\<close> differs as follows: in the copied program headers the two addresses of every non-empty segment are larger by the offset, each
  relocation target holds its addend plus the offset, and all other bytes are those of \<open>m1\<close>.
\<close>

theorem load_image_elf64:
  assumes "sizeof_ehdr (L64 E) \<le> sz" and "\<not> elf32_header_is_valid E (mem s) img"
    and "elf64_header_is_valid E (mem s) img" and "EM_386 E \<noteq> EM_X86_64 E"
    and info: "elf64_get_load_info E (mem_image_create_ex img sz)
      (junk\<lparr>copy_section_headers := False, copy_symbol_tables := False, machine_type := EM_X86_64 E\<rparr>) (mem s)
      = Some (MON_OK, info)"
    and tab0: "tab0 = img + ucast (e64_phoff (L64 E) (mem s) img)" and off: "off = ucast target - start_addr info"
    and ok: "elf64_layout_ok E (mem_image_create_ex img sz) (info\<lparr>relocation_offset := off\<rparr>) img tab0 (mem s)"
    and m1: "m1 = loaded64 E (mem_image_create_ex img sz) (info\<lparr>relocation_offset := off\<rparr>) img tab0 (mem s)"
    and tab: "tab = ucast (ucast target + e64_phoff (L64 E) m1 target)"
    and dyn: "relocs64_ok E (mem_image_create_ex img sz) off target (dyn_phdrs64 E (mem s) img tab0) (mem s) m1 rela n"
    and clear: "hdrs64_clear E (mem_image_create_ex img sz) off target tab m1 rela n"
  shows "\<exists>m3. load_image E junk img target sz p_entry s = Some (True, s\<lparr>mem := store64 p_entry (entry_addr info + off) m3\<rparr>)
    \<and> moved64 E off target tab rela n m1 m3"
proof -
  let ?im = "mem_image_create_ex img sz" and ?L = "L64 E" and ?p = "relocated info target"
  have hd: "mem_image_map_to_mem ?im 0 (sizeof_ehdr ?L) = (sizeof_ehdr ?L, img)"
    using assms(1) by (simp add: mem_image_map_to_mem_def Let_def linorder_not_less [symmetric])
  have acc: "elf_get_load_info E ?im (junk\<lparr>copy_section_headers := False, copy_symbol_tables := False\<rparr>) (mem s)
      = Some (MON_OK, info)"
    using assms(2,3) info hd by (simp add: elf_get_load_info_def)
  note I = load_info_accepted [OF info, simplified]
  have "relocation_offset (info\<lparr>relocation_offset := off\<rparr>) = relocation_offset ?p" using off by simp
  note same = loaded64_offset [OF this]
  have m1': "m1 = loaded64 E ?im ?p img tab0 (mem s)" using m1 same by simp
  have at: "start_addr ?p = ucast target" "relocation_offset ?p = off" "\<not> copy_section_headers ?p" "\<not> copy_symbol_tables ?p"
    using I(3,4) off by simp_all
  obtain m3 where run: "elf64_load_executable E ?im ?p (mem s) = Some (MON_OK, m3)" and m3: "moved64 E off target tab rela n m1 m3"
    using load_executable_moved [OF hd I(5) [folded tab0] ok [unfolded same] at, folded m1', OF tab dyn clear] by blast
  have "load_image E junk img target sz p_entry s = Some (True, s\<lparr>mem := store64 p_entry (entry_addr info + off) m3\<rparr>)"
    using assms(4) I(2) by (simp add: load_image_def load_elf_image_def acc elf_load_executable_def Let_def run off)
  with m3 show ?thesis by blast
qed

theorem load_image_elf64_witness:
  "\<exists>s'. load_image std_elf no_info 0x5000 0x9000 0x120 0xA000 (small_heap\<lparr>mem := pie_elf64_mem\<rparr>) = Some (True, s')
    \<and> load64 (mem s') 0xA000 = 0x9020 \<and> load64 (mem s') 0x9118 = 0x9040 \<and> p64_vaddr std_L64 (mem s') 0x9078 = 0x90B0"
proof -
  let ?s = "small_heap\<lparr>mem := pie_elf64_mem\<rparr>" and ?im = "mem_image_create_ex 0x5000 0x120"
  have L: "L64 std_elf = std_L64" by (simp add: std_elf_def)
  have hdr: "sizeof_ehdr (L64 std_elf) \<le> 0x120" "\<not> elf32_header_is_valid std_elf (mem ?s) 0x5000"
    "elf64_header_is_valid std_elf (mem ?s) 0x5000" "EM_386 std_elf \<noteq> EM_X86_64 std_elf"
    by (simp_all add: elf32_header_is_valid_def elf64_header_is_valid_def elf_fields std_elf_def std_L64_def std_L32_def
        pie_elf64_mem_def mem_eval)
  have tab0: "0x5040 = 0x5000 + (ucast (e64_phoff (L64 std_elf) (mem ?s) 0x5000) :: u32)" by (simp add: L pie_fields)
  have off: "0x9000 = ucast (0x9000 :: u32) - start_addr pie_info" by (simp add: pie_info_def no_info_def)
  have tab: "0x9040 = ucast (ucast (0x9000 :: u32) + e64_phoff (L64 std_elf) pie_loaded 0x9000)" by (simp add: L pie_loaded_fields)
  have ok: "elf64_layout_ok std_elf ?im (pie_info\<lparr>relocation_offset := 0x9000\<rparr>) 0x5000 0x5040 (mem ?s)"
    and info: "elf64_get_load_info std_elf ?im (no_info\<lparr>copy_section_headers := False, copy_symbol_tables := False,
      machine_type := EM_X86_64 std_elf\<rparr>) (mem ?s) = Some (MON_OK, pie_info)"
    and m1: "pie_loaded = loaded64 std_elf ?im (pie_info\<lparr>relocation_offset := 0x9000\<rparr>) 0x5000 0x5040 (mem ?s)"
    and dyn: "relocs64_ok std_elf ?im 0x9000 0x9000 (dyn_phdrs64 std_elf (mem ?s) 0x5000 0x5040) (mem ?s) pie_loaded 0x9100 1"
    using pie_layout pie_info_accepted pie_relocs by (simp_all add: pie_loaded_def pie_table)
  obtain m3 where run: "load_image std_elf no_info 0x5000 0x9000 0x120 0xA000 ?s
      = Some (True, ?s\<lparr>mem := store64 0xA000 (entry_addr pie_info + 0x9000) m3\<rparr>)"
    and moved: "moved64 std_elf 0x9000 0x9000 0x9040 0x9100 1 pie_loaded m3"
    using load_image_elf64 [OF hdr info tab0 off ok m1 tab dyn pie_clear] by blast
  have "load64 m3 0x9118 = 0x9040" using moved pie_relocation unfolding moved64_def by fastforce
  moreover have "p64_vaddr std_L64 m3 0x9078 = 0x90B0"
    using moved unfolding moved64_def by (auto simp: L pie_loaded_table pie_loaded_fields Let_def dest!: spec [of _ "Suc 0"])
  moreover have "o_p_vaddr std_L64 = 16" "entry_addr pie_info = 0x20" by (simp_all add: std_L64_def pie_info_def)
  ultimately show ?thesis using run by (simp add: p64_vaddr_def load_after_store sep_def)
qed

end
