(* ===== verification/Boot_Info.thy ===== *)
theory Boot_Info
  imports Loader_Memory
begin

text \<open>
  The data the boot stages hand over in memory: the header of the package \<^verbatim>\<open>xmon_pkg.bin\<close> with the
  memory map computed from it (\<^verbatim>\<open>pre_os/starter/xmon_desc.h\<close>), and the multiboot information
  (\<^verbatim>\<open>pre_os/common/include/multiboot1.h\<close>). A struct is its address; each field is a load at the field's
  offset in the i386 layout, where 64-bit integers are aligned to four bytes.
\<close>

section \<open>The package descriptor and the runtime memory map\<close>

definition xmon_mem_in_mb :: "mem \<Rightarrow> u32 \<Rightarrow> u32" where "xmon_mem_in_mb m td = load32 m (td + 16)"
definition guest_count :: "mem \<Rightarrow> u32 \<Rightarrow> u32" where "guest_count m td = load32 m (td + 20)"
definition starter_start :: "mem \<Rightarrow> u32 \<Rightarrow> u32" where "starter_start m td = load32 m (td + 32)"
definition starter_count :: "mem \<Rightarrow> u32 \<Rightarrow> u32" where "starter_count m td = load32 m (td + 36)"
definition xmon_loader_start :: "mem \<Rightarrow> u32 \<Rightarrow> u32" where "xmon_loader_start m td = load32 m (td + 40)"
definition xmon_loader_count :: "mem \<Rightarrow> u32 \<Rightarrow> u32" where "xmon_loader_count m td = load32 m (td + 44)"
definition startap_start :: "mem \<Rightarrow> u32 \<Rightarrow> u32" where "startap_start m td = load32 m (td + 48)"
definition startap_count :: "mem \<Rightarrow> u32 \<Rightarrow> u32" where "startap_count m td = load32 m (td + 52)"
definition xmon_start :: "mem \<Rightarrow> u32 \<Rightarrow> u32" where "xmon_start m td = load32 m (td + 56)"
definition xmon_count :: "mem \<Rightarrow> u32 \<Rightarrow> u32" where "xmon_count m td = load32 m (td + 60)"
definition startup_start :: "mem \<Rightarrow> u32 \<Rightarrow> u32" where "startup_start m td = load32 m (td + 64)"
definition startup_count :: "mem \<Rightarrow> u32 \<Rightarrow> u32" where "startup_count m td = load32 m (td + 68)"
definition guest1_start :: "mem \<Rightarrow> u32 \<Rightarrow> u32" where "guest1_start m td = load32 m (td + 72)"
definition guest1_count :: "mem \<Rightarrow> u32 \<Rightarrow> u32" where "guest1_count m td = load32 m (td + 76)"

definition XMON_PKG_SIZE :: "mem \<Rightarrow> u32 \<Rightarrow> u32" where
  "XMON_PKG_SIZE m td = (guest1_start m td + guest1_count m td) * 512"

definition GUEST1_BASE :: "mem \<Rightarrow> u32 \<Rightarrow> u32" where
  "GUEST1_BASE m td = td + XMON_PKG_SIZE m td"

definition GUEST1_SIZE :: u32 where "GUEST1_SIZE = 0x400"

definition XMON_LOADER_BASE :: "mem \<Rightarrow> u32 \<Rightarrow> u32" where
  "XMON_LOADER_BASE m td = (GUEST1_BASE m td + GUEST1_SIZE + 0xfff) AND 0xfffff000"

definition XMON_LOADER_SIZE :: u32 where "XMON_LOADER_SIZE = 0x10000"

definition XMON_LOADER_HEAP_BASE :: "mem \<Rightarrow> u32 \<Rightarrow> u32" where
  "XMON_LOADER_HEAP_BASE m td = XMON_LOADER_BASE m td + XMON_LOADER_SIZE"

definition XMON_LOADER_HEAP_SIZE :: u32 where "XMON_LOADER_HEAP_SIZE = 0xa0000"

definition STARTAP_BASE :: "mem \<Rightarrow> u32 \<Rightarrow> u32" where
  "STARTAP_BASE m td = XMON_LOADER_HEAP_BASE m td + XMON_LOADER_HEAP_SIZE"

definition STARTAP_SIZE :: u32 where "STARTAP_SIZE = 0x3000"

definition XMON_BASE :: "mem \<Rightarrow> u32 \<Rightarrow> u32" where
  "XMON_BASE m td = STARTAP_BASE m td + STARTAP_SIZE"

definition XMON_SIZE :: "mem \<Rightarrow> u32 \<Rightarrow> u32" where
  "XMON_SIZE m td = xmon_mem_in_mb m td * 0x100000 - (XMON_BASE m td - td)"

lemmas xmon_map_sizes = GUEST1_SIZE_def XMON_LOADER_SIZE_def XMON_LOADER_HEAP_SIZE_def STARTAP_SIZE_def

lemmas xmon_map = GUEST1_BASE_def XMON_LOADER_BASE_def XMON_LOADER_HEAP_BASE_def STARTAP_BASE_def
  XMON_BASE_def XMON_SIZE_def xmon_map_sizes

section \<open>Multiboot information\<close>

definition MBI_MODULES :: u32 where "MBI_MODULES = push_bit 3 1"
definition MBI_MEMMAP :: u32 where "MBI_MEMMAP = push_bit 6 1"

definition mbi_flags :: "mem \<Rightarrow> u32 \<Rightarrow> u32" where "mbi_flags m mbi = load32 m mbi"
definition mods_count :: "mem \<Rightarrow> u32 \<Rightarrow> u32" where "mods_count m mbi = load32 m (mbi + 20)"
definition mods_addr :: "mem \<Rightarrow> u32 \<Rightarrow> u32" where "mods_addr m mbi = load32 m (mbi + 24)"
definition mmap_length :: "mem \<Rightarrow> u32 \<Rightarrow> u32" where "mmap_length m mbi = load32 m (mbi + 44)"
definition mmap_addr :: "mem \<Rightarrow> u32 \<Rightarrow> u32" where "mmap_addr m mbi = load32 m (mbi + 48)"

lemmas mbi_fields = mbi_flags_def mods_count_def mods_addr_def mmap_length_def mmap_addr_def

text \<open>A boot module, 16 bytes.\<close>

definition mod_start :: "mem \<Rightarrow> u32 \<Rightarrow> u32" where "mod_start m md = load32 m md"
definition mod_end :: "mem \<Rightarrow> u32 \<Rightarrow> u32" where "mod_end m md = load32 m (md + 4)"
definition mod_cmdline :: "mem \<Rightarrow> u32 \<Rightarrow> u32" where "mod_cmdline m md = load32 m (md + 8)"

text \<open>An entry of the memory map, 24 bytes; \<open>size\<close> counts the bytes after itself.\<close>

definition MULTIBOOT_MEMORY_AVAILABLE :: u32 where "MULTIBOOT_MEMORY_AVAILABLE = 1"
definition MULTIBOOT_MEMORY_RESERVED :: u32 where "MULTIBOOT_MEMORY_RESERVED = 2"

definition mm_size :: "mem \<Rightarrow> u32 \<Rightarrow> u32" where "mm_size m e = load32 m e"
definition mm_addr :: "mem \<Rightarrow> u32 \<Rightarrow> u64" where "mm_addr m e = load64 m (e + 4)"
definition mm_len :: "mem \<Rightarrow> u32 \<Rightarrow> u64" where "mm_len m e = load64 m (e + 12)"
definition mm_type :: "mem \<Rightarrow> u32 \<Rightarrow> u32" where "mm_type m e = load32 m (e + 20)"

lemmas mm_fields = mm_size_def mm_addr_def mm_len_def mm_type_def

text \<open>
  Filling an entry field by field, in the order of the C code; each value is computed from the memory
  at the moment of its assignment.
\<close>

definition mm_put :: "u32 \<Rightarrow> (mem \<Rightarrow> u32) \<Rightarrow> (mem \<Rightarrow> u64) \<Rightarrow> (mem \<Rightarrow> u64) \<Rightarrow> (mem \<Rightarrow> u32) \<Rightarrow> mem \<Rightarrow> mem" where
  "mm_put e sz addr len ty m =
     (let m1 = store32 e (sz m) m; m2 = store64 (e + 4) (addr m1) m1; m3 = store64 (e + 12) (len m2) m2
      in store32 (e + 20) (ty m3) m3)"

text \<open>A map entry as a value, and the entries that a walk by the size fields visits.\<close>

type_synonym mm_entry = "u32 \<times> u64 \<times> u64 \<times> u32"

definition mm_read :: "mem \<Rightarrow> u32 \<Rightarrow> mm_entry" where
  "mm_read m e = (mm_size m e, mm_addr m e, mm_len m e, mm_type m e)"

fun mmap_walk :: "mem \<Rightarrow> u32 \<Rightarrow> u32 \<Rightarrow> u32 list \<Rightarrow> bool" where
  "mmap_walk m nxt tab_end [] = (\<not> nxt < tab_end)"
| "mmap_walk m nxt tab_end (e # es) =
     (e = nxt \<and> nxt < tab_end \<and> mmap_walk m (nxt + mm_size m nxt + 4) tab_end es)"

lemma mm_read_cong:
  assumes "agree_on e 24 m m'"
  shows "mm_read m' e = mm_read m e" "mm_size m' e = mm_size m e" "mm_addr m' e = mm_addr m e"
    "mm_len m' e = mm_len m e" "mm_type m' e = mm_type m e"
  using agree_on_load [OF assms] by (simp_all add: mm_read_def mm_fields inside_def)

lemma mmap_walk_cong:
  assumes "mmap_walk m nxt tab_end es" and "\<And>e. e \<in> set es \<Longrightarrow> agree_on e 24 m m'"
  shows "mmap_walk m' nxt tab_end es"
  using assms
proof (induction m nxt tab_end es rule: mmap_walk.induct)
  case (2 m nxt tab_end e es)
  then have "mm_size m' nxt = mm_size m nxt" by (intro mm_read_cong) simp
  with 2 show ?case by simp
qed simp

lemma frame_agree:
  assumes "\<And>x. \<not> in_range a n x \<Longrightarrow> m' x = m x" and "sep a n b k"
  shows "agree_on b k m m'"
  using assms sep_in_range by (auto simp: agree_on_def)

text \<open>Four consecutive fields of 4, 8, 8 and 4 bytes: what is written can be read back.\<close>

lemma sub_block:
  fixes e x d :: u32
  assumes "in_range (e + d) n x" and "unat d + n \<le> k"
  shows "in_range e k x"
  using inside_in_range [of "e + d" n e k x] assms by (simp add: inside_def)

lemma not_sub_block:
  fixes e d :: u32
  shows "\<not> in_range e k x \<Longrightarrow> unat d + n \<le> k \<Longrightarrow> \<not> in_range (e + d) n x"
    and "\<not> in_range e k x \<Longrightarrow> n \<le> k \<Longrightarrow> \<not> in_range e n x"
  using sub_block in_range_mono by blast+

lemma not_in_entry:
  "\<not> in_range e 24 x \<Longrightarrow>
     \<not> in_range e 4 x \<and> \<not> in_range (e + 4) 8 x \<and> \<not> in_range (e + 12) 8 x \<and> \<not> in_range (e + 20) 4 x"
  using sub_block [of e 4 8 x 24] sub_block [of e 12 8 x 24] sub_block [of e 20 4 x 24]
    in_range_mono [of e 4 x 24] by fastforce

lemma mm_put_frame: "\<not> in_range e 24 x \<Longrightarrow> mm_put e sz addr len ty m x = m x"
  using not_in_entry [of e x] by (simp add: mm_put_def Let_def store_other)

lemma mm_put_read:
  assumes "\<And>m'. (\<And>x. \<not> in_range e 24 x \<Longrightarrow> m' x = m x) \<Longrightarrow> sz m' = s0 \<and> addr m' = a0 \<and> len m' = l0 \<and> ty m' = t0"
  shows "mm_read (mm_put e sz addr len ty m) e = (s0, a0, l0, t0)"
proof -
  let ?m1 = "store32 e s0 m"
  let ?m2 = "store64 (e + 4) a0 ?m1"
  let ?m3 = "store64 (e + 12) l0 ?m2"
  have f1: "?m1 x = m x" if "\<not> in_range e 24 x" for x
    using not_in_entry [OF that] by (simp add: store_other)
  have f2: "?m2 x = m x" if "\<not> in_range e 24 x" for x
    using not_in_entry [OF that] by (simp add: store_other)
  have f3: "?m3 x = m x" if "\<not> in_range e 24 x" for x
    using not_in_entry [OF that] by (simp add: store_other)
  have "mm_put e sz addr len ty m = store32 (e + 20) t0 ?m3"
    using assms [of m] assms [of ?m1] assms [of ?m2] assms [of ?m3] f1 f2 f3 by (simp add: mm_put_def Let_def)
  then show ?thesis by (simp add: mm_read_def mm_fields load_after_store sep_def)
qed

section \<open>Properties of the memory map\<close>

lemma unat_page_up:
  assumes "unat (a :: u32) + 4095 < 2 ^ 32"
  shows "unat ((a + 0xfff) AND 0xfffff000) = round_page (unat a)"
  using assms by (simp add: unat_and_page round_page_def unat_word_ariths(1))

text \<open>
  C31. When the package and the fixed regions fit below 4 GB, the regions follow each other in
  the order package, guest state, loader, loader heap, startap, monitor without overlap, the loader,
  startap and the monitor start on page boundaries, and the monitor's region ends exactly at the end of the
  reserved memory.
\<close>

theorem xmon_map_ordered:
  assumes "unat td + unat (XMON_PKG_SIZE m td) + 0x400 + 0xfff + 0x10000 + 0xa0000 + 0x3000 < 2 ^ 32"
  shows "unat (GUEST1_BASE m td) = unat td + unat (XMON_PKG_SIZE m td)
    \<and> unat (GUEST1_BASE m td) + unat GUEST1_SIZE \<le> unat (XMON_LOADER_BASE m td)
    \<and> unat (XMON_LOADER_HEAP_BASE m td) = unat (XMON_LOADER_BASE m td) + unat XMON_LOADER_SIZE
    \<and> unat (STARTAP_BASE m td) = unat (XMON_LOADER_HEAP_BASE m td) + unat XMON_LOADER_HEAP_SIZE
    \<and> unat (XMON_BASE m td) = unat (STARTAP_BASE m td) + unat STARTAP_SIZE
    \<and> 4096 dvd unat (XMON_LOADER_BASE m td) \<and> 4096 dvd unat (STARTAP_BASE m td) \<and> 4096 dvd unat (XMON_BASE m td)
    \<and> XMON_BASE m td + XMON_SIZE m td = td + xmon_mem_in_mb m td * 0x100000"
proof -
  have g: "unat (GUEST1_BASE m td) = unat td + unat (XMON_PKG_SIZE m td)"
    using assms by (simp add: GUEST1_BASE_def unat_word_ariths(1))
  have g': "unat (GUEST1_BASE m td + 0x400) = unat (GUEST1_BASE m td) + 0x400"
    using assms g by (simp add: unat_word_ariths(1))
  then have l: "unat (XMON_LOADER_BASE m td) = round_page (unat (GUEST1_BASE m td) + 0x400)"
    using unat_page_up [of "GUEST1_BASE m td + 0x400"] assms g
    by (simp add: XMON_LOADER_BASE_def GUEST1_SIZE_def)
  note r = round_page_bounds [of "unat (GUEST1_BASE m td) + 0x400"]
  have h: "unat (XMON_LOADER_HEAP_BASE m td) = unat (XMON_LOADER_BASE m td) + 0x10000"
    using assms g l r by (simp add: XMON_LOADER_HEAP_BASE_def XMON_LOADER_SIZE_def unat_word_ariths(1))
  have s: "unat (STARTAP_BASE m td) = unat (XMON_LOADER_HEAP_BASE m td) + 0xa0000"
    using assms g l r h by (simp add: STARTAP_BASE_def XMON_LOADER_HEAP_SIZE_def unat_word_ariths(1))
  have x: "unat (XMON_BASE m td) = unat (STARTAP_BASE m td) + 0x3000"
    using assms g l r h s by (simp add: XMON_BASE_def STARTAP_SIZE_def unat_word_ariths(1))
  have al: "4096 dvd unat (XMON_LOADER_BASE m td)" using l r(3) by simp
  have "XMON_BASE m td + XMON_SIZE m td = td + xmon_mem_in_mb m td * 0x100000"
    by (simp add: XMON_SIZE_def)
  then show ?thesis
    using g l r(1) h s x al by (simp add: xmon_map_sizes dvd_add)
qed

theorem xmon_map_ordered_witness:
  "let m = (\<lambda>_. 0)(0x100048 := 8, 0x10004C := 2, 0x100010 := 6) :: mem in
   unat (XMON_BASE m 0x100000) = unat (STARTAP_BASE m 0x100000) + 0x3000
   \<and> XMON_BASE m 0x100000 + XMON_SIZE m 0x100000 = 0x100000 + 6 * 0x100000"
proof -
  let ?m = "(\<lambda>_. 0)(0x100048 := 8, 0x10004C := 2, 0x100010 := 6) :: mem"
  have p: "XMON_PKG_SIZE ?m 0x100000 = 0x1400" "xmon_mem_in_mb ?m 0x100000 = 6"
    by (simp_all add: XMON_PKG_SIZE_def guest1_start_def guest1_count_def xmon_mem_in_mb_def mem_eval)
  show ?thesis
    using xmon_map_ordered [of "0x100000" ?m] unfolding p by (simp add: STARTAP_SIZE_def Let_def)
qed

end
