(* ===== verification/E820.thy ===== *)
theory E820
  imports Boot_Info Screen "HOL-Library.Monad_Syntax"
begin

text \<open>
  The memory-map code, \<^verbatim>\<open>pre_os/xmon_loader/e820.c\<close>. The guest startup state and the table
  \<^verbatim>\<open>int15_e820_memory_map_t\<close> are structs of the core: \<open>e820_env\<close> holds the offsets, sizes and constants the code
  uses of them, and the effect of setting the bit \<^verbatim>\<open>enabled\<close> of the extended attributes. The functions return a C
  \<^verbatim>\<open>int\<close> or a truth value with the new state, or \<open>None\<close> when a loop does not return.
\<close>

record e820_env =
  o_reg_rbx :: u32
  o_map_size :: u32
  o_entries :: u32
  sizeof_entry :: u32
  o_base :: u32
  o_length :: u32
  o_range_type :: u32
  o_ext :: u32
  set_enabled :: "u32 \<Rightarrow> u32"
  TYPE_MEMORY :: u32
  TYPE_ACPI :: u32
  TYPE_NVS :: u32
  TYPE_RESERVED :: u32

text \<open>The multiboot pointer that the starter saved in the guest's register RBX.\<close>

definition saved_mbi :: "e820_env \<Rightarrow> mem \<Rightarrow> u32 \<Rightarrow> u32" where
  "saved_mbi V m td = ucast (load64 m (GUEST1_BASE m td + o_reg_rbx V))"

section \<open>get_e820_table_from_multiboot\<close>

definition e820_entry :: "e820_env \<Rightarrow> u32 \<Rightarrow> nat \<Rightarrow> u32" where
  "e820_entry V e820 i = e820 + o_entries V + of_nat i * sizeof_entry V"

definition e820_put :: "e820_env \<Rightarrow> u32 \<Rightarrow> nat \<Rightarrow> u32 \<Rightarrow> mem \<Rightarrow> mem" where
  "e820_put V e820 i map_entry m =
     (let e = e820_entry V e820 i;
          m1 = store64 (e + o_base V) (mm_addr m map_entry) m;
          m2 = store64 (e + o_length V) (mm_len m1 map_entry) m1;
          m3 = store32 (e + o_range_type V) (mm_type m2 map_entry) m2
      in store32 (e + o_ext V) 1 m3)"

partial_function (option) e820_copy_loop ::
    "e820_env \<Rightarrow> u32 \<Rightarrow> u32 \<Rightarrow> nat \<Rightarrow> u32 \<Rightarrow> mem \<Rightarrow> (nat \<times> mem) option" where
  "e820_copy_loop V e820 tab_end i nxt m =
     (if nxt < tab_end then
        let m1 = e820_put V e820 i nxt m
        in e820_copy_loop V e820 tab_end (Suc i) (nxt + (mm_size m1 nxt + 4)) m1
      else Some (i, m))"

definition get_e820_table_from_multiboot ::
    "e820_env \<Rightarrow> (u32 \<Rightarrow> u32 \<Rightarrow> u32) \<Rightarrow> u32 \<Rightarrow> u32 \<Rightarrow> loader_state \<Rightarrow> (int \<times> loader_state) option" where
  "get_e820_table_from_multiboot V af td e820_addr s =
     (let inf = saved_mbi V (mem s) td in
      if mbi_flags (mem s) inf AND 3 = 0 \<or> mmap_length (mem s) inf > 4096 then Some (- 1, s)
      else
        let (e820, s1) = mon_page_alloc af 1 s in
        if e820 = 0 then Some (- 1, s1)
        else
          let start = mmap_addr (mem s1) inf; tab_end = start + mmap_length (mem s1) inf in
          do {
            (i, m1) \<leftarrow> e820_copy_loop V e820 tab_end 0 start (mem s1);
            let m2 = store32 (e820 + o_map_size V) (of_nat i * sizeof_entry V) m1;
            Some (0, s1\<lparr>mem := store64 e820_addr (ucast e820) m2\<rparr>) })"

section \<open>copy_e820_table_from_efi\<close>

definition copy_e820_table_from_efi ::
    "e820_env \<Rightarrow> (u32 \<Rightarrow> u32 \<Rightarrow> u32) \<Rightarrow> u32 \<Rightarrow> u32 \<Rightarrow> loader_state \<Rightarrow> int \<times> loader_state" where
  "copy_e820_table_from_efi V af td e820_addr s =
     (let inf = saved_mbi V (mem s) td; (e820, s1) = mon_page_alloc af 1 s in
      if e820 = 0 then (- 1, s1)
      else (0, s1\<lparr>mem := store64 e820_addr (ucast e820) (mon_memcpy e820 inf 4096 (mem s1))\<rparr>))"

section \<open>SFI tables\<close>

text \<open>
  The result of \<^verbatim>\<open>find_sfi_table\<close> is the address after the table's header and the size of its
  payload, or \<open>Inl ()\<close> for the return value -1. The address counter wraps around when the range reaches
  the end of the address space.
\<close>

partial_function (option) find_sfi_table ::
    "mem \<Rightarrow> u32 \<Rightarrow> u32 \<Rightarrow> u32 \<Rightarrow> u32 \<Rightarrow> u32 \<Rightarrow> (unit + u32 \<times> u32) option" where
  "find_sfi_table m addr range_end step table_level sig =
     (if addr \<le> range_end then
        let hdr = (if table_level = 0 then addr else load32 m addr) in
        if hdr \<noteq> 0 \<and> load32 m hdr = sig
        then Some (Inr (hdr + 24, load32 m (hdr + 4) - 24))
        else find_sfi_table m (addr + step) range_end step table_level sig
      else Some (Inl ()))"

definition sfi_e820_type :: "e820_env \<Rightarrow> u32 \<Rightarrow> u32" where
  "sfi_e820_type V ty =
     (if ty \<in> {1, 2, 3, 4, 5, 6, 7} then TYPE_MEMORY V
      else if ty = 9 then TYPE_ACPI V
      else if ty = 10 then TYPE_NVS V
      else TYPE_RESERVED V)"

definition SYST :: u32 where "SYST = 0x54535953"
definition MMAP :: u32 where "MMAP = 0x50414d4d"

text \<open>One descriptor (36 bytes: type, physical and virtual address, pages, attributes) into one entry.\<close>

definition sfi_put :: "e820_env \<Rightarrow> u32 \<Rightarrow> u32 \<Rightarrow> nat \<Rightarrow> mem \<Rightarrow> mem" where
  "sfi_put V e820 dsc i m =
     (let e = e820_entry V e820 i; d = dsc + of_nat i * 36;
          m1 = store64 (e + o_base V) (load64 m (d + 4)) m;
          m2 = store64 (e + o_length V) (load64 m1 (d + 20) * 0x1000) m1;
          m3 = store32 (e + o_range_type V) (sfi_e820_type V (load32 m2 d)) m2
      in store32 (e + o_ext V) (set_enabled V (load32 m3 (e + o_ext V))) m3)"

fun sfi_loop :: "e820_env \<Rightarrow> u32 \<Rightarrow> u32 \<Rightarrow> nat \<Rightarrow> nat \<Rightarrow> mem \<Rightarrow> mem" where
  "sfi_loop V e820 dsc i 0 m = m"
| "sfi_loop V e820 dsc i (Suc n) m = sfi_loop V e820 dsc (Suc i) n (sfi_put V e820 dsc i m)"

definition get_e820_table_from_sfi ::
    "e820_env \<Rightarrow> (u32 \<Rightarrow> u32 \<Rightarrow> u32) \<Rightarrow> u32 \<Rightarrow> u32 \<Rightarrow> loader_state \<Rightarrow> (int \<times> loader_state) option" where
  "get_e820_table_from_sfi V af td e820_addr s =
     do {
       r \<leftarrow> find_sfi_table (mem s) 0xe0000 0xfffff 16 0 SYST;
       case r of
         Inl _ \<Rightarrow> Some (- 1, s)
       | Inr (table, sz) \<Rightarrow>
           do {
             r \<leftarrow> find_sfi_table (mem s) table (table + sz - 1) 8 1 MMAP;
             case r of
               Inl _ \<Rightarrow> Some (- 1, s)
             | Inr (table, sz) \<Rightarrow>
                 (let cnt = unat (sz div 36); (e820, s1) = mon_page_alloc af 1 s in
                  if e820 = 0 then Some (- 1, s1)
                  else
                    let m1 = sfi_loop V e820 table 0 cnt (mem s1);
                        m2 = store32 (e820 + o_map_size V) (of_nat cnt * sizeof_entry V) m1
                    in Some (0, s1\<lparr>mem := store64 e820_addr (ucast e820) m2\<rparr>)) } }"

section \<open>hide_runtime_memory\<close>

text \<open>
  The body of the loop for one entry: \<open>Inl\<close> is an early return of FALSE, \<open>Inr\<close> the
  next free index and the new state. The sums with \<^verbatim>\<open>hide_mem_addr\<close> and \<^verbatim>\<open>hide_mem_size\<close> alone are 32-bit sums.
\<close>

definition new_entry :: "u32 \<Rightarrow> u32 \<Rightarrow> u32" where
  "new_entry newmmap_addr entry_idx = newmmap_addr + entry_idx * 24"

definition hide_entry ::
    "u32 \<Rightarrow> u32 \<Rightarrow> u32 \<Rightarrow> u32 \<Rightarrow> u32 \<Rightarrow> loader_state \<Rightarrow> loader_state + u32 \<times> loader_state" where
  "hide_entry newmmap_addr hide_mem_addr hide_mem_size entry_idx mmap s =
     (let m = mem s; hide_end = ucast (hide_mem_addr + hide_mem_size) :: u64 in
      if mm_addr m mmap + mm_len m mmap \<le> ucast hide_mem_addr \<or> hide_end \<le> mm_addr m mmap
      then Inr (entry_idx, s\<lparr>mem := mon_memcpy (new_entry newmmap_addr entry_idx) mmap 24 m\<rparr>)
      else if mm_type m mmap \<noteq> MULTIBOOT_MEMORY_AVAILABLE
      then Inl (print_string (lit ''ERROR: the type of memory to hide is not AVAILABLE in e820 table!!\<newline>'') s)
      else
        let m1 = mm_put (new_entry newmmap_addr entry_idx) (\<lambda>m. mm_size m mmap) (\<lambda>m. mm_addr m mmap)
                   (\<lambda>m. ucast hide_mem_addr - mm_addr m mmap) (\<lambda>m. mm_type m mmap) m;
            entry_idx = entry_idx + 1;
            m2 = mm_put (new_entry newmmap_addr entry_idx) (\<lambda>m. mm_size m mmap) (\<lambda>m. ucast hide_mem_addr)
                   (\<lambda>m. ucast hide_mem_size) (\<lambda>m. MULTIBOOT_MEMORY_RESERVED) m1 in
        if hide_end > mm_addr m2 mmap + mm_len m2 mmap
        then Inl (print_string (lit ''ERROR: hide_mem_addr+hide_mem_size crossing two E820 entries!!\<newline>'')
               (s\<lparr>mem := m2\<rparr>))
        else if hide_end < mm_addr m2 mmap + mm_len m2 mmap
        then Inr (entry_idx + 1,
               s\<lparr>mem := mm_put (new_entry newmmap_addr (entry_idx + 1)) (\<lambda>m. mm_size m mmap) (\<lambda>m. hide_end)
                          (\<lambda>m. mm_addr m mmap + mm_len m mmap - hide_end) (\<lambda>m. mm_type m mmap) m2\<rparr>)
        else Inr (entry_idx, s\<lparr>mem := m2\<rparr>))"

partial_function (option) hide_loop ::
    "u32 \<Rightarrow> u32 \<Rightarrow> u32 \<Rightarrow> u32 \<Rightarrow> u32 \<Rightarrow> u32 \<Rightarrow> loader_state \<Rightarrow> (loader_state + u32 \<times> loader_state) option" where
  "hide_loop mbi newmmap_addr hide_mem_addr hide_mem_size entry_idx mmap s =
     (if mmap < mmap_addr (mem s) mbi + mmap_length (mem s) mbi then
        case hide_entry newmmap_addr hide_mem_addr hide_mem_size entry_idx mmap s of
          Inl s1 \<Rightarrow> Some (Inl s1)
        | Inr (entry_idx, s1) \<Rightarrow>
            hide_loop mbi newmmap_addr hide_mem_addr hide_mem_size (entry_idx + 1)
              (mmap + mm_size (mem s1) mmap + 4) s1
      else Some (Inr (entry_idx, s)))"

definition hide_runtime_memory ::
    "u32 \<Rightarrow> u32 \<Rightarrow> u32 \<Rightarrow> loader_state \<Rightarrow> (bool \<times> loader_state) option" where
  "hide_runtime_memory mbi hide_mem_addr hide_mem_size s =
     (if mbi_flags (mem s) mbi AND MBI_MEMMAP = 0 then Some (False, s)
      else
        let num_of_entries = mmap_length (mem s) mbi div 24 + 2;
            (newmmap_addr, s1) = allocate_memory (24 * num_of_entries) s in
        if newmmap_addr = 0 then Some (False, s1)
        else do {
          r \<leftarrow> hide_loop mbi newmmap_addr hide_mem_addr hide_mem_size 0 (mmap_addr (mem s1) mbi) s1;
          case r of
            Inl s2 \<Rightarrow> Some (False, s2)
          | Inr (entry_idx, s2) \<Rightarrow>
              Some (True, s2\<lparr>mem := store32 (mbi + 44) (24 * entry_idx) (store32 (mbi + 48) newmmap_addr (mem s2))\<rparr>) })"

section \<open>Hiding a range: what the code means to compute\<close>

text \<open>
  The entries that replace one entry, in the arithmetic of the code, or \<open>None\<close> where it gives up.
\<close>

definition hide_spec :: "u32 \<Rightarrow> u32 \<Rightarrow> mm_entry \<Rightarrow> mm_entry list option" where
  "hide_spec h n e =
     (case e of (sz, a, l, t) \<Rightarrow>
      let he = ucast (h + n) :: u64 in
      if a + l \<le> ucast h \<or> he \<le> a then Some [(sz, a, l, t)]
      else if t \<noteq> MULTIBOOT_MEMORY_AVAILABLE then None
      else if he > a + l then None
      else Some ([(sz, a, ucast h - a, t), (sz, ucast h, ucast n, MULTIBOOT_MEMORY_RESERVED)]
                 @ (if he < a + l then [(sz, he, a + l - he, t)] else [])))"

fun hide_all :: "u32 \<Rightarrow> u32 \<Rightarrow> mm_entry list \<Rightarrow> mm_entry list option" where
  "hide_all h n [] = Some []"
| "hide_all h n (e # es) = do { x \<leftarrow> hide_spec h n e; xs \<leftarrow> hide_all h n es; Some (x @ xs) }"

text \<open>The \<open>k\<close> entries from index \<open>idx\<close> on of the new table.\<close>

definition table_at :: "mem \<Rightarrow> u32 \<Rightarrow> u32 \<Rightarrow> mm_entry list \<Rightarrow> bool" where
  "table_at m N idx es \<longleftrightarrow> (\<forall>j < length es. mm_read m (new_entry N (idx + of_nat j)) = es ! j)"

lemma new_entry_Suc: "new_entry N (idx + 1) = new_entry N idx + 24"
  by (simp add: new_entry_def algebra_simps)

lemma new_entry_add: "new_entry N (idx + of_nat k) = new_entry N idx + of_nat (24 * k)"
  by (simp add: new_entry_def algebra_simps)

lemma mm_read_copy:
  assumes "sep e 24 a 24"
  shows "mm_read (mon_memcpy e a 24 m) e = mm_read m a"
proof -
  have b: "mon_memcpy e a 24 m (e + k) = m (a + k)" if "unat k < 24" for k
    using mon_memcpy_apply [of e 24 a m "e + k"] assms that by simp
  have b0: "mon_memcpy e a 24 m e = m a" using b [of 0] by simp
  show ?thesis
    by (simp add: mm_read_def mm_fields load32_def load64_def add.assoc b b0)
qed

text \<open>
  Writing one entry of the new table while the source entry \<open>a\<close> lies outside the window of \<open>K\<close> bytes
  at \<open>B\<close> that the new table occupies.
\<close>

lemma window_agree:
  assumes "sep B K a 24" and "\<And>x. in_range e k x \<Longrightarrow> in_range B K x" and "\<And>x. \<not> in_range e k x \<Longrightarrow> m' x = m x"
  shows "agree_on a 24 m m'"
  unfolding agree_on_def using assms(2,3) sep_in_range [OF assms(1)] by metis

lemma put_from_source:
  assumes "sep B K a 24" and "\<And>x. in_range e 24 x \<Longrightarrow> in_range B K x"
    and "\<And>m'. mm_read m' a = mm_read m a \<Longrightarrow> (sz m', ad m', ln m', ty m') = v"
  shows "mm_read (mm_put e sz ad ln ty m) e = v"
proof -
  obtain s0 a0 l0 t0 where v: "v = (s0, a0, l0, t0)" by (cases v)
  have "sz m' = s0 \<and> ad m' = a0 \<and> ln m' = l0 \<and> ty m' = t0" if "\<And>x. \<not> in_range e 24 x \<Longrightarrow> m' x = m x" for m'
    using assms(3) [of m'] mm_read_cong(1) [OF window_agree [OF assms(1,2) that]] v by simp
  then show ?thesis unfolding v by (rule mm_put_read)
qed

lemma read_keeps:
  assumes "sep e' 24 e 24" shows "mm_read (mm_put e' sz ad ln ty m) e = mm_read m e"
  by (rule mm_read_cong, rule frame_agree [OF mm_put_frame assms])

lemma put_source:
  assumes "sep B K a 24" and "\<And>x. in_range e 24 x \<Longrightarrow> in_range B K x"
  shows "mm_read (mm_put e sz ad ln ty m) a = mm_read m a"
  using assms mm_put_frame by (blast intro: mm_read_cong(1) window_agree)

text \<open>The two entries that replace the hidden part's lower neighbour and the hidden part itself.\<close>

lemma hide_two:
  fixes e rv :: u32 and h n :: u64
  assumes win: "sep B K a 24" "\<And>x. in_range e 48 x \<Longrightarrow> in_range B K x"
    and v: "mm_read m a = (sz, ad, ln, ty)"
  defines "m1 \<equiv> mm_put e (\<lambda>m. mm_size m a) (\<lambda>m. mm_addr m a) (\<lambda>m. h - mm_addr m a) (\<lambda>m. mm_type m a) m"
  defines "m2 \<equiv> mm_put (e + 24) (\<lambda>m. mm_size m a) (\<lambda>m. h) (\<lambda>m. n) (\<lambda>m. rv) m1"
  shows "mm_read m2 e = (sz, ad, h - ad, ty)" and "mm_read m2 (e + 24) = (sz, h, n, rv)"
    and "mm_read m2 a = mm_read m a" and "\<not> in_range e 48 x \<Longrightarrow> m2 x = m x"
proof -
  have w0: "in_range B K x" if "in_range e 24 x" for x using win(2) in_range_mono [OF that, of 48] by simp
  have w1: "in_range B K x" if "in_range (e + 24) 24 x" for x using win(2) sub_block [OF that, of 48] by simp
  have s1: "mm_read m1 a = mm_read m a" unfolding m1_def by (rule put_source [OF win(1) w0])
  have r1: "mm_read m1 e = (sz, ad, h - ad, ty)"
    unfolding m1_def by (rule put_from_source [OF win(1) w0]) (use v in \<open>auto simp: mm_read_def\<close>)
  show "mm_read m2 a = mm_read m a" using put_source [OF win(1) w1] s1 by (simp add: m2_def)
  show "mm_read m2 (e + 24) = (sz, h, n, rv)"
    unfolding m2_def by (rule put_from_source [OF win(1) w1]) (use s1 v in \<open>auto simp: mm_read_def\<close>)
  show "mm_read m2 e = (sz, ad, h - ad, ty)"
    using read_keeps [of "e + 24" e] r1 by (simp add: m2_def sep_def)
  show "m2 x = m x" if "\<not> in_range e 48 x"
    using not_sub_block [OF that] by (simp add: m1_def m2_def mm_put_frame)
qed

lemma hide_entry_ok:
  assumes spec: "hide_spec h n (mm_read (mem s) a) = Some res"
    and win: "sep B K a 24" "\<And>x. in_range (new_entry N idx) (24 * length res) x \<Longrightarrow> in_range B K x"
  shows "\<exists>idx' m'. hide_entry N h n idx a s = Inr (idx', s\<lparr>mem := m'\<rparr>) \<and> idx' + 1 = idx + of_nat (length res)
    \<and> table_at m' N idx res \<and> (\<forall>x. \<not> in_range (new_entry N idx) (24 * length res) x \<longrightarrow> m' x = mem s x)"
proof -
  let ?m = "mem s" and ?e = "new_entry N idx" and ?he = "ucast (h + n) :: u64"
  obtain sz ad ln ty where v: "mm_read ?m a = (sz, ad, ln, ty)" by (cases "mm_read ?m a")
  then have f: "mm_size ?m a = sz" "mm_addr ?m a = ad" "mm_len ?m a = ln" "mm_type ?m a = ty"
    by (simp_all add: mm_read_def)
  show ?thesis
  proof (cases "ad + ln \<le> ucast h \<or> ?he \<le> ad")
    case True
    then have res: "res = [mm_read ?m a]" using spec v by (simp add: hide_spec_def Let_def)
    have "sep ?e 24 a 24"
      by (rule sep_iff_disjoint) (use win(2) sep_in_range [OF win(1)] res in auto)
    then show ?thesis
      using True f
      by (intro exI [of _ idx] exI [of _ "mon_memcpy ?e a 24 ?m"])
        (simp add: hide_entry_def res table_at_def mm_read_copy mon_memcpy_other)
  next
    case False
    with spec v have av: "ty = MULTIBOOT_MEMORY_AVAILABLE" and fits: "\<not> ?he > ad + ln"
      and res: "res = [(sz, ad, ucast h - ad, ty), (sz, ucast h, ucast n, MULTIBOOT_MEMORY_RESERVED)]
        @ (if ?he < ad + ln then [(sz, ?he, ad + ln - ?he, ty)] else [])"
      by (auto simp: hide_spec_def Let_def split: if_splits)
    have len: "48 \<le> 24 * length res" by (simp add: res)
    have w: "in_range B K x" if "in_range ?e 48 x" for x using win(2) in_range_mono [OF that len] .
    let ?m2 = "mm_put (?e + 24) (\<lambda>m. mm_size m a) (\<lambda>m. ucast h) (\<lambda>m. ucast n) (\<lambda>m. MULTIBOOT_MEMORY_RESERVED)
      (mm_put ?e (\<lambda>m. mm_size m a) (\<lambda>m. mm_addr m a) (\<lambda>m. ucast h - mm_addr m a) (\<lambda>m. mm_type m a) ?m)"
    note two = hide_two [where e = ?e, OF win(1) w v, where h = "ucast h" and n = "ucast n" and rv = MULTIBOOT_MEMORY_RESERVED]
    have f2: "mm_size ?m2 a = sz" "mm_addr ?m2 a = ad" "mm_len ?m2 a = ln" "mm_type ?m2 a = ty"
      using two(3) v by (simp_all add: mm_read_def)
    show ?thesis
    proof (cases "?he < ad + ln")
      case False': False
      have "hide_entry N h n idx a s = Inr (idx + 1, s\<lparr>mem := ?m2\<rparr>)"
        using False False' fits av f f2 by (simp add: hide_entry_def Let_def new_entry_Suc)
      moreover have "table_at ?m2 N idx res"
        using two(1,2) False' by (auto simp: table_at_def res less_Suc_eq new_entry_Suc)
      ultimately show ?thesis using two(4) False'
        by (intro exI [of _ "idx + 1"] exI [of _ ?m2]) (simp add: res)
    next
      case True
      let ?m3 = "mm_put (?e + 48) (\<lambda>m. mm_size m a) (\<lambda>m. ?he) (\<lambda>m. mm_addr m a + mm_len m a - ?he) (\<lambda>m. mm_type m a) ?m2"
      have w2: "in_range B K x" if "in_range (?e + 48) 24 x" for x
        using win(2) sub_block [OF that, of 72] True by (simp add: res)
      have e2: "new_entry N (idx + 2) = ?e + 48" by (simp add: new_entry_def algebra_simps)
      have "hide_entry N h n idx a s = Inr (idx + 2, s\<lparr>mem := ?m3\<rparr>)"
        using False True av f f2 e2 by (simp add: hide_entry_def Let_def new_entry_Suc add.assoc)
      moreover have "mm_read ?m3 (?e + 48) = (sz, ?he, ad + ln - ?he, ty)"
        by (rule put_from_source [OF win(1) w2]) (use two(3) v in \<open>auto simp: mm_read_def\<close>)
      moreover have "mm_read ?m3 ?e = mm_read ?m2 ?e" "mm_read ?m3 (?e + 24) = mm_read ?m2 (?e + 24)"
        using read_keeps [of "?e + 48" ?e] read_keeps [of "?e + 48" "?e + 24"] by (simp_all add: sep_def)
      ultimately have run: "hide_entry N h n idx a s = Inr (idx + 2, s\<lparr>mem := ?m3\<rparr>)" and tab: "table_at ?m3 N idx res"
        using two(1,2) True e2 by (auto simp: table_at_def res less_Suc_eq new_entry_Suc numeral_2_eq_2)
      have "?m3 x = ?m x" if "\<not> in_range ?e 72 x" for x
        using not_sub_block [OF that] two(4) [of x] by (simp add: mm_put_frame)
      with run tab show ?thesis using True
        by (intro exI [of _ "idx + 2"] exI [of _ ?m3]) (simp add: res)
    qed
  qed
qed

lemma table_at_append:
  assumes "table_at m N idx xs" and "table_at m N (idx + of_nat (length xs)) ys"
  shows "table_at m N idx (xs @ ys)"
proof -
  have "mm_read m (new_entry N (idx + of_nat j)) = (xs @ ys) ! j" if "j < length (xs @ ys)" for j
  proof (cases "j < length xs")
    case True
    with assms(1) show ?thesis by (simp add: table_at_def nth_append)
  next
    case False
    then obtain k where "j = length xs + k" by (metis le_Suc_ex not_less)
    with assms(2) that show ?thesis by (simp add: table_at_def nth_append add.assoc)
  qed
  then show ?thesis by (simp add: table_at_def)
qed

lemma table_at_keep:
  assumes "table_at m N idx xs" and "24 * (length xs + q) < 2 ^ 32"
    and "\<And>x. \<not> in_range (new_entry N (idx + of_nat (length xs))) (24 * q) x \<Longrightarrow> m' x = m x"
  shows "table_at m' N idx xs"
proof -
  have "mm_read m' (new_entry N (idx + of_nat j)) = mm_read m (new_entry N (idx + of_nat j))"
    if j: "j < length xs" for j
  proof (rule mm_read_cong, unfold agree_on_def, intro allI impI)
    fix x
    assume "in_range (new_entry N (idx + of_nat j)) 24 x"
    moreover have "unat (of_nat (24 * j) :: u32) = 24 * j" using assms(2) j by (intro unat_of_nat32) simp
    ultimately have "in_range (new_entry N idx) (24 * length xs) x"
      using sub_block [of "new_entry N idx" "of_nat (24 * j)" 24 x "24 * length xs"] j
      by (simp add: new_entry_add)
    then have "\<not> in_range (new_entry N (idx + of_nat (length xs))) (24 * q) x"
      using block_split(2) [OF assms(2), of "new_entry N idx" x] unfolding new_entry_add by blast
    then show "m x = m' x" using assms(3) by simp
  qed
  with assms(1) show ?thesis by (simp add: table_at_def)
qed

lemma hide_loop_ok:
  assumes "mmap_walk (mem s) nxt tab_end es" and "hide_all h n (map (mm_read (mem s)) es) = Some res"
    and "\<And>e. e \<in> set es \<Longrightarrow> sep B K e 24" and "sep B K (mbi + 44) 8"
    and "\<And>x. in_range (new_entry N idx) (24 * length res) x \<Longrightarrow> in_range B K x"
    and "24 * length res < 2 ^ 32" and "mmap_addr (mem s) mbi + mmap_length (mem s) mbi = tab_end"
  shows "\<exists>m'. hide_loop mbi N h n idx nxt s = Some (Inr (idx + of_nat (length res), s\<lparr>mem := m'\<rparr>))
    \<and> table_at m' N idx res \<and> (\<forall>x. \<not> in_range (new_entry N idx) (24 * length res) x \<longrightarrow> m' x = mem s x)"
  using assms
proof (induction es arbitrary: s nxt idx res)
  case Nil
  then show ?case by (intro exI [of _ "mem s"]) (subst hide_loop.simps, simp add: table_at_def)
next
  case (Cons e es)
  from Cons.prems(2) obtain x xs where x: "hide_spec h n (mm_read (mem s) e) = Some x"
    and xs: "hide_all h n (map (mm_read (mem s)) es) = Some xs" and res: "res = x @ xs"
    by (auto split: Option.bind_splits)
  have e: "e = nxt" "nxt < tab_end" "mmap_walk (mem s) (nxt + mm_size (mem s) nxt + 4) tab_end es"
    using Cons.prems(1) by simp_all
  have len: "24 * (length x + length xs) < 2 ^ 32" using Cons.prems(6) res by simp
  note split = block_split [OF len, of "new_entry N idx", folded new_entry_add]
  have w1: "in_range B K y" if "in_range (new_entry N idx) (24 * length x) y" for y
    using Cons.prems(5) [of y] split(1) [of y] that res by simp
  have w2: "in_range B K y" if "in_range (new_entry N (idx + of_nat (length x))) (24 * length xs) y" for y
    using Cons.prems(5) [of y] split(1) [of y] that res by simp
  obtain idx' m1 where he: "hide_entry N h n idx e s = Inr (idx', s\<lparr>mem := m1\<rparr>)"
    and idx': "idx' + 1 = idx + of_nat (length x)" and t1: "table_at m1 N idx x"
    and f1: "\<And>y. \<not> in_range (new_entry N idx) (24 * length x) y \<Longrightarrow> m1 y = mem s y"
    using hide_entry_ok [where N = N and idx = idx and B = B and K = K, OF x _ w1] Cons.prems(3) by auto
  have ag: "agree_on b k (mem s) m1" if "sep B K b k" for b k
    unfolding agree_on_def using f1 w1 sep_in_range [OF that] by metis
  have src: "mm_read m1 e' = mm_read (mem s) e'" "mm_size m1 e' = mm_size (mem s) e'" if "e' \<in> set (e # es)" for e'
    using mm_read_cong(1,2) [OF ag] Cons.prems(3) that by simp_all
  have mbi': "mmap_addr m1 mbi + mmap_length m1 mbi = tab_end"
    using agree_on_load(2) [OF ag [OF Cons.prems(4)], of "mbi + 48"]
      agree_on_load(2) [OF ag [OF Cons.prems(4)], of "mbi + 44"] Cons.prems(7)
    by (simp add: mmap_addr_def mmap_length_def inside_def)
  have IH: "\<exists>m'. hide_loop mbi N h n (idx + of_nat (length x)) (nxt + mm_size (mem s) nxt + 4) (s\<lparr>mem := m1\<rparr>)
      = Some (Inr (idx + of_nat (length x) + of_nat (length xs), s\<lparr>mem := m1\<rparr>\<lparr>mem := m'\<rparr>))
    \<and> table_at m' N (idx + of_nat (length x)) xs
    \<and> (\<forall>y. \<not> in_range (new_entry N (idx + of_nat (length x))) (24 * length xs) y \<longrightarrow> m' y = mem (s\<lparr>mem := m1\<rparr>) y)"
  proof (rule Cons.IH)
    show "mmap_walk (mem (s\<lparr>mem := m1\<rparr>)) (nxt + mm_size (mem s) nxt + 4) tab_end es"
      using mmap_walk_cong [OF e(3)] ag Cons.prems(3) by simp
    show "hide_all h n (map (mm_read (mem (s\<lparr>mem := m1\<rparr>))) es) = Some xs"
      using xs src(1) by (simp cong: map_cong)
  qed (use Cons.prems(3,4) len mbi' w2 in simp_all)
  then obtain m' where run: "hide_loop mbi N h n (idx' + 1) (nxt + mm_size (mem s) nxt + 4) (s\<lparr>mem := m1\<rparr>)
      = Some (Inr (idx + of_nat (length res), s\<lparr>mem := m'\<rparr>))"
    and t2: "table_at m' N (idx + of_nat (length x)) xs"
    and f2: "\<And>y. \<not> in_range (new_entry N (idx + of_nat (length x))) (24 * length xs) y \<Longrightarrow> m' y = m1 y"
    unfolding idx' by (auto simp: res add.assoc)
  have "table_at m' N idx x" by (rule table_at_keep [OF t1 len f2])
  then have "table_at m' N idx res" unfolding res by (rule table_at_append [OF _ t2])
  moreover have "m' y = mem s y" if "\<not> in_range (new_entry N idx) (24 * length res) y" for y
    using f1 [of y] f2 [of y] split(1) [of y] that res by simp
  moreover have "hide_loop mbi N h n idx nxt s = Some (Inr (idx + of_nat (length res), s\<lparr>mem := m'\<rparr>))"
    using run he e(1,2) Cons.prems(7) src(2) [of e] by (subst hide_loop.simps) (simp add: add.assoc)
  ultimately show ?case by blast
qed

section \<open>Properties\<close>

text \<open>The addresses a map declares available.\<close>

definition mm_avail :: "mm_entry list \<Rightarrow> nat \<Rightarrow> bool" where
  "mm_avail es x \<longleftrightarrow>
     list_ex (\<lambda>(sz, a, l, t). t = MULTIBOOT_MEMORY_AVAILABLE \<and> unat a \<le> x \<and> x < unat a + unat l) es"

text \<open>An entry that does not wrap around and that the hidden range does not begin before.\<close>

definition mm_clean :: "u32 \<Rightarrow> u32 \<Rightarrow> mm_entry \<Rightarrow> bool" where
  "mm_clean h n e \<longleftrightarrow> (case e of (sz, a, l, t) \<Rightarrow>
     unat a + unat l < 2 ^ 64 \<and> \<not> (unat h < unat a \<and> unat a < unat h + unat n))"

lemma unat_up [simp]: "unat (ucast (w :: u32) :: u64) = unat w"
  using unat_bound(3) [of w] by (simp add: unsigned_ucast_eq take_bit_nat_eq_self)

lemma hide_spec_avail:
  assumes "hide_spec h n e = Some r" and "mm_clean h n e" and "unat h + unat n < 2 ^ 32"
  shows "mm_avail r x \<longleftrightarrow> mm_avail [e] x \<and> \<not> (unat h \<le> x \<and> x < unat h + unat n)"
proof -
  obtain sz a l t where e: "e = (sz, a, l, t)" by (cases e)
  let ?he = "ucast (h + n) :: u64"
  have he: "unat (h + n) = unat h + unat n" using assms(3) by (simp add: unat_word_ariths(1))
  have al: "unat (a + l) = unat a + unat l" using assms(2) by (simp add: e mm_clean_def unat_word_ariths(1))
  have nr: "MULTIBOOT_MEMORY_RESERVED \<noteq> MULTIBOOT_MEMORY_AVAILABLE"
    by (simp add: MULTIBOOT_MEMORY_RESERVED_def MULTIBOOT_MEMORY_AVAILABLE_def)
  show ?thesis
  proof (cases "a + l \<le> ucast h \<or> ?he \<le> a")
    case True
    with assms(1) have "r = [e]" by (simp add: e hide_spec_def Let_def)
    with True show ?thesis by (auto simp: e mm_avail_def word_le_nat_alt he al)
  next
    case False
    with assms(1) have t: "t = MULTIBOOT_MEMORY_AVAILABLE" and fits: "?he \<le> a + l"
      and r: "r = [(sz, a, ucast h - a, t), (sz, ucast h, ucast n, MULTIBOOT_MEMORY_RESERVED)]
        @ (if ?he < a + l then [(sz, ?he, a + l - ?he, t)] else [])"
      by (auto simp: e hide_spec_def Let_def split: if_splits)
    have ah: "unat a \<le> unat h"
      using assms(2) False he al by (auto simp: e mm_clean_def word_le_nat_alt)
    have d1: "unat (ucast h - a) = unat h - unat a" using ah by (simp add: unat_sub_if')
    have d2: "unat (a + l - ?he) = unat a + unat l - (unat h + unat n)"
      using fits he al by (simp add: unat_sub word_le_nat_alt)
    show ?thesis
      using ah fits nr he al by (auto simp: e r mm_avail_def d1 d2 t word_le_nat_alt word_less_nat_alt)
  qed
qed

text \<open>
  What hiding achieves: in the new map exactly those addresses are available that were available
  before and do not lie in the hidden range. (Entries must not wrap around, and the hidden range must
  not start below an entry it overlaps.)
\<close>

lemma hide_all_avail:
  assumes "hide_all h n es = Some res" and "list_all (mm_clean h n) es" and "unat h + unat n < 2 ^ 32"
  shows "mm_avail res x \<longleftrightarrow> mm_avail es x \<and> \<not> (unat h \<le> x \<and> x < unat h + unat n)"
  using assms
proof (induction es arbitrary: res)
  case Nil
  then show ?case by (simp add: mm_avail_def)
next
  case (Cons e es)
  then obtain r rs where r: "hide_spec h n e = Some r" and rs: "hide_all h n es = Some rs" and res: "res = r @ rs"
    by (auto split: Option.bind_splits)
  have "mm_avail res x \<longleftrightarrow> mm_avail r x \<or> mm_avail rs x" by (simp add: res mm_avail_def)
  moreover have "mm_avail (e # es) x \<longleftrightarrow> mm_avail [e] x \<or> mm_avail es x" by (simp add: mm_avail_def)
  ultimately show ?case
    using hide_spec_avail [OF r] Cons.IH [OF rs] Cons.prems by auto
qed

lemma table_at_agree:
  assumes "table_at m N 0 es" and "24 * length es < 2 ^ 32" and "\<And>x. in_range N (24 * length es) x \<Longrightarrow> m' x = m x"
  shows "table_at m' N 0 es"
proof -
  have "mm_read m' (new_entry N (of_nat j)) = mm_read m (new_entry N (of_nat j))" if j: "j < length es" for j
  proof (rule mm_read_cong, unfold agree_on_def, intro allI impI)
    fix x
    assume "in_range (new_entry N (of_nat j)) 24 x"
    moreover have "unat (of_nat (24 * j) :: u32) = 24 * j" using assms(2) j by (intro unat_of_nat32) simp
    ultimately have "in_range N (24 * length es) x"
      using sub_block [of N "of_nat (24 * j)" 24 x "24 * length es"] j
      by (simp add: new_entry_def mult.commute)
    then show "m x = m' x" using assms(3) by simp
  qed
  with assms(1) show ?thesis by (simp add: table_at_def)
qed

lemma hide_runtime_memory_table:
  fixes s :: loader_state and mbi :: u32
  defines "num \<equiv> unat (mmap_length (mem s) mbi) div 24 + 2" and "N \<equiv> heap_current s"
  assumes flag: "mbi_flags (mem s) mbi AND MBI_MEMMAP \<noteq> 0"
    and heap: "N \<noteq> 0" "unat N + 24 * num \<le> unat (heap_tops s)"
    and walk: "mmap_walk (mem s) (mmap_addr (mem s) mbi) (mmap_addr (mem s) mbi + mmap_length (mem s) mbi) es"
    and spec: "hide_all h n (map (mm_read (mem s)) es) = Some res" and room: "length res \<le> num"
    and apart: "list_all (\<lambda>e. sep N (24 * num) e 24) es" "sep N (24 * num) mbi 52"
  shows "\<exists>s'. hide_runtime_memory mbi h n s = Some (True, s') \<and> mmap_addr (mem s') mbi = N
    \<and> mmap_length (mem s') mbi = 24 * of_nat (length res) \<and> table_at (mem s') N 0 res
    \<and> heap_current s' = N + of_nat (24 * num) \<and> heap_tops s' = heap_tops s
    \<and> (\<forall>x. \<not> in_range N (24 * num) x \<longrightarrow> \<not> in_range (mbi + 44) 8 x \<longrightarrow> mem s' x = mem s x)"
proof -
  let ?sz = "24 * (mmap_length (mem s) mbi div 24 + 2)"
  have small: "24 * num < 2 ^ 32" using heap(2) unat_bound(3) [of "heap_tops s"] by simp
  have un: "unat ?sz = 24 * num"
  proof -
    have "unat (mmap_length (mem s) mbi div 24 + 2) = num"
      using small by (simp add: num_def unat_word_ariths(1) unat_div)
    then show ?thesis using small by (simp only: unat_word_ariths(2)) simp
  qed
  have sum: "\<not> heap_current s + ?sz > heap_tops s"
    using heap(2) un unat_bound(3) [of "heap_tops s"]
    by (simp add: word_less_nat_alt unat_word_ariths(1) N_def)
  define m1 where "m1 = zero_mem N ?sz (mem s)"
  define s1 where "s1 = s\<lparr>heap_current := heap_current s + ?sz, mem := m1\<rparr>"
  have al: "allocate_memory ?sz s = (N, s1)"
    using sum by (simp add: allocate_memory_def s1_def m1_def N_def Let_def)
  have ag: "agree_on b k (mem s) m1" if "sep N (24 * num) b k" for b k
    by (rule frame_agree [OF _ that]) (simp only: m1_def zero_mem_apply un if_False)
  have mb: "sep N (24 * num) (mbi + 44) 8"
    by (rule sep_part [OF apart(2)]) (simp_all add: inside_def num_def)
  have same: "mmap_addr m1 mbi = mmap_addr (mem s) mbi" "mmap_length m1 mbi = mmap_length (mem s) mbi"
    using agree_on_load(2) [OF ag [OF mb]] by (simp_all add: mmap_addr_def mmap_length_def inside_def)
  have "map (mm_read m1) es = map (mm_read (mem s)) es"
    using mm_read_cong(1) ag apart(1) by (simp add: list_all_iff)
  then have spec1: "hide_all h n (map (mm_read m1) es) = Some res" using spec by (simp only:)
  have walk1: "mmap_walk m1 (mmap_addr m1 mbi) (mmap_addr m1 mbi + mmap_length m1 mbi) es"
    unfolding same using walk by (rule mmap_walk_cong) (use ag apart(1) in \<open>simp add: list_all_iff\<close>)
  have N0: "new_entry N 0 = N" by (simp add: new_entry_def)
  have "\<exists>m'. hide_loop mbi N h n 0 (mmap_addr m1 mbi) s1 = Some (Inr (0 + of_nat (length res), s1\<lparr>mem := m'\<rparr>))
      \<and> table_at m' N 0 res \<and> (\<forall>x. \<not> in_range (new_entry N 0) (24 * length res) x \<longrightarrow> m' x = mem s1 x)"
    by (rule hide_loop_ok [where B = N and K = "24 * num" and es = es
          and tab_end = "mmap_addr m1 mbi + mmap_length m1 mbi"])
      (use walk1 spec1 apart(1) mb room small in \<open>auto simp: s1_def list_all_iff N0 intro: in_range_mono\<close>)
  then obtain m' where run: "hide_loop mbi N h n 0 (mmap_addr m1 mbi) s1 = Some (Inr (of_nat (length res), s1\<lparr>mem := m'\<rparr>))"
    and tab: "table_at m' N 0 res" and fr: "\<And>x. \<not> in_range N (24 * length res) x \<Longrightarrow> m' x = m1 x"
    by (auto simp: N0 s1_def)
  let ?m = "store32 (mbi + 44) (24 * of_nat (length res)) (store32 (mbi + 48) N m')"
  have out: "?m x = m' x" if "\<not> in_range (mbi + 44) 8 x" for x
    using not_sub_block(1) [OF that, of 4 4] not_sub_block(2) [OF that, of 4]
    by (simp add: add.commute store_other)
  have "table_at ?m N 0 res"
  proof (rule table_at_agree [OF tab])
    fix x
    assume "in_range N (24 * length res) x"
    then have "in_range N (24 * num) x" using room by (auto intro: in_range_mono)
    then show "?m x = m' x" by (intro out sep_in_range [OF sep_sym [OF mb]])
  qed (use room small in simp)
  moreover have "load32 ?m (mbi + 48) = N"
    by (simp add: load_after_store sep_def)
  moreover have "hide_runtime_memory mbi h n s = Some (True, s1\<lparr>mem := ?m\<rparr>)"
    using flag al heap(1) run by (simp add: hide_runtime_memory_def s1_def)
  moreover have "?m x = mem s x" if "\<not> in_range N (24 * num) x" "\<not> in_range (mbi + 44) 8 x" for x
  proof -
    have "m1 x = mem s x" using that(1) by (simp only: m1_def zero_mem_apply un if_False)
    then show ?thesis using that out [of x] fr [of x] not_sub_block(2) [OF that(1), of "24 * length res"] room by simp
  qed
  moreover have "?sz = of_nat (24 * num)" by (simp only: un [symmetric]) simp
  ultimately show ?thesis by (simp add: mmap_addr_def mmap_length_def s1_def N_def)
qed

text \<open>The entries of the table at \<open>N\<close>, as a reader with a stride of 24 bytes finds them.\<close>

definition new_table :: "mem \<Rightarrow> u32 \<Rightarrow> nat \<Rightarrow> mm_entry list" where
  "new_table m N k = map (\<lambda>j. mm_read m (new_entry N (of_nat j))) [0..<k]"

lemma table_at_new_table: "table_at m N 0 res \<Longrightarrow> new_table m N (length res) = res"
  by (rule nth_equalityI) (simp_all add: new_table_def table_at_def)

text \<open>
  C2. \<^verbatim>\<open>hide_runtime_memory\<close> on a well-formed map: it returns TRUE, the multiboot information then points at a new
  table in the heap that holds exactly the intended entries, and in that table exactly those addresses are
  available that were available before and do not lie in the hidden range.
\<close>

theorem hide_runtime_memory_correct:
  fixes s :: loader_state and mbi :: u32
  defines "num \<equiv> unat (mmap_length (mem s) mbi) div 24 + 2" and "N \<equiv> heap_current s"
  assumes "mbi_flags (mem s) mbi AND MBI_MEMMAP \<noteq> 0"
    and "N \<noteq> 0" "unat N + 24 * num \<le> unat (heap_tops s)"
    and "mmap_walk (mem s) (mmap_addr (mem s) mbi) (mmap_addr (mem s) mbi + mmap_length (mem s) mbi) es"
    and spec: "hide_all h n (map (mm_read (mem s)) es) = Some res" and "length res \<le> num"
    and "list_all (\<lambda>e. sep N (24 * num) e 24) es" "sep N (24 * num) mbi 52"
    and clean: "list_all (mm_clean h n) (map (mm_read (mem s)) es)" "unat h + unat n < 2 ^ 32"
  shows "\<exists>s'. hide_runtime_memory mbi h n s = Some (True, s') \<and> mmap_addr (mem s') mbi = N
    \<and> mmap_length (mem s') mbi = 24 * of_nat (length res) \<and> new_table (mem s') N (length res) = res
    \<and> (\<forall>x. mm_avail (new_table (mem s') N (length res)) x
         \<longleftrightarrow> mm_avail (map (mm_read (mem s)) es) x \<and> (x < unat h \<or> unat h + unat n \<le> x))"
proof -
  obtain s' where "hide_runtime_memory mbi h n s = Some (True, s')" "mmap_addr (mem s') mbi = N"
    "mmap_length (mem s') mbi = 24 * of_nat (length res)" and t: "table_at (mem s') N 0 res"
    using hide_runtime_memory_table [OF assms(3-10) [unfolded num_def N_def]] unfolding N_def by blast
  moreover have "mm_avail res x \<longleftrightarrow> mm_avail (map (mm_read (mem s)) es) x \<and> (x < unat h \<or> unat h + unat n \<le> x)" for x
    unfolding hide_all_avail [OF spec clean] by (simp only: not_le de_Morgan_conj not_less)
  moreover note table_at_new_table [OF t]
  ultimately show ?thesis by (intro exI [of _ s'] conjI allI) (simp_all only:)
qed

text \<open>A map of one entry at \<^verbatim>\<open>0x6000\<close>, described by multiboot information at \<^verbatim>\<open>0x5000\<close>.\<close>

definition one_entry_map :: mem where
  "one_entry_map = (\<lambda>_. 0)(0x5000 := 0x40, 0x502C := 24, 0x5031 := 0x60,
     0x6000 := 20, 0x600D := 0x90, 0x6014 := 1)"

lemma one_entry_map_fields:
  "mbi_flags one_entry_map 0x5000 = 0x40" "mmap_length one_entry_map 0x5000 = 24" "mmap_addr one_entry_map 0x5000 = 0x6000"
  "mm_read one_entry_map 0x6000 = (20, 0, 0x9000, 1)" "mm_size one_entry_map 0x6000 = 20"
  by (simp_all add: one_entry_map_def mbi_fields mm_read_def mm_fields mem_eval)

theorem hide_runtime_memory_correct_witness:
  "\<exists>s'. hide_runtime_memory 0x5000 0x1000 0x1000 (small_heap\<lparr>mem := one_entry_map\<rparr>) = Some (True, s')
    \<and> mmap_addr (mem s') 0x5000 = 0x1000
    \<and> new_table (mem s') 0x1000 3 = [(20, 0, 0x1000, 1), (20, 0x1000, 0x1000, 2), (20, 0x2000, 0x7000, 1)]
    \<and> \<not> mm_avail (new_table (mem s') 0x1000 3) 0x1800"
proof -
  let ?s = "small_heap\<lparr>mem := one_entry_map\<rparr>"
  let ?res = "[(20, 0, 0x1000, 1), (20, 0x1000, 0x1000, 2), (20, 0x2000, 0x7000, 1)] :: mm_entry list"
  have spec: "hide_all 0x1000 0x1000 (map (mm_read (mem ?s)) [0x6000]) = Some ?res"
    by (simp add: one_entry_map_fields hide_spec_def Let_def MULTIBOOT_MEMORY_AVAILABLE_def MULTIBOOT_MEMORY_RESERVED_def)
  have "\<exists>s'. hide_runtime_memory 0x5000 0x1000 0x1000 ?s = Some (True, s') \<and> mmap_addr (mem s') 0x5000 = heap_current ?s
    \<and> mmap_length (mem s') 0x5000 = 24 * of_nat (length ?res) \<and> new_table (mem s') (heap_current ?s) (length ?res) = ?res
    \<and> (\<forall>x. mm_avail (new_table (mem s') (heap_current ?s) (length ?res)) x
         \<longleftrightarrow> mm_avail (map (mm_read (mem ?s)) [0x6000]) x
           \<and> (x < unat (0x1000 :: u32) \<or> unat (0x1000 :: u32) + unat (0x1000 :: u32) \<le> x))"
    by (rule hide_runtime_memory_correct [OF _ _ _ _ spec])
      (simp_all add: one_entry_map_fields MBI_MEMMAP_def small_heap_def sep_def mm_clean_def)
  moreover have "length ?res = 3" "heap_current ?s = 0x1000" by (simp_all add: small_heap_def)
  ultimately obtain s' where "hide_runtime_memory 0x5000 0x1000 0x1000 ?s = Some (True, s')"
    "mmap_addr (mem s') 0x5000 = 0x1000" "new_table (mem s') 0x1000 3 = ?res"
    "\<not> mm_avail (new_table (mem s') 0x1000 3) 0x1800"
    by (simp only:) auto
  then show ?thesis by blast
qed

text \<open>
  When the range to hide begins below an available entry that it overlaps, the call does not fail: the
  entry written for the part below the hidden range gets the wrapped length
  \<open>2 ^ 64 - (addr - hide_mem_addr)\<close>.
\<close>

theorem hide_entry_below_wraps:
  assumes "mm_type (mem s) a = MULTIBOOT_MEMORY_AVAILABLE" and "unat h < unat (mm_addr (mem s) a)"
    and "unat (mm_addr (mem s) a) < unat h + unat n" and "unat h + unat n < 2 ^ 32"
    and "unat h + unat n \<le> unat (mm_addr (mem s) a) + unat (mm_len (mem s) a)"
    and "unat (mm_addr (mem s) a) + unat (mm_len (mem s) a) < 2 ^ 64" and "sep (new_entry N idx) 72 a 24"
  shows "\<exists>idx' m'. hide_entry N h n idx a s = Inr (idx', s\<lparr>mem := m'\<rparr>)
    \<and> unat (mm_len m' (new_entry N idx)) = 2 ^ 64 - (unat (mm_addr (mem s) a) - unat h)"
proof -
  let ?a = "mm_addr (mem s) a" and ?l = "mm_len (mem s) a" and ?he = "ucast (h + n) :: u64"
  have he: "unat (h + n) = unat h + unat n" using assms(4) by (simp add: unat_word_ariths(1))
  have al: "unat (?a + ?l) = unat ?a + unat ?l" using assms(6) by (simp add: unat_word_ariths(1))
  have "\<not> (?a + ?l \<le> ucast h \<or> ?he \<le> ?a)" "\<not> ?he > ?a + ?l"
    using assms he al by (auto simp: word_le_nat_alt word_less_nat_alt)
  then obtain tl where spec: "hide_spec h n (mm_read (mem s) a)
      = Some ((mm_size (mem s) a, ?a, ucast h - ?a, mm_type (mem s) a) # tl)" and "length tl \<le> 2"
    using assms(1) by (auto simp: hide_spec_def mm_read_def Let_def)
  then have "in_range (new_entry N idx) (24 * Suc (length tl)) x \<Longrightarrow> in_range (new_entry N idx) 72 x" for x
    by (auto elim: in_range_mono)
  from hide_entry_ok [OF spec assms(7), of N idx] this
  obtain idx' m' where r: "hide_entry N h n idx a s = Inr (idx', s\<lparr>mem := m'\<rparr>)"
    and t: "table_at m' N idx ((mm_size (mem s) a, ?a, ucast h - ?a, mm_type (mem s) a) # tl)" by auto
  have "mm_len m' (new_entry N idx) = ucast h - ?a"
    using t [unfolded table_at_def, rule_format, of 0] by (simp add: mm_read_def)
  moreover have "unat (ucast h - ?a) = 2 ^ 64 - (unat ?a - unat h)"
    using assms(2) unat_bound(4) [of ?a] by (simp add: unat_sub_if')
  ultimately show ?thesis using r by (intro exI [of _ idx'] exI [of _ m']) simp
qed

theorem hide_entry_below_wraps_witness:
  "\<exists>idx' m'. hide_entry 0x8000 0x1000 0x2000 0 0x6000
      (small_heap\<lparr>mem := one_entry_map(0x6005 := 0x20)\<rparr>) = Inr (idx', small_heap\<lparr>mem := m'\<rparr>)
    \<and> unat (mm_len m' 0x8000) = 2 ^ 64 - 0x1000"
proof -
  let ?m = "one_entry_map(0x6005 := 0x20)"
  have f: "mm_type ?m 0x6000 = 1" "mm_addr ?m 0x6000 = 0x2000" "mm_len ?m 0x6000 = 0x9000"
    by (simp_all add: one_entry_map_def mm_fields mem_eval)
  show ?thesis
    using hide_entry_below_wraps [of "small_heap\<lparr>mem := ?m\<rparr>" "0x6000" "0x1000" "0x2000" "0x8000" 0]
    by (simp add: f MULTIBOOT_MEMORY_AVAILABLE_def sep_def new_entry_def)
qed

section \<open>Translating the multiboot map\<close>

text \<open>
  The layout of the extended INT 15h/E820 entry: base and length (8 bytes each), type and extended
  attributes (4 bytes each); the size field stands before the entries.
\<close>

definition e820_layout_ok :: "e820_env \<Rightarrow> bool" where
  "e820_layout_ok V \<longleftrightarrow> sizeof_entry V = 24 \<and> o_base V = 0 \<and> o_length V = 8 \<and> o_range_type V = 16 \<and> o_ext V = 20
     \<and> unat (o_map_size V) + 4 \<le> unat (o_entries V) \<and> unat (o_entries V) \<le> 4096"

definition e820_read :: "e820_env \<Rightarrow> mem \<Rightarrow> u32 \<Rightarrow> u64 \<times> u64 \<times> u32 \<times> u32" where
  "e820_read V m e = (load64 m (e + o_base V), load64 m (e + o_length V), load32 m (e + o_range_type V),
     load32 m (e + o_ext V))"

definition e820_of :: "mem \<Rightarrow> u32 \<Rightarrow> u64 \<times> u64 \<times> u32 \<times> u32" where
  "e820_of m a = (mm_addr m a, mm_len m a, mm_type m a, 1)"

lemma not_in_e820:
  "\<not> in_range e 24 x \<Longrightarrow>
     \<not> in_range e 8 x \<and> \<not> in_range (e + 8) 8 x \<and> \<not> in_range (e + 16) 4 x \<and> \<not> in_range (e + 20) 4 x"
  using not_sub_block(1) [of e 24 x 8 8] not_sub_block(1) [of e 24 x 16 4] not_sub_block(1) [of e 24 x 20 4]
    not_sub_block(2) [of e 24 x 8] by simp

lemma e820_put_frame:
  "e820_layout_ok V \<Longrightarrow> \<not> in_range (e820_entry V p i) 24 x \<Longrightarrow> e820_put V p i a m x = m x"
  using not_in_e820 [of "e820_entry V p i" x] by (simp add: e820_put_def e820_layout_ok_def Let_def store_other)

lemma e820_put_read:
  assumes L: "e820_layout_ok V" and sp: "sep (e820_entry V p i) 24 a 24"
  shows "e820_read V (e820_put V p i a m) (e820_entry V p i) = e820_of m a"
proof -
  let ?e = "e820_entry V p i"
  let ?m1 = "store64 ?e (mm_addr m a) m"
  let ?m2 = "store64 (?e + 8) (mm_len m a) ?m1"
  have "agree_on a 24 m ?m1" "agree_on a 24 m ?m2" 
    by (rule frame_agree [OF _ sp]; use not_in_e820 in \<open>simp add: store_other\<close>)+
  then have "mm_len ?m1 a = mm_len m a" "mm_type ?m2 a = mm_type m a" by (simp_all add: mm_read_cong)
  then have "e820_put V p i a m = store32 (?e + 20) 1 (store32 (?e + 16) (mm_type m a) ?m2)"
    using L by (simp add: e820_put_def e820_layout_ok_def Let_def)
  then show ?thesis
    using L by (simp add: e820_read_def e820_of_def e820_layout_ok_def load_after_store sep_def)
qed

lemma e820_read_cong:
  assumes "e820_layout_ok V" and "agree_on e 24 m m'"
  shows "e820_read V m' e = e820_read V m e"
  using agree_on_load [OF assms(2)] assms(1) by (simp add: e820_read_def e820_layout_ok_def inside_def)

lemma e820_of_cong: "agree_on a 24 m m' \<Longrightarrow> e820_of m' a = e820_of m a"
  by (simp add: e820_of_def mm_read_cong)

lemma e820_entry_add:
  "e820_layout_ok V \<Longrightarrow> e820_entry V p (i + k) = e820_entry V p i + of_nat (24 * k)"
  by (simp add: e820_entry_def e820_layout_ok_def algebra_simps)

lemma e820_copy_loop_ok:
  assumes "e820_layout_ok V" and "mmap_walk m nxt tab_end es" and "\<And>e. e \<in> set es \<Longrightarrow> sep B K e 24"
    and "\<And>x. in_range (e820_entry V p i) (24 * length es) x \<Longrightarrow> in_range B K x" and "24 * length es < 2 ^ 32"
  shows "\<exists>m'. e820_copy_loop V p tab_end i nxt m = Some (i + length es, m')
    \<and> (\<forall>j < length es. e820_read V m' (e820_entry V p (i + j)) = e820_of m (es ! j))
    \<and> (\<forall>x. \<not> in_range (e820_entry V p i) (24 * length es) x \<longrightarrow> m' x = m x)"
  using assms(2-)
proof (induction es arbitrary: m nxt i)
  case Nil
  then show ?case by (subst e820_copy_loop.simps) simp
next
  case (Cons e es)
  note L = assms(1)
  let ?m1 = "e820_put V p i nxt m" and ?e = "e820_entry V p i"
  have e: "e = nxt" "nxt < tab_end" "mmap_walk m (nxt + mm_size m nxt + 4) tab_end es" using Cons.prems(1) by simp_all
  have len: "24 * (1 + length es) < 2 ^ 32" using Cons.prems(4) by simp
  note split = block_split [OF len, of ?e]
  have nx: "e820_entry V p (Suc i) = ?e + of_nat (24 * 1)" using e820_entry_add [OF L, of p i 1] by simp
  have w1: "in_range B K x" if "in_range ?e 24 x" for x
    using Cons.prems(3) [of x] in_range_mono [OF that] by simp
  have w2: "in_range B K x" if "in_range (e820_entry V p (Suc i)) (24 * length es) x" for x
    using Cons.prems(3) [of x] split(1) [of x] that nx by simp
  have ag: "agree_on a 24 m ?m1" if "a \<in> set (e # es)" for a
    using window_agree [OF Cons.prems(2) [OF that] w1] e820_put_frame [OF L] by blast
  have "sep ?e 24 nxt 24"
    by (rule sep_iff_disjoint) (use w1 sep_in_range [OF Cons.prems(2) [of nxt]] e(1) in auto)
  then have r0: "e820_read V ?m1 ?e = e820_of m nxt" by (rule e820_put_read [OF L])
  have sz: "mm_size ?m1 nxt = mm_size m nxt" using mm_read_cong(2) [OF ag [of nxt]] e(1) by simp
  have "mmap_walk ?m1 (nxt + mm_size m nxt + 4) tab_end es"
    using e(3) by (rule mmap_walk_cong) (use ag in simp)
  from Cons.IH [where i = "Suc i", OF this Cons.prems(2) w2] len
  obtain m' where run: "e820_copy_loop V p tab_end (Suc i) (nxt + mm_size m nxt + 4) ?m1 = Some (Suc i + length es, m')"
    and t: "\<And>j. j < length es \<Longrightarrow> e820_read V m' (e820_entry V p (Suc i + j)) = e820_of ?m1 (es ! j)"
    and f: "\<And>x. \<not> in_range (e820_entry V p (Suc i)) (24 * length es) x \<Longrightarrow> m' x = ?m1 x" by auto
  have "?m1 x = m' x" if "in_range ?e 24 x" for x
    using f [of x] split(2) [of x] that nx by fastforce
  then have keep: "e820_read V m' ?e = e820_read V ?m1 ?e"
    by (intro e820_read_cong [OF L]) (simp add: agree_on_def)
  have "e820_read V m' (e820_entry V p (i + j)) = e820_of m ((e # es) ! j)" if "j < length (e # es)" for j
  proof (cases j)
    case 0
    with keep r0 e(1) show ?thesis by simp
  next
    case (Suc k)
    with t [of k] e820_of_cong [OF ag, of "es ! k"] that show ?thesis by simp
  qed
  moreover have "m' x = m x" if "\<not> in_range ?e (24 * length (e # es)) x" for x
    using f [of x] split(1) [of x] that nx e820_put_frame [OF L, of p i x] by simp
  moreover have "e820_copy_loop V p tab_end i nxt m = Some (i + length (e # es), m')"
    using run e(2) sz by (subst e820_copy_loop.simps) (simp add: Let_def add.assoc)
  ultimately show ?case by blast
qed

text \<open>
  C16. On a well-formed multiboot map that fits the page, \<^verbatim>\<open>get_e820_table_from_multiboot\<close> returns 0, stores
  the address of a new page, and the page lists every entry of the map in order with the same base, length and
  type, marked as enabled, and the size of the table.
\<close>

theorem e820_from_multiboot_correct:
  fixes s :: loader_state and V :: e820_env and td mbi :: u32
  defines "mbi \<equiv> saved_mbi V (mem s) td"
  assumes L: "e820_layout_ok V"
    and ok: "mbi_flags (mem s) mbi AND 3 \<noteq> 0" "mmap_length (mem s) mbi \<le> 4096"
    and page: "mon_page_alloc af 1 s = (p, s1)" "p \<noteq> 0"
    and walk: "mmap_walk (mem s) (mmap_addr (mem s) mbi) (mmap_addr (mem s) mbi + mmap_length (mem s) mbi) es"
    and fits: "unat (o_entries V) + 24 * length es \<le> 4096"
    and apart: "list_all (\<lambda>e. sep p 4096 e 24) es" "sep p 4096 mbi 52" "sep p 4096 dest 8"
  shows "\<exists>s'. get_e820_table_from_multiboot V af td dest s = Some (0, s') \<and> load64 (mem s') dest = ucast p
    \<and> load32 (mem s') (p + o_map_size V) = 24 * of_nat (length es)
    \<and> (\<forall>j < length es. e820_read V (mem s') (e820_entry V p j) = e820_of (mem s) (es ! j))"
proof -
  have m1: "mem s1 = zero_mem p 4096 (mem s)"
    using page by (auto simp: mon_page_alloc_def PAGE_SIZE_def Let_def split: if_splits)
  have ag: "agree_on b k (mem s) (mem s1)" if "sep p 4096 b k" for b k
    by (rule frame_agree [OF _ that]) (simp add: m1 zero_mem_apply)
  have same: "mmap_addr (mem s1) mbi = mmap_addr (mem s) mbi" "mmap_length (mem s1) mbi = mmap_length (mem s) mbi"
    using agree_on_load(2) [OF ag [OF apart(2)]] by (simp_all add: mmap_addr_def mmap_length_def inside_def)
  have walk1: "mmap_walk (mem s1) (mmap_addr (mem s) mbi) (mmap_addr (mem s) mbi + mmap_length (mem s) mbi) es"
    using walk by (rule mmap_walk_cong) (use ag apart(1) in \<open>simp add: list_all_iff\<close>)
  have e0: "e820_entry V p 0 = p + o_entries V" by (simp add: e820_entry_def)
  have win: "in_range p 4096 x" if "in_range (e820_entry V p 0) (24 * length es) x" for x
    using sub_block [of p "o_entries V" "24 * length es" x 4096] that fits by (simp add: e0)
  obtain m2 where run: "e820_copy_loop V p (mmap_addr (mem s) mbi + mmap_length (mem s) mbi) 0 (mmap_addr (mem s) mbi) (mem s1)
      = Some (length es, m2)"
    and tab: "\<And>j. j < length es \<Longrightarrow> e820_read V m2 (e820_entry V p j) = e820_of (mem s1) (es ! j)"
    using e820_copy_loop_ok [OF L walk1, where B = p and K = 4096 and p = p and i = 0] apart(1) fits win
    by (auto simp: list_all_iff)
  let ?m3 = "store32 (p + o_map_size V) (24 * of_nat (length es)) m2"
  let ?m4 = "store64 dest (ucast p) ?m3"
  have pm: "sep (p + o_map_size V) 4 dest 8"
    using sep_sym [OF sep_part [OF sep_sym [OF apart(3)], of "p + o_map_size V" 4]] L
    by (simp add: inside_def e820_layout_ok_def)
  have "e820_read V ?m4 (e820_entry V p j) = e820_of (mem s) (es ! j)" if j: "j < length es" for j
  proof -
    have uj: "unat (of_nat (24 * j) :: u32) = 24 * j" using fits j by (intro unat_of_nat32) simp
    have ej: "e820_entry V p j = p + o_entries V + of_nat (24 * j)"
      using e820_entry_add [OF L, of p 0 j] e0 by simp
    have "agree_on (e820_entry V p j) 24 m2 ?m4"
      unfolding agree_on_def
    proof (intro allI impI)
      fix x
      assume x: "in_range (e820_entry V p j) 24 x"
      then have "in_range (p + o_entries V) (24 * length es) x"
        using sub_block [of "p + o_entries V" "of_nat (24 * j)" 24 x "24 * length es"] uj j by (simp add: ej)
      then have "in_range p 4096 x" and "\<not> in_range (p + o_map_size V) 4 x"
        using win [of x] blocks_apart [of p "o_entries V" "24 * length es" x "o_map_size V" 4] L fits
        by (simp_all add: e0 e820_layout_ok_def)
      then show "m2 x = ?m4 x"
        using sep_in_range [OF sep_sym [OF apart(3)]] by (simp add: store_other)
    qed
    moreover have "e820_of (mem s1) (es ! j) = e820_of (mem s) (es ! j)"
      by (rule e820_of_cong [OF ag]) (use apart(1) j in \<open>simp add: list_all_iff\<close>)
    ultimately show ?thesis using tab [OF j] e820_read_cong [OF L] by simp
  qed
  moreover have "load32 ?m4 (p + o_map_size V) = 24 * of_nat (length es)"
    using sep_sym [OF pm] by (simp add: load_after_store)
  moreover have "get_e820_table_from_multiboot V af td dest s = Some (0, s1\<lparr>mem := ?m4\<rparr>)"
    using ok page same run L
    by (simp add: get_e820_table_from_multiboot_def mbi_def [symmetric] Let_def e820_layout_ok_def not_less mult.commute)
  ultimately show ?thesis by (intro exI [of _ "s1\<lparr>mem := ?m4\<rparr>"]) simp
qed

text \<open>The packed layout, with the saved register at offset \<^verbatim>\<open>0x18\<close> of the guest state.\<close>

definition std_e820 :: e820_env where
  "std_e820 = \<lparr>o_reg_rbx = 0x18, o_map_size = 0, o_entries = 4, sizeof_entry = 24, o_base = 0, o_length = 8,
     o_range_type = 16, o_ext = 20, set_enabled = (\<lambda>w. w OR 1),
     TYPE_MEMORY = 1, TYPE_ACPI = 3, TYPE_NVS = 4, TYPE_RESERVED = 2\<rparr>"

text \<open>A package header at \<^verbatim>\<open>0x4000\<close> of size 512, whose guest state points at the map above.\<close>

definition one_entry_boot :: mem where
  "one_entry_boot = one_entry_map(0x5000 := 0x43, 0x4048 := 1, 0x4218 := 0, 0x4219 := 0x50)"

theorem e820_from_multiboot_correct_witness:
  "\<exists>s'. get_e820_table_from_multiboot std_e820 page_round_up 0x4000 0xA000 (small_heap\<lparr>mem := one_entry_boot\<rparr>)
      = Some (0, s')
    \<and> load64 (mem s') 0xA000 = 0x1000 \<and> e820_read std_e820 (mem s') 0x1004 = (0, 0x9000, 1, 1)"
proof -
  let ?s = "small_heap\<lparr>mem := one_entry_boot\<rparr>"
  have mbi: "saved_mbi std_e820 (mem ?s) 0x4000 = 0x5000"
    by (simp add: saved_mbi_def GUEST1_BASE_def XMON_PKG_SIZE_def guest1_start_def guest1_count_def
        std_e820_def one_entry_boot_def one_entry_map_def mem_eval)
  have f: "mbi_flags one_entry_boot 0x5000 = 0x43" "mmap_length one_entry_boot 0x5000 = 24"
    "mmap_addr one_entry_boot 0x5000 = 0x6000" "mm_size one_entry_boot 0x6000 = 20"
    "e820_of one_entry_boot 0x6000 = (0, 0x9000, 1, 1)"
    by (simp_all add: one_entry_boot_def one_entry_map_def mbi_fields mm_fields e820_of_def mem_eval)
  have L: "e820_layout_ok std_e820" by (simp add: e820_layout_ok_def std_e820_def)
  obtain s1 where p: "mon_page_alloc page_round_up 1 ?s = (0x1000, s1)"
    by (simp add: mon_page_alloc_def PAGE_SIZE_def page_round_up_def small_heap_def Let_def)
  have "\<exists>s'. get_e820_table_from_multiboot std_e820 page_round_up 0x4000 0xA000 ?s = Some (0, s')
    \<and> load64 (mem s') 0xA000 = ucast (0x1000 :: u32)
    \<and> load32 (mem s') (0x1000 + o_map_size std_e820) = 24 * of_nat (length [0x6000 :: u32])
    \<and> (\<forall>j < length [0x6000 :: u32]. e820_read std_e820 (mem s') (e820_entry std_e820 0x1000 j)
          = e820_of (mem ?s) ([0x6000] ! j))"
    by (rule e820_from_multiboot_correct [OF L _ _ p], unfold mbi)
      (simp_all add: f sep_def, simp_all add: std_e820_def)
  then show ?thesis by (auto simp: e820_entry_def f std_e820_def)
qed

end
