(* ===== verification/Linux_Loader.thy ===== *)
theory Linux_Loader
  imports E820
begin

text \<open>
  Starting the Linux kernel of the primary guest, \<^verbatim>\<open>pre_os/xmon_loader/linux_loader.c\<close> and
  \<^verbatim>\<open>linux_loader.h\<close>, and \<^verbatim>\<open>primary_guest.c\<close>. The kernel image starts with the header \<^verbatim>\<open>linux_kernel_header_t\<close>, whose
  packed part \<^verbatim>\<open>setup_header_t\<close> begins at offset \<^verbatim>\<open>0x1F1\<close>; the loader edits that header in place and copies it
  into the boot parameters. \<^verbatim>\<open>PAGE_ALIGN_4K\<close> and \<^verbatim>\<open>PAGE_4KB_MASK\<close> belong to the core and are the
  parameters \<open>pa\<close> and \<open>pmask\<close>.

  The functions return their result with the new state, or \<open>None\<close> when a string has no end. The jump into the kernel does
  not return: it is a value of \<open>launch\<close>, with the descriptor-table register and the two
  arguments of the jump.
\<close>

section \<open>Constants and layout\<close>

definition E820_RESERVED_MEM :: u32 where "E820_RESERVED_MEM = 2"
definition E820_BAD_MEM :: u32 where "E820_BAD_MEM = 5"
definition SECTOR_SIZE :: u32 where "SECTOR_SIZE = push_bit 9 1"
definition DEFAULT_SECTOR_NUM :: u8 where "DEFAULT_SECTOR_NUM = 4"
definition MAX_SECTOR_NUM :: u8 where "MAX_SECTOR_NUM = 64"
definition HDRS_MAGIC :: u32 where "HDRS_MAGIC = 0x53726448"
definition GRUB_LINUX_BOOT_LOADER_TYPE :: u8 where "GRUB_LINUX_BOOT_LOADER_TYPE = 0x72"
definition FLAG_LOAD_HIGH :: u8 where "FLAG_LOAD_HIGH = 0x01"
definition FLAG_CAN_USE_HEAP :: u8 where "FLAG_CAN_USE_HEAP = 0x80"
definition GRUB_LINUX_VID_MODE_NORMAL :: u16 where "GRUB_LINUX_VID_MODE_NORMAL = 0xFFFF"
definition MVMLINUZ :: u32 where "MVMLINUZ = 0"
definition MINITRD :: u32 where "MINITRD = 1"

text \<open>Offsets in the packed setup header, and the sizes of the structs.\<close>

definition o_setup_sects :: u32 where "o_setup_sects = 0"
definition o_vid_mode :: u32 where "o_vid_mode = 9"
definition o_header :: u32 where "o_header = 17"
definition o_version :: u32 where "o_version = 21"
definition o_type_of_loader :: u32 where "o_type_of_loader = 31"
definition o_loadflags :: u32 where "o_loadflags = 32"
definition o_code32_start :: u32 where "o_code32_start = 35"
definition o_ramdisk_image :: u32 where "o_ramdisk_image = 39"
definition o_ramdisk_size :: u32 where "o_ramdisk_size = 43"
definition o_cmd_line_ptr :: u32 where "o_cmd_line_ptr = 55"
definition o_initrd_addr_max :: u32 where "o_initrd_addr_max = 59"
definition o_relocatable_kernel :: u32 where "o_relocatable_kernel = 67"
definition o_cmdline_size :: u32 where "o_cmdline_size = 71"
definition o_init_size :: u32 where "o_init_size = 111"
definition sizeof_setup_header :: u32 where "sizeof_setup_header = 115"
definition sizeof_linux_kernel_header :: u32 where "sizeof_linux_kernel_header = 0x1F1 + 115"

lemmas setup_offsets = o_setup_sects_def o_vid_mode_def o_header_def o_version_def o_type_of_loader_def
  o_loadflags_def o_code32_start_def o_ramdisk_image_def o_ramdisk_size_def o_cmd_line_ptr_def
  o_initrd_addr_max_def o_relocatable_kernel_def o_cmdline_size_def o_init_size_def

text \<open>Offsets in the boot parameters.\<close>

definition o_tboot_shared_addr :: u32 where "o_tboot_shared_addr = 0x58"
definition o_e820_entries :: u32 where "o_e820_entries = 0x1e8"
definition o_setup_hdr :: u32 where "o_setup_hdr = 0x1f1"
definition o_e820_map :: u32 where "o_e820_map = 0x2d0"
definition sizeof_boot_params :: u32 where "sizeof_boot_params = 0x1000"
definition E820MAX :: nat where "E820MAX = 128"

section \<open>Modules and memory\<close>

definition get_mbi_module :: "u32 \<Rightarrow> u32 \<Rightarrow> loader_state \<Rightarrow> u32 \<times> loader_state" where
  "get_mbi_module mbi midx s =
     (if mods_count (mem s) mbi = 0 then (0, print_string (lit ''At least one module available.\<newline>'') s)
      else if midx > mods_count (mem s) mbi then (0, s)
      else (mods_addr (mem s) mbi + midx * 16, s))"

text \<open>
  The loop over the map as an array of 24-byte entries; it stops at the first available
  region that reaches past the limit.
\<close>

fun highest_ram_loop :: "mem \<Rightarrow> u32 \<Rightarrow> u64 \<Rightarrow> u64 \<Rightarrow> nat \<Rightarrow> nat \<Rightarrow> u64 \<Rightarrow> u64 \<Rightarrow> u64 \<times> u64" where
  "highest_ram_loop m mmap sz limit i 0 last_fit_base last_fit_size = (last_fit_base, last_fit_size)"
| "highest_ram_loop m mmap sz limit i (Suc k) last_fit_base last_fit_size =
     (let ent = mmap + of_nat i * 24 in
      if mm_type m ent = MULTIBOOT_MEMORY_AVAILABLE then
        let base = mm_addr m ent; len = mm_len m ent in
        if base + len > limit then (last_fit_base, last_fit_size)
        else if sz \<le> len \<and> base > last_fit_base
        then highest_ram_loop m mmap sz limit (Suc i) k base len
        else highest_ram_loop m mmap sz limit (Suc i) k last_fit_base last_fit_size
      else highest_ram_loop m mmap sz limit (Suc i) k last_fit_base last_fit_size)"

definition get_highest_sized_ram :: "mem \<Rightarrow> u32 \<Rightarrow> u64 \<Rightarrow> u64 \<Rightarrow> u64 \<times> u64" where
  "get_highest_sized_ram m mbi sz limit =
     highest_ram_loop m (mmap_addr m mbi) sz limit 0 (unat (mmap_length m mbi div 24)) 0 0"

section \<open>setup_boot_params\<close>

text \<open>One entry of the boot parameters' map: packed, 20 bytes.\<close>

definition boot_e820_put :: "u32 \<Rightarrow> u32 \<Rightarrow> nat \<Rightarrow> mem \<Rightarrow> mem" where
  "boot_e820_put boot_params mmap i m =
     (let e = boot_params + o_e820_map + of_nat i * 20; src = mmap + of_nat i * 24;
          m1 = store64 e (mm_addr m src) m;
          m2 = store64 (e + 8) (mm_len m1 src) m1
      in if mm_type m2 src = E820_BAD_MEM then store32 (e + 16) E820_RESERVED_MEM m2
         else store32 (e + 16) (mm_type m2 src) m2)"

text \<open>The count is computed from the multiboot information in every iteration.\<close>

partial_function (option) boot_e820_loop :: "u32 \<Rightarrow> u32 \<Rightarrow> u32 \<Rightarrow> nat \<Rightarrow> mem \<Rightarrow> (nat \<times> mem) option" where
  "boot_e820_loop mbi boot_params mmap i m =
     (if i < unat (mmap_length m mbi div 24)
      then boot_e820_loop mbi boot_params mmap (Suc i) (boot_e820_put boot_params mmap i m)
      else Some (i, m))"

definition setup_screen :: "u32 \<Rightarrow> mem \<Rightarrow> mem" where
  "setup_screen screen m =
     (let m = store8 (screen + 0x06) 3 m;
          m = store8 (screen + 0x0e) 25 m;
          m = store8 (screen + 0x07) 80 m;
          m = store16 (screen + 0x10) 16 m;
          m = store8 (screen + 0x0f) 1 m;
          m = store8 (screen + 0x01) 24 m
      in store16 (screen + 0x0a) 0 m)"

definition setup_boot_params :: "u32 \<Rightarrow> u32 \<Rightarrow> u32 \<Rightarrow> loader_state \<Rightarrow> (bool \<times> loader_state) option" where
  "setup_boot_params mbi boot_params hdr s =
     (let m1 = mon_memcpy (boot_params + o_setup_hdr) (hdr + o_setup_hdr) sizeof_setup_header (mem s) in
      if mbi_flags m1 mbi AND MBI_MEMMAP \<noteq> 0 then
        do {
          (i, m2) \<leftarrow> boot_e820_loop mbi boot_params (mmap_addr m1 mbi) 0 m1;
          let m3 = store8 (boot_params + o_e820_entries) (of_nat i) m2;
          Some (True, s\<lparr>mem := store64 (boot_params + o_tboot_shared_addr) 0 (setup_screen boot_params m3)\<rparr>) }
      else
        Some (False, print_string
          (lit ''ERROR: something was wrong, why no memory map info in multiboot info structure\<newline>'') (s\<lparr>mem := m1\<rparr>)))"

definition linux_strlen :: "mem \<Rightarrow> u32 \<Rightarrow> u32 option" where
  "linux_strlen m str = strlen_loop m str 0"

section \<open>expand_linux_image\<close>

text \<open>The target address of the initrd.\<close>

definition initrd_target :: "u32 \<Rightarrow> mem \<Rightarrow> u32 \<Rightarrow> u64 \<Rightarrow> u64 \<Rightarrow> u32 \<Rightarrow> u32" where
  "initrd_target pmask m sh max_ram_base max_ram_size initrd_size =
     (let initrd_base = ucast (max_ram_base + max_ram_size - ucast initrd_size) AND NOT pmask in
      if initrd_base + initrd_size > load32 m (sh + o_initrd_addr_max)
      then (load32 m (sh + o_initrd_addr_max) - initrd_size) AND NOT pmask
      else initrd_base)"

text \<open>
  The last part: place the initrd, fill in the header, copy the command line, set up the
  boot parameters. \<open>Some (Inr (bp, entry), s)\<close> is success.
\<close>

definition finish_linux_image ::
    "(u32 \<Rightarrow> u32) \<Rightarrow> u32 \<Rightarrow> u32 \<Rightarrow> u32 \<Rightarrow> u32 \<Rightarrow> u32 \<Rightarrow> u32 \<Rightarrow> u32 \<Rightarrow> u32 \<Rightarrow> loader_state
      \<Rightarrow> ((unit + u32 \<times> u32) \<times> loader_state) option" where
  "finish_linux_image pa mbi linux_image boot_params prot_size protected_mode_base initrd_image initrd_size initrd_base s =
     (let sh = linux_image + o_setup_hdr; has_initrd = (initrd_image \<noteq> 0 \<and> initrd_size \<noteq> 0) in
      if has_initrd \<and> protected_mode_base + pa prot_size > initrd_base
      then Some (Inl (), print_string
        (lit ''ERROR: Initrd size is too large (or protected mode code size is too large)\<newline>'') s)
      else
        let m = mem s;
            m = (if has_initrd then
                   store32 (sh + o_ramdisk_size) initrd_size
                     (store32 (sh + o_ramdisk_image) initrd_base (mon_memcpy initrd_base initrd_image initrd_size m))
                 else store32 (sh + o_ramdisk_size) 0 (store32 (sh + o_ramdisk_image) 0 m));
            m = store32 (sh + o_code32_start) protected_mode_base m;
            m = store16 (sh + o_vid_mode) GRUB_LINUX_VID_MODE_NORMAL m;
            (md, s) = get_mbi_module mbi MVMLINUZ (s\<lparr>mem := m\<rparr>);
            kernel_cmdline = mod_cmdline (mem s) md
        in do {
          len \<leftarrow> linux_strlen (mem s) kernel_cmdline;
          if len > load32 (mem s) (sh + o_cmdline_size)
          then Some (Inl (), print_string (lit ''WARN: cmdline size exceeds the max allowable value\<newline>'') s)
          else do {
            let m = mon_memcpy (load32 (mem s) (sh + o_cmd_line_ptr)) kernel_cmdline len (mem s);
            (ok, s) \<leftarrow> setup_boot_params mbi boot_params linux_image (s\<lparr>mem := m\<rparr>);
            if \<not> ok
            then Some (Inl (), print_string (lit ''ERROR: failed to configure linux boot parames\<newline>'') s)
            else Some (Inr (boot_params, load32 (mem s) (boot_params + o_setup_hdr + o_code32_start)), s) } })"

text \<open>
  The whole function; \<open>boot_param_addr\<close> and \<open>entry_point\<close> are locals of the only caller, so the
  check that they are not NULL never fails.
\<close>

definition expand_linux_image ::
    "(u32 \<Rightarrow> u32) \<Rightarrow> u32 \<Rightarrow> u32 \<Rightarrow> u32 \<Rightarrow> u32 \<Rightarrow> u32 \<Rightarrow> u32 \<Rightarrow> loader_state
      \<Rightarrow> ((unit + u32 \<times> u32) \<times> loader_state) option" where
  "expand_linux_image pa pmask mbi linux_image linux_size initrd_image initrd_size s =
     (if linux_image = 0 \<or> linux_size = 0 \<or> linux_size < sizeof_linux_kernel_header then Some (Inl (), s)
      else
        let sh = linux_image + o_setup_hdr;
            m = (if mem s (sh + o_setup_sects) = 0 then store8 (sh + o_setup_sects) DEFAULT_SECTOR_NUM (mem s) else mem s);
            s = s\<lparr>mem := m\<rparr> in
        if m (sh + o_setup_sects) > MAX_SECTOR_NUM
        then Some (Inl (), print_string (lit ''ERROR: exceed the max sector number, invalid kernel\<newline>'') s)
        else if load32 m (sh + o_header) \<noteq> HDRS_MAGIC
        then Some (Inl (), print_string (lit ''ERROR: Old kernel header magic not supported now\<newline>'') s)
        else if m (sh + o_loadflags) AND FLAG_LOAD_HIGH = 0
        then Some (Inl (), print_string
          (lit ''ERROR: cannot support the old kernel that not loaded to high memory\<newline>'') s)
        else
          let real_mode_size = (ucast (m (sh + o_setup_sects)) + 1) * SECTOR_SIZE;
              (boot_params, s) = allocate_memory (sizeof_boot_params + load32 m (sh + o_cmdline_size)) s in
          if boot_params = 0
          then Some (Inl (), print_string (lit ''Allocate memory for linux boot_params failed\<newline>'') s)
          else
            let m = store32 (sh + o_cmd_line_ptr) (boot_params + sizeof_boot_params) (mem s); s = s\<lparr>mem := m\<rparr> in
            if load16 m (sh + o_version) < 0x020a
            then Some (Inl (), print_string_value
              (lit ''Boot protocol version < 2.10, not supported right now. ver=0x%'')
              (ucast (load16 m (sh + o_version))) s)
            else
              let prot_size = pa (load32 m (sh + o_init_size));
                  m = store8 (sh + o_type_of_loader) GRUB_LINUX_BOOT_LOADER_TYPE m;
                  m = store8 (sh + o_loadflags) (m (sh + o_loadflags) AND NOT FLAG_CAN_USE_HEAP) m;
                  s = s\<lparr>mem := m\<rparr>;
                  has_initrd = (initrd_image \<noteq> 0 \<and> initrd_size \<noteq> 0);
                  (max_ram_base, max_ram_size) =
                    get_highest_sized_ram m mbi (ucast initrd_size) 0x100000000;
                  initrd_base = initrd_target pmask m sh max_ram_base max_ram_size initrd_size in
              if has_initrd \<and> (max_ram_base = 0 \<or> max_ram_size = 0) then Some (Inl (), s)
              else if m (sh + o_relocatable_kernel) = 0
              then Some (Inl (), print_string
                (lit ''ERROR: Linux protected mode not loaded (old kernel not relocatable)\<newline>'') s)
              else finish_linux_image pa mbi linux_image boot_params prot_size (linux_image + real_mode_size)
                     initrd_image initrd_size initrd_base s)"

section \<open>Launching\<close>

datatype launch =
    Returned
  | Jump_to_kernel u16 u32 u32 u32 \<comment> \<open>GDT limit, GDT base, boot parameters, entry point\<close>

text \<open>The static table of four descriptors; \<open>gdt_table\<close> is its address.\<close>

definition linux_gdt :: "u64 list" where
  "linux_gdt = [0, 0, 0x00cf9b000000ffff, 0x00cf93000000ffff]"

definition jump_linux_image :: "u32 \<Rightarrow> u32 \<Rightarrow> u32 \<Rightarrow> launch" where
  "jump_linux_image gdt_table bootparams entry_point =
     Jump_to_kernel (of_nat (8 * length linux_gdt) - 1) gdt_table bootparams entry_point"

definition launch_linux_kernel ::
    "(u32 \<Rightarrow> u32) \<Rightarrow> u32 \<Rightarrow> u32 \<Rightarrow> u32 \<Rightarrow> loader_state \<Rightarrow> (launch \<times> loader_state) option" where
  "launch_linux_kernel pa pmask gdt_table mbi s =
     (let (md, s) = get_mbi_module mbi MVMLINUZ s in
      if md = 0 then Some (Returned, print_string (lit ''ERROR: get kernel module failed\<newline>'') s)
      else
        let kernel_image = mod_start (mem s) md; kernel_size = mod_end (mem s) md - mod_start (mem s) md;
            (md, s) = get_mbi_module mbi MINITRD s;
            (initrd_image, initrd_size) =
              (if md = 0 then (0, 0) else (mod_start (mem s) md, mod_end (mem s) md - mod_start (mem s) md))
        in do {
          (r, s) \<leftarrow> expand_linux_image pa pmask mbi kernel_image kernel_size initrd_image initrd_size s;
          case r of
            Inl _ \<Rightarrow> Some (Returned, print_string (lit ''ERROR: Failed to expand linux image\<newline>'') s)
          | Inr (boot_param_addr, kernel_entry_point) \<Rightarrow>
              Some (jump_linux_image gdt_table boot_param_addr kernel_entry_point, s) })"

section \<open>primary_guest.c\<close>

text \<open>
  After the monitor is up: hide its memory, then start Linux. Whatever \<^verbatim>\<open>hide_runtime_memory\<close> answers, the
  launch goes on; when the launch returns, the function loops forever, which is \<open>None\<close> here.
\<close>

definition load_primary_guest_kernel ::
    "e820_env \<Rightarrow> (u32 \<Rightarrow> u32) \<Rightarrow> u32 \<Rightarrow> u32 \<Rightarrow> u32 \<Rightarrow> loader_state \<Rightarrow> (launch \<times> loader_state) option" where
  "load_primary_guest_kernel V pa pmask gdt_table td s =
     (let mbi = saved_mbi V (mem s) td;
          s = print_string (lit ''LOADER: prepare to load primary os kernel!\<newline>'') s
      in do {
        (_, s) \<leftarrow> hide_runtime_memory mbi (STARTAP_BASE (mem s) td) (STARTAP_SIZE + XMON_SIZE (mem s) td) s;
        (r, s) \<leftarrow> launch_linux_kernel pa pmask gdt_table mbi s;
        (case r of Returned \<Rightarrow> None | Jump_to_kernel l b p e \<Rightarrow> Some (r, s)) })"

text \<open>The guest resumes at the entry stub with the package descriptor in RCX.\<close>

definition setup_primary_guest_env :: "u32 \<Rightarrow> u32 \<Rightarrow> u32 \<Rightarrow> u32 \<Rightarrow> mem \<Rightarrow> mem" where
  "setup_primary_guest_env o_rip o_rcx primary_guest_entry td m =
     (let g = GUEST1_BASE m td; m1 = store64 (g + o_rip) (ucast primary_guest_entry) m
      in store64 (g + o_rcx) (ucast td) m1)"

section \<open>The highest region\<close>

text \<open>
  The map as a list; the regions the search considers, up to the first available one past the limit; and what is asked for: an
  available region of at least the given size that ends below the limit.
\<close>

definition mm_array :: "mem \<Rightarrow> u32 \<Rightarrow> nat \<Rightarrow> nat \<Rightarrow> mm_entry list" where
  "mm_array m mmap i k = map (\<lambda>j. mm_read m (mmap + of_nat j * 24)) [i..<i + k]"

definition fitting :: "u64 \<Rightarrow> u64 \<Rightarrow> mm_entry list \<Rightarrow> mm_entry list" where
  "fitting sz limit es =
     filter (\<lambda>(s, a, l, t). t = MULTIBOOT_MEMORY_AVAILABLE \<and> sz \<le> l)
       (takeWhile (\<lambda>(s, a, l, t). \<not> (t = MULTIBOOT_MEMORY_AVAILABLE \<and> a + l > limit)) es)"

definition ram_fits :: "u64 \<Rightarrow> u64 \<Rightarrow> mm_entry \<Rightarrow> bool" where
  "ram_fits sz limit = (\<lambda>(s, a, l, t). t = MULTIBOOT_MEMORY_AVAILABLE \<and> unat a + unat l \<le> unat limit \<and> sz \<le> l)"

text \<open>The available regions in ascending order without overlap, none of them reaching the end of the 64-bit address space.\<close>

definition ascending_ram :: "mm_entry list \<Rightarrow> bool" where
  "ascending_ram es \<longleftrightarrow>
     (let rs = filter (\<lambda>(s, a, l, t). t = MULTIBOOT_MEMORY_AVAILABLE) es in
      sorted_wrt (\<lambda>(s, a, l, t) (s', a', l', t'). unat a + unat l \<le> unat a') rs
      \<and> list_all (\<lambda>(s, a, l, t). unat a + unat l < 2 ^ 64) rs)"

abbreviation entry_addr_of :: "mm_entry \<Rightarrow> u64" where
  "entry_addr_of e \<equiv> fst (snd e)"

abbreviation entry_len_of :: "mm_entry \<Rightarrow> u64" where
  "entry_len_of e \<equiv> fst (snd (snd e))"

definition best :: "u64 \<times> u64 \<Rightarrow> mm_entry \<Rightarrow> u64 \<times> u64" where
  "best r e = (if entry_addr_of e > fst r then (entry_addr_of e, entry_len_of e) else r)"

lemma highest_ram_loop_foldl:
  "highest_ram_loop m mmap sz limit i k b l = foldl best (b, l) (fitting sz limit (mm_array m mmap i k))"
proof (induction k arbitrary: i b l)
  case 0
  then show ?case by (simp add: mm_array_def fitting_def)
next
  case (Suc k)
  have "mm_array m mmap i (Suc k) = mm_read m (mmap + of_nat i * 24) # mm_array m mmap (Suc i) k"
    by (simp add: mm_array_def upt_conv_Cons del: upt_Suc)
  then show ?case
    by (simp add: Suc fitting_def mm_read_def best_def Let_def)
qed

lemma foldl_best:
  "fst (foldl best r es) = Max (insert (fst r) (entry_addr_of ` set es))
   \<and> (foldl best r es = r
     \<or> (\<exists>e \<in> set es. fst r < entry_addr_of e \<and> foldl best r es = (entry_addr_of e, entry_len_of e)))"
proof (induction es arbitrary: r)
  case Nil
  then show ?case by simp
next
  case (Cons e es)
  let ?r = "best r e"
  have "fst ?r = max (entry_addr_of e) (fst r)" by (auto simp: best_def max_def)
  then have "Max (insert (fst ?r) (entry_addr_of ` set es)) = Max (insert (fst r) (entry_addr_of ` set (e # es)))"
    by (cases "es = []") (simp_all add: max.assoc max.commute max.left_commute)
  moreover have "?r = r \<or> fst r < entry_addr_of e \<and> ?r = (entry_addr_of e, entry_len_of e)" by (simp add: best_def)
  ultimately show ?case using Cons [of ?r] by force
qed

text \<open>In ascending order nothing fits behind the first region that does not, so stopping there loses nothing.\<close>

lemma fitting_ascending: "ascending_ram es \<Longrightarrow> set (fitting sz limit es) = {e \<in> set es. ram_fits sz limit e}"
proof (induction es)
  case Nil
  then show ?case by (simp add: fitting_def)
next
  case (Cons e es)
  obtain s a l t where e: "e = (s, a, l, t)" by (cases e)
  have asc: "ascending_ram es" using Cons.prems by (auto simp: ascending_ram_def Let_def split: if_splits)
  show ?case
  proof (cases "t = MULTIBOOT_MEMORY_AVAILABLE")
    case False
    then have "fitting sz limit (e # es) = fitting sz limit es" by (simp add: fitting_def e)
    with False Cons.IH [OF asc] show ?thesis by (auto simp: e ram_fits_def)
  next
    case True
    have wrap: "unat (a + l) = unat a + unat l"
      using Cons.prems True by (auto simp: ascending_ram_def e Let_def unat_word_ariths(1))
    have after: "unat a + unat l \<le> unat a'" if "(s', a', l', t') \<in> set es" "t' = MULTIBOOT_MEMORY_AVAILABLE" for s' a' l' t'
      using Cons.prems True that by (auto simp: ascending_ram_def e Let_def)
    show ?thesis
    proof (cases "a + l > limit")
      case over: True
      then have "\<not> ram_fits sz limit e'" if "e' \<in> set (e # es)" for e'
        using that after wrap by (cases e') (fastforce simp: ram_fits_def e word_less_nat_alt)
      moreover have "fitting sz limit (e # es) = []" using over True by (simp add: fitting_def e)
      ultimately show ?thesis by auto
    next
      case False
      then have "ram_fits sz limit e \<longleftrightarrow> sz \<le> l" using True wrap by (simp add: ram_fits_def e word_less_nat_alt)
      moreover have "fitting sz limit (e # es) = (if sz \<le> l then e # fitting sz limit es else fitting sz limit es)"
        using False True by (simp add: fitting_def e)
      ultimately show ?thesis using Cons.IH [OF asc] by auto
    qed
  qed
qed

lemma get_highest_sized_ram_foldl:
  "get_highest_sized_ram m mbi sz limit
    = foldl best (0, 0) (fitting sz limit (mm_array m (mmap_addr m mbi) 0 (unat (mmap_length m mbi div 24))))"
  by (simp add: get_highest_sized_ram_def highest_ram_loop_foldl)

section \<open>Properties\<close>

text \<open>
  C38. \<^verbatim>\<open>get_highest_sized_ram\<close> on a memory map whose available regions are in ascending order: if an available region
  of at least the wanted size ends below the limit and does not start at address 0, the result is base and length of
  the highest such region of the map; otherwise the result is two zeros.
\<close>

theorem get_highest_sized_ram_correct:
  assumes "es = mm_array m (mmap_addr m mbi) 0 (unat (mmap_length m mbi div 24))" and "ascending_ram es"
  shows "if list_ex (\<lambda>e. ram_fits sz limit e \<and> entry_addr_of e \<noteq> 0) es
    then \<exists>e. e \<in> set es \<and> ram_fits sz limit e \<and> get_highest_sized_ram m mbi sz limit = (entry_addr_of e, entry_len_of e)
      \<and> list_all (\<lambda>e'. \<not> ram_fits sz limit e' \<or> entry_addr_of e' \<le> entry_addr_of e) es
    else get_highest_sized_ram m mbi sz limit = (0, 0)"
proof -
  let ?F = "fitting sz limit es" and ?r = "get_highest_sized_ram m mbi sz limit"
  have F: "set ?F = {e \<in> set es. ram_fits sz limit e}" by (rule fitting_ascending [OF assms(2)])
  have r: "?r = foldl best (0, 0) ?F" by (simp add: get_highest_sized_ram_foldl assms(1))
  have mx: "fst ?r = Max (insert 0 (entry_addr_of ` set ?F))"
    and cs: "?r = (0, 0) \<or> (\<exists>e \<in> set ?F. 0 < entry_addr_of e \<and> ?r = (entry_addr_of e, entry_len_of e))"
    using foldl_best [of "(0, 0)" ?F] by (simp_all add: r)
  have up: "entry_addr_of e \<le> fst ?r" if "e \<in> set ?F" for e
    unfolding mx using that by (intro Max_ge) auto
  show ?thesis
  proof (cases "list_ex (\<lambda>e. ram_fits sz limit e \<and> entry_addr_of e \<noteq> 0) es")
    case True
    then obtain e0 where "e0 \<in> set ?F" "entry_addr_of e0 \<noteq> 0" using F by (auto simp: list_ex_iff)
    then have "?r \<noteq> (0, 0)" using up [of e0] by (auto simp: word_le_nat_alt unat_eq_0)
    then obtain e where e: "e \<in> set ?F" "?r = (entry_addr_of e, entry_len_of e)" using cs by blast
    then have "list_all (\<lambda>e'. \<not> ram_fits sz limit e' \<or> entry_addr_of e' \<le> entry_addr_of e) es"
      using F up by (auto simp: list_all_iff)
    with e F show ?thesis unfolding if_P [OF True] by blast
  next
    case False
    then have "\<not> (\<exists>e \<in> set ?F. 0 < entry_addr_of e)" using F by (auto simp: list_ex_iff word_neq_0_conv)
    then have "?r = (0, 0)" using cs by blast
    then show ?thesis using False by simp
  qed
qed

text \<open>A multiboot structure at \<^verbatim>\<open>0x5000\<close> with a map of two available regions at \<^verbatim>\<open>0x6000\<close>, given by the upper bytes of their addresses.\<close>

definition two_regions :: "u8 \<Rightarrow> u8 \<Rightarrow> u8 \<Rightarrow> mem" where
  "two_regions b0 top0 b1 = (\<lambda>_. 0)(
     0x502C := 48, 0x5031 := 0x60,
     0x6000 := 20, 0x6006 := b0, 0x6008 := top0, 0x600E := 0x10, 0x6014 := 1,
     0x6018 := 20, 0x601E := b1, 0x6026 := 0x10, 0x602C := 1)"

lemma two_regions_map:
  "mm_array (two_regions 0x10 0 0x40) (mmap_addr (two_regions 0x10 0 0x40) 0x5000) 0
      (unat (mmap_length (two_regions 0x10 0 0x40) 0x5000 div 24))
    = [(20, 0x100000, 0x100000, 1), (20, 0x400000, 0x100000, 1)]"
  "mm_array (two_regions 0x10 1 0x40) (mmap_addr (two_regions 0x10 1 0x40) 0x5000) 0
      (unat (mmap_length (two_regions 0x10 1 0x40) 0x5000 div 24))
    = [(20, 0x100100000, 0x100000, 1), (20, 0x400000, 0x100000, 1)]"
  by (simp_all add: mm_array_def two_regions_def mbi_fields mm_read_def mm_fields mem_eval upt_rec)

theorem get_highest_sized_ram_correct_witness:
  "get_highest_sized_ram (two_regions 0x10 0 0x40) 0x5000 0x1000 0x100000000 = (0x400000, 0x100000)"
proof -
  let ?es = "[(20, 0x100000, 0x100000, 1), (20, 0x400000, 0x100000, 1)] :: mm_entry list"
  have "ascending_ram ?es" by (simp add: ascending_ram_def MULTIBOOT_MEMORY_AVAILABLE_def)
  from get_highest_sized_ram_correct [OF two_regions_map(1) [symmetric] this, of "0x1000" "0x100000000"]
  show ?thesis by (auto simp: ram_fits_def MULTIBOOT_MEMORY_AVAILABLE_def)
qed

text \<open>
  The comment on the function asks for the highest region of sufficient size below the limit, without a condition on the order
  of the map. In other orders the code misses it: with a region above the limit first, the region at 4 MB is not found.
\<close>

theorem get_highest_sized_ram_unsorted:
  "ram_fits 0x1000 0x100000000 (mm_array (two_regions 0x10 1 0x40) (mmap_addr (two_regions 0x10 1 0x40) 0x5000) 0
      (unat (mmap_length (two_regions 0x10 1 0x40) 0x5000 div 24)) ! 1)
    \<and> get_highest_sized_ram (two_regions 0x10 1 0x40) 0x5000 0x1000 0x100000000 = (0, 0)"
  unfolding get_highest_sized_ram_foldl two_regions_map
  by (simp add: ram_fits_def fitting_def MULTIBOOT_MEMORY_AVAILABLE_def)

text \<open>
  The index check of \<^verbatim>\<open>get_mbi_module\<close> accepts the index that equals the number of modules: with \<open>n\<close> modules,
  index \<open>n\<close> yields the address just past the module array instead of NULL.
\<close>

theorem get_mbi_module_past_end:
  assumes "mods_count (mem s) mbi \<noteq> 0"
  shows "get_mbi_module mbi (mods_count (mem s) mbi) s
    = (mods_addr (mem s) mbi + mods_count (mem s) mbi * 16, s)"
  using assms by (simp add: get_mbi_module_def)

theorem get_mbi_module_past_end_witness:
  "get_mbi_module 0x5000 1 (small_heap\<lparr>mem := (\<lambda>_. 0)(0x5014 := 1, 0x5019 := 0x60)\<rparr>)
    = (0x6010, small_heap\<lparr>mem := (\<lambda>_. 0)(0x5014 := 1, 0x5019 := 0x60)\<rparr>)"
proof -
  let ?s = "small_heap\<lparr>mem := (\<lambda>_. 0)(0x5014 := 1, 0x5019 := 0x60)\<rparr>"
  have f: "mods_count (mem ?s) 0x5000 = 1" "mods_addr (mem ?s) 0x5000 = 0x6000"
    by (simp_all add: mbi_fields mem_eval)
  show ?thesis using get_mbi_module_past_end [of ?s "0x5000"] unfolding f by simp
qed

text \<open>
  As long as the kernel's limit for the initrd does not force it lower, the initrd is placed at a page boundary
  inside the chosen region, provided the region starts on a page.
\<close>

theorem initrd_target_in_region:
  assumes "unat base + unat len \<le> 2 ^ 32" and "4096 dvd unat base" and "unat isz \<le> unat len" and "isz \<noteq> 0"
    and "unat base + unat len \<le> unat (load32 m (sh + o_initrd_addr_max))"
  shows "unat base \<le> unat (initrd_target 0xFFF m sh base len isz)
    \<and> unat (initrd_target 0xFFF m sh base len isz) + unat isz \<le> unat base + unat len
    \<and> 4096 dvd unat (initrd_target 0xFFF m sh base len isz)"
proof -
  let ?e = "base + len - ucast isz :: u64"
  have pos: "0 < unat isz" using assms(4) by (simp add: unat_gt_0)
  have bl: "unat (base + len) = unat base + unat len" using assms(1) by (simp add: unat_word_ariths(1))
  have e: "unat ?e = unat base + unat len - unat isz"
    using bl assms(3) by (simp add: unat_sub word_le_nat_alt)
  have u: "unat (ucast ?e :: u32) = unat ?e" using e assms(1,3) pos by (intro unat_ucast_small) simp
  have m: "NOT (0xFFF :: u32) = 0xFFFFF000" by (simp add: word_eq_iff_unsigned)
  let ?t = "ucast ?e AND NOT (0xFFF :: u32)"
  have t: "unat ?t = unat ?e div 4096 * 4096" using u by (simp only: m unat_and_page)
  have le: "unat ?t \<le> unat ?e" using t by simp
  have sum: "unat (?t + isz) = unat ?t + unat isz"
    using le e assms(3,5) unat_bound(3) [of "load32 m (sh + o_initrd_addr_max)"]
    by (simp add: unat_word_ariths(1))
  then have "\<not> ?t + isz > load32 m (sh + o_initrd_addr_max)"
    using le e assms(3,5) by (simp add: word_less_nat_alt)
  then have tgt: "initrd_target 0xFFF m sh base len isz = ?t" by (simp add: initrd_target_def Let_def)
  obtain k where k: "unat base = 4096 * k" using assms(2) by (elim dvdE)
  have "4096 * k \<le> unat ?e" using e assms(3) k by simp
  then have "unat base \<le> unat ?t" using t k by simp
  then show ?thesis using le e assms(3) t by (simp add: tgt)
qed

theorem initrd_target_in_region_witness:
  "4096 dvd unat (initrd_target 0xFFF (\<lambda>_. 0xFF) 0x5000 0x100000 0x200000 0x1234)"
proof -
  have f: "load32 (\<lambda>_. 0xFF) (0x5000 + o_initrd_addr_max) = 0xFFFFFFFF"
    by (simp add: load32_def)
  show ?thesis
    using initrd_target_in_region [of "0x100000" "0x200000" "0x1234" "\<lambda>_. 0xFF" "0x5000"] unfolding f by simp
qed

section \<open>The boot parameters' memory map\<close>

definition boot_entry :: "u32 \<Rightarrow> nat \<Rightarrow> u32" where
  "boot_entry bp i = bp + o_e820_map + of_nat i * 20"

definition boot_read :: "mem \<Rightarrow> u32 \<Rightarrow> u64 \<times> u64 \<times> u32" where
  "boot_read m e = (load64 m e, load64 m (e + 8), load32 m (e + 16))"

text \<open>What Linux is told of one map entry: bad memory is reported as reserved.\<close>

definition boot_of :: "mem \<Rightarrow> u32 \<Rightarrow> u64 \<times> u64 \<times> u32" where
  "boot_of m a = (mm_addr m a, mm_len m a, if mm_type m a = E820_BAD_MEM then E820_RESERVED_MEM else mm_type m a)"

lemma not_in_boot:
  "\<not> in_range e 20 x \<Longrightarrow> \<not> in_range e 8 x \<and> \<not> in_range (e + 8) 8 x \<and> \<not> in_range (e + 16) 4 x"
  using not_sub_block(1) [of e 20 x 8 8] not_sub_block(1) [of e 20 x 16 4] not_sub_block(2) [of e 20 x 8] by simp

lemma boot_put_frame: "\<not> in_range (boot_entry bp i) 20 x \<Longrightarrow> boot_e820_put bp mmap i m x = m x"
  using not_in_boot [of "boot_entry bp i" x] by (simp add: boot_e820_put_def boot_entry_def Let_def store_other)

lemma boot_put_read:
  assumes sp: "sep (boot_entry bp i) 20 (mmap + of_nat i * 24) 24"
  shows "boot_read (boot_e820_put bp mmap i m) (boot_entry bp i) = boot_of m (mmap + of_nat i * 24)"
proof -
  let ?e = "boot_entry bp i" and ?a = "mmap + of_nat i * 24"
  let ?m1 = "store64 ?e (mm_addr m ?a) m"
  let ?m2 = "store64 (?e + 8) (mm_len m ?a) ?m1"
  have "agree_on ?a 24 m ?m1" "agree_on ?a 24 m ?m2"
    by (rule frame_agree [OF _ sp]; use not_in_boot in \<open>simp add: store_other\<close>)+
  then have "mm_len ?m1 ?a = mm_len m ?a" "mm_type ?m2 ?a = mm_type m ?a" by (simp_all add: mm_read_cong)
  then have "boot_e820_put bp mmap i m = store32 (?e + 16) (snd (snd (boot_of m ?a))) ?m2"
    by (simp add: boot_e820_put_def boot_entry_def boot_of_def Let_def)
  then show ?thesis by (simp add: boot_read_def boot_of_def load_after_store sep_def)
qed

lemma boot_read_cong: "agree_on e 20 m m' \<Longrightarrow> boot_read m' e = boot_read m e"
  using agree_on_load [of e 20 m m'] by (simp add: boot_read_def inside_def)

lemma boot_of_cong: "agree_on a 24 m m' \<Longrightarrow> boot_of m' a = boot_of m a"
  by (simp add: boot_of_def mm_read_cong)

lemma boot_e820_loop_ok:
  assumes "unat (mmap_length m mbi div 24) = i + k" and "24 * (i + k) < 2 ^ 32"
    and "sep B K mmap (24 * (i + k))" and "sep B K mbi 52" and "0 < K"
    and "\<And>x. in_range (boot_entry bp i) (20 * k) x \<Longrightarrow> in_range B K x"
  shows "\<exists>m'. boot_e820_loop mbi bp mmap i m = Some (i + k, m')
    \<and> (\<forall>j < k. boot_read m' (boot_entry bp (i + j)) = boot_of m (mmap + of_nat (i + j) * 24))
    \<and> (\<forall>x. \<not> in_range (boot_entry bp i) (20 * k) x \<longrightarrow> m' x = m x)"
  using assms
proof (induction k arbitrary: m i)
  case 0
  then show ?case by (subst boot_e820_loop.simps) simp
next
  case (Suc k)
  let ?m1 = "boot_e820_put bp mmap i m" and ?e = "boot_entry bp i"
  have len: "20 * (1 + k) < 2 ^ 32" using Suc.prems(2) by simp
  note split = block_split [OF len, of ?e]
  have nx: "boot_entry bp (Suc i) = ?e + of_nat (20 * 1)" by (simp add: boot_entry_def algebra_simps)
  have w1: "in_range B K x" if "in_range ?e 20 x" for x
    using Suc.prems(6) [of x] in_range_mono [OF that] by simp
  have w2: "in_range B K x" if "in_range (boot_entry bp (Suc i)) (20 * k) x" for x
    using Suc.prems(6) [of x] split(1) [of x] that nx by simp
  have src: "sep B K (mmap + of_nat j * 24) 24" if "j < i + Suc k" for j
  proof (rule sep_part [OF Suc.prems(3)])
    have "unat (of_nat (24 * j) :: u32) = 24 * j" using Suc.prems(2) that by (intro unat_of_nat32) simp
    then show "inside (mmap + of_nat j * 24) 24 mmap (24 * (i + Suc k))"
      using that by (simp add: inside_def mult.commute)
  qed (use Suc.prems(5) in simp_all)
  have ag: "agree_on b n m ?m1" if "sep B K b n" for b n
    unfolding agree_on_def using boot_put_frame [of bp i _ mmap m] w1 sep_in_range [OF that] by metis
  have mb: "mmap_length ?m1 mbi = mmap_length m mbi"
    using agree_on_load(2) [OF ag [OF Suc.prems(4)]] by (simp add: mmap_length_def inside_def)
  have "sep ?e 20 (mmap + of_nat i * 24) 24"
    by (rule sep_iff_disjoint) (use w1 sep_in_range [OF src [of i]] in auto)
  then have r0: "boot_read ?m1 ?e = boot_of m (mmap + of_nat i * 24)" by (rule boot_put_read)
  obtain m' where run: "boot_e820_loop mbi bp mmap (Suc i) ?m1 = Some (Suc i + k, m')"
    and t: "\<And>j. j < k \<Longrightarrow> boot_read m' (boot_entry bp (Suc i + j)) = boot_of ?m1 (mmap + of_nat (Suc i + j) * 24)"
    and f: "\<And>x. \<not> in_range (boot_entry bp (Suc i)) (20 * k) x \<Longrightarrow> m' x = ?m1 x"
    using Suc.IH [of ?m1 "Suc i", OF _ _ _ Suc.prems(4,5) w2] Suc.prems(1-3) mb by auto
  have "?m1 x = m' x" if "in_range ?e 20 x" for x
    using f [of x] split(2) [of x] that nx by fastforce
  then have keep: "boot_read m' ?e = boot_read ?m1 ?e"
    by (intro boot_read_cong) (simp add: agree_on_def)
  have "boot_read m' (boot_entry bp (i + j)) = boot_of m (mmap + of_nat (i + j) * 24)" if "j < Suc k" for j
  proof (cases j)
    case 0
    with keep r0 show ?thesis by simp
  next
    case (Suc j')
    with t [of j'] boot_of_cong [OF ag [OF src [of "i + j"]]] that show ?thesis by simp
  qed
  moreover have "m' x = m x" if "\<not> in_range ?e (20 * Suc k) x" for x
    using f [of x] split(1) [of x] that nx boot_put_frame [of bp i x mmap m] by simp
  moreover have "boot_e820_loop mbi bp mmap i m = Some (i + Suc k, m')"
    using run Suc.prems(1) by (subst boot_e820_loop.simps) simp
  ultimately show ?case by blast
qed

lemma setup_screen_frame: "\<not> in_range bp 0x40 x \<Longrightarrow> setup_screen bp m x = m x"
proof -
  assume "\<not> in_range bp 0x40 x"
  note out = not_sub_block(1) [OF this]
  have "\<not> in_range (bp + 0x06) 1 x" "\<not> in_range (bp + 0x0e) 1 x" "\<not> in_range (bp + 0x07) 1 x"
    "\<not> in_range (bp + 0x10) 2 x" "\<not> in_range (bp + 0x0f) 1 x" "\<not> in_range (bp + 0x01) 1 x" "\<not> in_range (bp + 0x0a) 2 x"
    by (simp_all add: out)
  then show ?thesis by (simp add: setup_screen_def Let_def store_other)
qed

lemma setup_boot_params_run:
  fixes s :: loader_state and mbi :: u32
  defines "n \<equiv> unat (mmap_length (mem s) mbi div 24)" and "mmap \<equiv> mmap_addr (mem s) mbi"
  assumes flag: "mbi_flags (mem s) mbi AND MBI_MEMMAP \<noteq> 0" and few: "n \<le> E820MAX"
    and apart: "sep bp 4096 mmap (24 * n)" "sep bp 4096 mbi 52"
  shows "\<exists>s'. setup_boot_params mbi bp hdr s = Some (True, s') \<and> mem s' (bp + o_e820_entries) = of_nat n
    \<and> (\<forall>j < n. boot_read (mem s') (boot_entry bp j) = boot_of (mem s) (mmap + of_nat j * 24))
    \<and> (\<forall>x. \<not> in_range bp 4096 x \<longrightarrow> mem s' x = mem s x)
    \<and> (\<forall>x. sep bp 4096 (hdr + o_setup_hdr) 115 \<longrightarrow> in_range (bp + o_setup_hdr) 115 x
        \<longrightarrow> mem s' x = mem s (hdr + o_setup_hdr + (x - (bp + o_setup_hdr))))"
proof -
  let ?m1 = "mon_memcpy (bp + o_setup_hdr) (hdr + o_setup_hdr) sizeof_setup_header (mem s)"
  have n: "n \<le> 128" using few by (simp add: E820MAX_def)
  have f1: "?m1 x = mem s x" if "\<not> in_range bp 4096 x" for x
    using not_sub_block(1) [OF that, of o_setup_hdr 115]
    by (intro mon_memcpy_other) (simp add: sizeof_setup_header_def o_setup_hdr_def)
  have ag: "agree_on b k (mem s) ?m1" if "sep bp 4096 b k" for b k
    by (rule frame_agree [OF f1 that])
  have same: "mbi_flags ?m1 mbi = mbi_flags (mem s) mbi" "mmap_length ?m1 mbi = mmap_length (mem s) mbi"
    "mmap_addr ?m1 mbi = mmap"
    using agree_on_load(2) [OF ag [OF apart(2)]] by (simp_all add: mbi_fields inside_def mmap_def)
  have e0: "boot_entry bp 0 = bp + 0x2d0" by (simp add: boot_entry_def o_e820_map_def)
  have win: "in_range bp 4096 x" if "in_range (boot_entry bp 0) (20 * n) x" for x
    using sub_block [of bp "0x2d0" "20 * n" x 4096] that n by (simp add: e0)
  have "\<exists>m'. boot_e820_loop mbi bp mmap 0 ?m1 = Some (0 + n, m')
    \<and> (\<forall>j < n. boot_read m' (boot_entry bp (0 + j)) = boot_of ?m1 (mmap + of_nat (0 + j) * 24))
    \<and> (\<forall>x. \<not> in_range (boot_entry bp 0) (20 * n) x \<longrightarrow> m' x = ?m1 x)"
    by (rule boot_e820_loop_ok [where B = bp and K = 4096]) (use apart n win same n_def in simp_all)
  then obtain m2 where run: "boot_e820_loop mbi bp mmap 0 ?m1 = Some (n, m2)"
    and t: "\<And>j. j < n \<Longrightarrow> boot_read m2 (boot_entry bp j) = boot_of ?m1 (mmap + of_nat j * 24)"
    and f2: "\<And>x. \<not> in_range (bp + 0x2d0) (20 * n) x \<Longrightarrow> m2 x = ?m1 x" by (auto simp: e0)
  let ?m3 = "store8 (bp + o_e820_entries) (of_nat n) m2"
  let ?m4 = "store64 (bp + o_tboot_shared_addr) 0 (setup_screen bp ?m3)"
  have keep: "?m4 x = ?m3 x" if "in_range (bp + d) k x" "unat d + k \<le> 2 ^ 32" "0x60 \<le> unat d" for x d k
    using blocks_apart [OF that(1,2), of "0x58" 8] blocks_apart [OF that(1,2), of 0 "0x40"] that(3)
    by (simp add: store_other setup_screen_frame o_tboot_shared_addr_def)
  have "boot_read ?m4 (boot_entry bp j) = boot_of (mem s) (mmap + of_nat j * 24)" if j: "j < n" for j
  proof -
    have uj: "unat (0x2d0 + of_nat j * 20 :: u32) = 0x2d0 + j * 20"
      using unat_of_nat32 [of "0x2d0 + j * 20"] j n by simp
    have ej: "boot_entry bp j = bp + (0x2d0 + of_nat j * 20)" by (simp add: boot_entry_def o_e820_map_def)
    have "agree_on (boot_entry bp j) 20 m2 ?m4"
      unfolding agree_on_def ej
    proof (intro allI impI)
      fix x
      assume x: "in_range (bp + (0x2d0 + of_nat j * 20)) 20 x"
      have "?m4 x = ?m3 x" by (rule keep [OF x]) (use uj j n in simp_all)
      moreover have "\<not> in_range (bp + 0x1e8) 1 x" by (rule blocks_apart [OF x]) (use uj j n in simp_all)
      ultimately show "m2 x = ?m4 x" by (simp add: store_other o_e820_entries_def)
    qed
    moreover have "sep bp 4096 (mmap + of_nat j * 24) 24"
    proof (rule sep_part [OF apart(1)])
      have "unat (of_nat (24 * j) :: u32) = 24 * j" using n j by (intro unat_of_nat32) simp
      then show "inside (mmap + of_nat j * 24) 24 mmap (24 * n)" using j by (simp add: inside_def mult.commute)
    qed simp_all
    ultimately show ?thesis using t [OF j] boot_read_cong boot_of_cong [OF ag] by simp
  qed
  moreover have "?m4 (bp + o_e820_entries) = of_nat n"
    using keep [of o_e820_entries 1 "bp + o_e820_entries"] by (simp add: o_e820_entries_def)
  moreover have "setup_boot_params mbi bp hdr s = Some (True, s\<lparr>mem := ?m4\<rparr>)"
    using flag same run by (simp add: setup_boot_params_def)
  moreover have "?m4 x = mem s x" if "\<not> in_range bp 4096 x" for x
    using f1 [OF that] f2 [of x] not_sub_block(1) [OF that, of "0x2d0" "20 * n"] not_sub_block(1) [OF that, of "0x1e8" 1]
      not_sub_block(1) [OF that, of "0x58" 8] not_sub_block(2) [OF that, of "0x40"] n
    by (simp add: store_other setup_screen_frame o_tboot_shared_addr_def o_e820_entries_def)
  moreover have "?m4 x = mem s (hdr + o_setup_hdr + (x - (bp + o_setup_hdr)))"
    if sp: "sep bp 4096 (hdr + o_setup_hdr) 115" and x: "in_range (bp + o_setup_hdr) 115 x" for x
  proof -
    have "?m4 x = ?m3 x" by (rule keep [OF x]) (simp_all add: o_setup_hdr_def)
    moreover have "\<not> in_range (bp + 0x1e8) 1 x" by (rule blocks_apart [OF x]) (simp_all add: o_setup_hdr_def)
    moreover have "\<not> in_range (bp + 0x2d0) (20 * n) x"
      using blocks_apart [of bp "0x2d0" "20 * n" x o_setup_hdr 115] x n by (auto simp: o_setup_hdr_def)
    moreover have "sep (bp + o_setup_hdr) 115 (hdr + o_setup_hdr) 115"
      by (rule sep_inside [OF sp]) (simp_all add: inside_def o_setup_hdr_def)
    ultimately show ?thesis using f2 [of x] x
      by (simp add: store_other o_e820_entries_def mon_memcpy_apply sizeof_setup_header_def)
  qed
  ultimately show ?thesis by (intro exI [of _ "s\<lparr>mem := ?m4\<rparr>"]) simp
qed


text \<open>
  C17. For a map of at most 128 entries, \<^verbatim>\<open>setup_boot_params\<close> succeeds, stores the number of entries, and hands
  Linux every entry in order, with bad memory reported as reserved.
\<close>

theorem setup_boot_params_e820:
  fixes s :: loader_state and mbi :: u32
  defines "n \<equiv> unat (mmap_length (mem s) mbi div 24)" and "mmap \<equiv> mmap_addr (mem s) mbi"
  assumes "mbi_flags (mem s) mbi AND MBI_MEMMAP \<noteq> 0" and "n \<le> E820MAX"
    and "sep bp 4096 mmap (24 * n)" "sep bp 4096 mbi 52"
  shows "\<exists>s'. setup_boot_params mbi bp hdr s = Some (True, s') \<and> mem s' (bp + o_e820_entries) = of_nat n
    \<and> (\<forall>j < n. boot_read (mem s') (boot_entry bp j) = boot_of (mem s) (mmap + of_nat j * 24))"
  using setup_boot_params_run [OF assms(3-6) [unfolded n_def mmap_def], of hdr] unfolding n_def mmap_def by blast

theorem setup_boot_params_e820_witness:
  "\<exists>s'. setup_boot_params 0x5000 0x10000 0x20000 (small_heap\<lparr>mem := one_entry_map(0x6014 := 5)\<rparr>) = Some (True, s')
    \<and> mem s' 0x101E8 = 1 \<and> boot_read (mem s') 0x102D0 = (0, 0x9000, 2)"
proof -
  let ?m = "one_entry_map(0x6014 := 5)"
  let ?s = "small_heap\<lparr>mem := ?m\<rparr>"
  have f: "mbi_flags ?m 0x5000 = 0x40" "mmap_length ?m 0x5000 = 24" "mmap_addr ?m 0x5000 = 0x6000"
    "boot_of ?m 0x6000 = (0, 0x9000, 2)"
    by (simp_all add: one_entry_map_def mbi_fields mm_fields boot_of_def E820_BAD_MEM_def E820_RESERVED_MEM_def mem_eval)
  show ?thesis
    using setup_boot_params_e820 [of ?s "0x5000" "0x10000" "0x20000"]
    by (simp add: f sep_def E820MAX_def MBI_MEMMAP_def boot_entry_def o_e820_map_def o_e820_entries_def)
qed

end
