(* ===== verification/X64_Base.thy ===== *)
theory X64_Base
  imports Loader_Memory
begin

text \<open>
  What the preparation of 64-bit mode shares: bit fields of a 32-bit word, as the C structs of the
  page tables and segment descriptors declare them, and the static variables of
  \<^verbatim>\<open>pre_os/xmon_loader/utils/x64/x32_pt64.c\<close> and \<^verbatim>\<open>x32_gdt64.c\<close>.

  The structs themselves (\<^verbatim>\<open>em64t_defs.h\<close>) belong to the monitor's core. A field is therefore a
  parameter: its position and its width in the 32-bit word.
\<close>

section \<open>Bit fields\<close>

type_synonym field = "nat \<times> nat"

definition put_field :: "field \<Rightarrow> u32 \<Rightarrow> u32 \<Rightarrow> u32" where
  "put_field f v w =
     (w AND NOT (push_bit (fst f) (mask (snd f)))) OR push_bit (fst f) (take_bit (snd f) v)"

definition get_field :: "field \<Rightarrow> u32 \<Rightarrow> u32" where
  "get_field f w = take_bit (snd f) (drop_bit (fst f) w)"

text \<open>A run of assignments \<^verbatim>\<open>p->f = v\<close> to fields of the word at \<open>a\<close>, and its effect on the word.\<close>

fun set_fields :: "u32 \<Rightarrow> (field \<times> u32) list \<Rightarrow> mem \<Rightarrow> mem" where
  "set_fields a [] m = m"
| "set_fields a ((f, v) # fs) m = set_fields a fs (store32 a (put_field f v (load32 m a)) m)"

fun assign :: "(field \<times> u32) list \<Rightarrow> u32 \<Rightarrow> u32" where
  "assign [] w = w"
| "assign ((f, v) # fs) w = assign fs (put_field f v w)"

lemma bit_put_field:
  "bit (put_field f v w) n \<longleftrightarrow> n < 32 \<and> (if fst f \<le> n \<and> n < fst f + snd f then bit v (n - fst f) else bit w n)"
  by (auto simp: put_field_def bit_simps dest: bit_imp_le_length)

lemma get_put_same: "fst f + snd f \<le> 32 \<Longrightarrow> get_field f (put_field f v w) = take_bit (snd f) v"
  by (rule bit_word_eqI) (auto simp: get_field_def bit_simps bit_put_field)

lemma get_put_other:
  "fst f + snd f \<le> fst g \<or> fst g + snd g \<le> fst f \<Longrightarrow> get_field f (put_field g v w) = get_field f w"
  by (rule bit_word_eqI) (auto simp: get_field_def bit_simps bit_put_field dest: bit_imp_le_length)

lemma get_put_within:
  "fst g \<le> fst f \<Longrightarrow> fst f + snd f \<le> fst g + snd g \<Longrightarrow> get_field f (put_field g 0 w) = 0"
  by (rule bit_word_eqI) (auto simp: get_field_def bit_simps bit_put_field)

lemmas get_put = get_put_same get_put_other get_put_within

lemma take_drop_all: "n + k = 32 \<Longrightarrow> take_bit n (drop_bit k (w :: u32)) = drop_bit k w"
  by (rule bit_word_eqI) (auto simp: bit_simps dest: bit_imp_le_length)

lemma push_drop_aligned:
  assumes "2 ^ n dvd unat (w :: u32)"
  shows "push_bit n (drop_bit n w) = w"
proof -
  have "unat (take_bit n w) = 0"
    unfolding unsigned_take_bit_eq using assms by (simp only: take_bit_eq_0_iff)
  then have "take_bit n w = 0" by (simp only: unsigned_eq_0_iff)
  then show ?thesis using bits_ident [of n w] by simp
qed

lemma get_field_0 [simp]: "get_field f 0 = 0"
  by (simp add: get_field_def)

lemma set_fields_other [frame]: "\<not> in_range a 4 x \<Longrightarrow> set_fields a fs m x = m x"
  by (induction a fs m rule: set_fields.induct) (simp_all add: store_other)

lemma load_set_fields: "load32 (set_fields a fs m) a = assign fs (load32 m a)"
  by (induction a fs m rule: set_fields.induct) simp_all

lemma store32_load_other:
  assumes "\<And>x. in_range b 4 x \<Longrightarrow> \<not> in_range a 4 x"
  shows "load32 (set_fields a fs m) b = load32 m b"
  by (rule load_cong(2)) (use assms set_fields_other in blast)

text \<open>A 64-bit load as two 32-bit loads.\<close>

lemma load32_map: "load32 m a = word_of_le (map (\<lambda>i. m (a + of_nat i)) [0..<4])"
  by (simp add: load32_def upt_rec)

lemma load64_map: "load64 m a = word_of_le (map (\<lambda>i. m (a + of_nat i)) [0..<8])"
  by (simp add: load64_def upt_rec)

lemma load64_parts: "load64 m a = ucast (load32 m a) OR push_bit 32 (ucast (load32 m (a + 4)))"
proof (rule bit_word_eqI)
  fix k
  assume "k < LENGTH(64)"
  then have k: "k < 64" by simp
  show "bit (load64 m a) k \<longleftrightarrow> bit (ucast (load32 m a) OR push_bit 32 (ucast (load32 m (a + 4)) :: u64)) k"
  proof (cases "k < 32")
    case True
    then have "k div 8 < 4" by presburger
    with True show ?thesis by (simp add: load64_map load32_map bit_word_of_le bit_simps)
  next
    case False
    then obtain j where j: "k = j + 4 * 8" using le_Suc_ex [of 32 k] by (auto simp: add.commute)
    have "k div 8 = j div 8 + 4" "k mod 8 = j mod 8" "j div 8 < 4" "j < 32"
      using j k mod_mult_self1 [of j 4 8] by (simp_all del: mod_mult_self1)
    moreover have "a + 4 + of_nat (j div 8) = a + of_nat (j div 8 + 4)" by simp
    ultimately show ?thesis
      using j by (simp add: load64_map load32_map bit_word_of_le bit_simps add_ac)
  qed
qed

lemma load64_zero_parts:
  assumes "load64 m a = 0"
  shows "load32 m a = 0" "load32 m (a + 4) = 0"
proof -
  have "bit (load64 m a) k \<longleftrightarrow> (if k < 32 then bit (load32 m a) k else bit (load32 m (a + 4)) (k - 32))" if "k < 64" for k
    using that by (auto simp: load64_parts bit_simps dest: bit_imp_le_length)
  then have b: "\<not> (if k < 32 then bit (load32 m a) k else bit (load32 m (a + 4)) (k - 32))" if "k < 64" for k
    using that assms by simp
  show "load32 m a = 0"
  proof (rule bit_word_eqI)
    fix k
    assume "k < LENGTH(32)"
    then show "bit (load32 m a) k = bit 0 k" using b [of k] by simp
  qed
  show "load32 m (a + 4) = 0"
  proof (rule bit_word_eqI)
    fix k
    assume "k < LENGTH(32)"
    then show "bit (load32 m (a + 4)) k = bit 0 k" using b [of "k + 32"] by simp
  qed
qed

lemma load64_shift:
  assumes "\<And>j. j < 8 \<Longrightarrow> m' (a' + of_nat j) = m (a + of_nat j)"
  shows "load64 m' a' = load64 m a"
proof -
  have "map (\<lambda>i. m' (a' + of_nat i)) [0..<8] = map (\<lambda>i. m (a + of_nat i)) [0..<8]"
    using assms by (intro map_cong) auto
  then show ?thesis by (simp only: load64_map)
qed

section \<open>State\<close>

text \<open>The operand of \<^verbatim>\<open>lgdt\<close> and \<^verbatim>\<open>sgdt\<close>, and the statics of the two files beside the loader's state.\<close>

record gdtr =
  g_limit :: u16
  g_base :: u32

record x64_state =
  ld :: loader_state
  cr3_for_x64 :: u32
  gdtr_32 :: gdtr
  gdtr_64 :: gdtr
  cs_64 :: u16

text \<open>
  The allocation both files make: one page, \<^verbatim>\<open>XMON_LOADER_ASSERT\<close> on the result, which loops forever on NULL
  (so the outcome is \<open>None\<close>), and a \<^verbatim>\<open>mon_memset\<close> of \<open>page_4kb\<close> bytes.
\<close>

definition zeroed_page :: "(u32 \<Rightarrow> u32 \<Rightarrow> u32) \<Rightarrow> u32 \<Rightarrow> loader_state \<Rightarrow> (u32 \<times> loader_state) option" where
  "zeroed_page af page_4kb s =
     (let (p, s1) = mon_page_alloc af 1 s
      in if p = 0 then None else Some (p, s1\<lparr>mem := mon_memset p 0 page_4kb (mem s1)\<rparr>))"

text \<open>The next page of a heap with room for it.\<close>

definition page_room :: "nat \<Rightarrow> loader_state \<Rightarrow> bool" where
  "page_room k s \<longleftrightarrow> heap_inv s \<and> round_page (unat (heap_current s)) + 4096 * k \<le> unat (heap_tops s)
     \<and> unat (heap_tops s) + 8191 < 2 ^ 32"

definition page_base :: "loader_state \<Rightarrow> u32" where
  "page_base s = of_nat (round_page (unat (heap_current s)))"

lemma round_page_idem: "4096 dvd n \<Longrightarrow> round_page n = n"
  by (auto simp: round_page_def)

lemma page_base_unat: "page_room k s \<Longrightarrow> unat (page_base s) = round_page (unat (heap_current s))"
  by (simp add: page_room_def page_base_def unat_of_nat32)

lemma zeroed_page_step:
  assumes af: "ALIGN_FORWARD_ok af" and room: "page_room (Suc k) s"
  obtains s' where "zeroed_page af 4096 s = Some (page_base s, s')"
    and "page_base s \<noteq> 0" and "4096 dvd unat (page_base s)" and "unat (heap_current s) \<le> unat (page_base s)"
    and "unat (page_base s) + 4096 * Suc k \<le> unat (heap_tops s)"
    and "page_room k s'" and "page_base s' = page_base s + 4096" and "heap_tops s' = heap_tops s"
    and "heap_base s' = heap_base s" and "cursor s' = cursor s"
    and "unat (heap_current s') = unat (page_base s) + 4096"
    and "\<And>x. mem s' x = (if in_range (page_base s) 4096 x then 0 else mem s x)"
proof -
  let ?p = "page_base s"
  obtain p s1 where a: "mon_page_alloc af 1 s = (p, s1)" by fastforce
  have h: "heap_inv s" "unat (heap_tops s) + 4096 * unat (1 :: u32) + 4095 < 2 ^ 32"
    "round_page (unat (heap_current s)) + 4096 * unat (1 :: u32) \<le> unat (heap_tops s)"
    using room by (auto simp: page_room_def)
  have g: "granted (round_page (unat (heap_current s))) 4096 s p s1"
    using page_alloc.room [OF af h(1,2,3) a] by simp
  have up: "unat ?p = round_page (unat (heap_current s))" by (rule page_base_unat [OF room])
  then have p: "p = ?p" using g by (simp add: granted_def word_unat_eq_iff)
  have nz: "?p \<noteq> 0" using up heap_inv_unat [OF h(1)] round_page_bounds(1) [of "unat (heap_current s)"] by auto
  have hc: "unat (heap_current s1) = unat ?p + 4096" using g up by (simp add: granted_def)
  have inv1: "heap_inv s1" using page_alloc.alloc_inv(1) [OF af h(1,2) a] .
  define s' where "s' = s1\<lparr>mem := mon_memset ?p 0 4096 (mem s1)\<rparr>"
  have dv: "4096 dvd unat ?p" using up round_page_bounds(3) by simp
  have ri: "round_page (unat (heap_current s1)) = unat ?p + 4096"
    unfolding hc by (rule round_page_idem) (use dv in simp)
  have tops: "heap_tops s1 = heap_tops s" using g by (simp add: granted_def)
  have inv': "heap_inv s'" using inv1 by (simp add: heap_inv_def s'_def)
  show thesis
  proof (rule that)
    show "zeroed_page af 4096 s = Some (?p, s')" using a nz by (simp add: zeroed_page_def s'_def p)
    show "page_room k s'" using room inv' ri tops up by (simp add: page_room_def s'_def)
    show "page_base s' = ?p + 4096" using ri by (simp add: page_base_def s'_def up)
    show "mem s' x = (if in_range ?p 4096 x then 0 else mem s x)" for x
      using g by (simp add: s'_def granted_def mon_memset_apply fill_bytes_apply p)
    show "unat (heap_current s) \<le> unat ?p" using up round_page_bounds(1) by simp
    show "unat ?p + 4096 * Suc k \<le> unat (heap_tops s)" using room up by (simp add: page_room_def)
  qed (use nz dv hc tops g in \<open>simp_all add: s'_def granted_def\<close>)
qed

text \<open>Words of a table at different offsets do not overlap.\<close>

lemma table_words_apart:
  fixes p :: u32
  assumes "in_range (p + of_nat i) n x" and "i + n \<le> j \<or> j + k \<le> i" and "i + n < 2 ^ 32" "j + k < 2 ^ 32"
  shows "\<not> in_range (p + of_nat j) k x"
proof -
  have u: "unat (of_nat i :: u32) = i" "unat (of_nat j :: u32) = j"
    using assms(3,4) by (auto intro: unat_of_nat32)
  from assms(2) show ?thesis
  proof
    assume "i + n \<le> j"
    then show ?thesis
      using blocks_apart [of p "of_nat j" k x "of_nat i" n] assms u by auto
  next
    assume "j + k \<le> i"
    then show ?thesis
      using blocks_apart [of p "of_nat i" n x "of_nat j" k] assms u by auto
  qed
qed

end
