(* ===== verification/Idt.thy ===== *)
theory Idt
  imports X64_Base Screen
begin

text \<open>
  \<^verbatim>\<open>pre_os/xmon_loader/idt.c\<close>: the interrupt descriptor table of the loader, its gates and the exception handlers.

  The gate descriptor is declared in the file itself as bit fields of two 32-bit words. The address of the array
  \<^verbatim>\<open>xmon_idt\<close> and the addresses of the handlers are the linker's; they are the arguments \<open>xmon_idt\<close> and \<open>code\<close>. The handlers
  print in a debug build only (\<^verbatim>\<open>xmon_loader.h\<close>), which the argument \<open>DEBUG\<close> selects, and end in
  \<^verbatim>\<open>MON_UP_BREAKPOINT\<close>, a macro of the core, the argument \<open>breakpoint\<close>.
\<close>

section \<open>Exception handlers\<close>

definition PRINT_STRING :: "bool \<Rightarrow> string \<Rightarrow> loader_state \<Rightarrow> loader_state" where
  "PRINT_STRING DEBUG arg s = (if DEBUG then print_string (lit arg) s else s)"

definition PRINT_VALUE :: "bool \<Rightarrow> u32 \<Rightarrow> loader_state \<Rightarrow> loader_state" where
  "PRINT_VALUE DEBUG arg s = (if DEBUG then print_value arg s else s)"

definition print_exception_header :: "bool \<Rightarrow> u32 \<Rightarrow> u32 \<Rightarrow> loader_state \<Rightarrow> loader_state" where
  "print_exception_header DEBUG cs eip s =
     (let s = PRINT_STRING DEBUG ''****************************************************************\<newline>'' s;
          s = PRINT_STRING DEBUG ''*                                                              *\<newline>'' s;
          s = PRINT_STRING DEBUG ''*       Intel Lightweight Virtual Machine Monitor (TM)         *\<newline>'' s;
          s = PRINT_STRING DEBUG ''*                                                              *\<newline>'' s;
          s = PRINT_STRING DEBUG ''****************************************************************\<newline>'' s;
          s = PRINT_STRING DEBUG ''\<newline>Fatal error has occured at 0x'' s;
          s = PRINT_VALUE DEBUG cs s;
          s = PRINT_STRING DEBUG '':0x'' s;
          s = PRINT_VALUE DEBUG eip s;
          s = PRINT_STRING DEBUG ''\<newline>'' s
      in PRINT_STRING DEBUG ''Error type: '' s)"

definition ERROR_CODE_EXT_BIT :: u32 where "ERROR_CODE_EXT_BIT = 0x1"
definition ERROR_CODE_IN_IDT :: u32 where "ERROR_CODE_IN_IDT = 0x2"
definition ERROR_CODE_TI :: u32 where "ERROR_CODE_TI = 0x4"

definition print_error_code_generic :: "bool \<Rightarrow> u32 \<Rightarrow> loader_state \<Rightarrow> loader_state" where
  "print_error_code_generic DEBUG error_code s =
     (let s = PRINT_STRING DEBUG ''Error code: 0x'' s;
          s = PRINT_VALUE DEBUG error_code s;
          s = PRINT_STRING DEBUG '', index 0x'' s;
          s = PRINT_VALUE DEBUG (drop_bit 3 error_code) s;
          s = PRINT_STRING DEBUG ''\<newline>'' s;
          s = (if error_code AND ERROR_CODE_EXT_BIT \<noteq> 0 then PRINT_STRING DEBUG ''External event\<newline>'' s
               else PRINT_STRING DEBUG ''Internal event\<newline>'' s)
      in if error_code AND ERROR_CODE_IN_IDT \<noteq> 0 then PRINT_STRING DEBUG ''index is in IDT\<newline>'' s
         else if error_code AND ERROR_CODE_TI \<noteq> 0 then PRINT_STRING DEBUG ''index is in LDT\<newline>'' s
         else PRINT_STRING DEBUG ''index is in GDT\<newline>'' s)"

text \<open>
  One definition per handler. The handlers of faults with an error code have it as an argument; the page fault handler
  reads the faulting address from CR2, the argument \<open>cr2_val\<close>.
\<close>

definition exception_handler_reserved :: "bool \<Rightarrow> (loader_state \<Rightarrow> 'r) \<Rightarrow> u32 \<Rightarrow> u32 \<Rightarrow> loader_state \<Rightarrow> 'r" where
  "exception_handler_reserved DEBUG breakpoint cs eip s =
     breakpoint (PRINT_STRING DEBUG ''reserved exception\<newline>'' (print_exception_header DEBUG cs eip s))"

definition exception_handler_divide_error :: "bool \<Rightarrow> (loader_state \<Rightarrow> 'r) \<Rightarrow> u32 \<Rightarrow> u32 \<Rightarrow> loader_state \<Rightarrow> 'r" where
  "exception_handler_divide_error DEBUG breakpoint cs eip s =
     breakpoint (PRINT_STRING DEBUG ''Divide error\<newline>'' (print_exception_header DEBUG cs eip s))"

definition exception_handler_debug_break_point :: "bool \<Rightarrow> (loader_state \<Rightarrow> 'r) \<Rightarrow> u32 \<Rightarrow> u32 \<Rightarrow> loader_state \<Rightarrow> 'r" where
  "exception_handler_debug_break_point DEBUG breakpoint cs eip s =
     breakpoint (PRINT_STRING DEBUG ''Debug breakpoint\<newline>'' (print_exception_header DEBUG cs eip s))"

definition exception_handler_nmi :: "bool \<Rightarrow> (loader_state \<Rightarrow> 'r) \<Rightarrow> u32 \<Rightarrow> u32 \<Rightarrow> loader_state \<Rightarrow> 'r" where
  "exception_handler_nmi DEBUG breakpoint cs eip s =
     breakpoint (PRINT_STRING DEBUG ''nmi\<newline>'' (print_exception_header DEBUG cs eip s))"

definition exception_handler_break_point :: "bool \<Rightarrow> (loader_state \<Rightarrow> 'r) \<Rightarrow> u32 \<Rightarrow> u32 \<Rightarrow> loader_state \<Rightarrow> 'r" where
  "exception_handler_break_point DEBUG breakpoint cs eip s =
     breakpoint (PRINT_STRING DEBUG ''Breakpoint\<newline>'' (print_exception_header DEBUG cs eip s))"

definition exception_handler_overflow :: "bool \<Rightarrow> (loader_state \<Rightarrow> 'r) \<Rightarrow> u32 \<Rightarrow> u32 \<Rightarrow> loader_state \<Rightarrow> 'r" where
  "exception_handler_overflow DEBUG breakpoint cs eip s =
     breakpoint (PRINT_STRING DEBUG ''Overflow\<newline>'' (print_exception_header DEBUG cs eip s))"

definition exception_handler_bound_range_exceeded :: "bool \<Rightarrow> (loader_state \<Rightarrow> 'r) \<Rightarrow> u32 \<Rightarrow> u32 \<Rightarrow> loader_state \<Rightarrow> 'r" where
  "exception_handler_bound_range_exceeded DEBUG breakpoint cs eip s =
     breakpoint (PRINT_STRING DEBUG ''Bound range exceeded\<newline>'' (print_exception_header DEBUG cs eip s))"

definition exception_handler_undefined_opcode :: "bool \<Rightarrow> (loader_state \<Rightarrow> 'r) \<Rightarrow> u32 \<Rightarrow> u32 \<Rightarrow> loader_state \<Rightarrow> 'r" where
  "exception_handler_undefined_opcode DEBUG breakpoint cs eip s =
     breakpoint (PRINT_STRING DEBUG ''Undefined opcode\<newline>'' (print_exception_header DEBUG cs eip s))"

definition exception_handler_no_math_coprocessor :: "bool \<Rightarrow> (loader_state \<Rightarrow> 'r) \<Rightarrow> u32 \<Rightarrow> u32 \<Rightarrow> loader_state \<Rightarrow> 'r" where
  "exception_handler_no_math_coprocessor DEBUG breakpoint cs eip s =
     breakpoint (PRINT_STRING DEBUG ''No math coprocessor\<newline>'' (print_exception_header DEBUG cs eip s))"

definition exception_handler_double_fault :: "bool \<Rightarrow> (loader_state \<Rightarrow> 'r) \<Rightarrow> u32 \<Rightarrow> u32 \<Rightarrow> u32 \<Rightarrow> loader_state \<Rightarrow> 'r" where
  "exception_handler_double_fault DEBUG breakpoint cs eip error_code s =
     breakpoint (PRINT_STRING DEBUG ''Double fault\<newline>'' (print_exception_header DEBUG cs eip s))"

definition exception_handler_invalid_task_segment_selector :: "bool \<Rightarrow> (loader_state \<Rightarrow> 'r) \<Rightarrow> u32 \<Rightarrow> u32 \<Rightarrow> u32 \<Rightarrow> loader_state \<Rightarrow> 'r" where
  "exception_handler_invalid_task_segment_selector DEBUG breakpoint cs eip error_code s =
     breakpoint (print_error_code_generic DEBUG error_code
       (PRINT_STRING DEBUG ''Invalid task segment selector\<newline>'' (print_exception_header DEBUG cs eip s)))"

definition exception_handler_segment_not_present :: "bool \<Rightarrow> (loader_state \<Rightarrow> 'r) \<Rightarrow> u32 \<Rightarrow> u32 \<Rightarrow> u32 \<Rightarrow> loader_state \<Rightarrow> 'r" where
  "exception_handler_segment_not_present DEBUG breakpoint cs eip error_code s =
     breakpoint (print_error_code_generic DEBUG error_code
       (PRINT_STRING DEBUG ''segment not present\<newline>'' (print_exception_header DEBUG cs eip s)))"

definition exception_handler_stack_segment_fault :: "bool \<Rightarrow> (loader_state \<Rightarrow> 'r) \<Rightarrow> u32 \<Rightarrow> u32 \<Rightarrow> u32 \<Rightarrow> loader_state \<Rightarrow> 'r" where
  "exception_handler_stack_segment_fault DEBUG breakpoint cs eip error_code s =
     breakpoint (print_error_code_generic DEBUG error_code
       (PRINT_STRING DEBUG ''Stack segment fault\<newline>'' (print_exception_header DEBUG cs eip s)))"

definition exception_handler_general_protection_fault :: "bool \<Rightarrow> (loader_state \<Rightarrow> 'r) \<Rightarrow> u32 \<Rightarrow> u32 \<Rightarrow> u32 \<Rightarrow> loader_state \<Rightarrow> 'r" where
  "exception_handler_general_protection_fault DEBUG breakpoint cs eip error_code s =
     breakpoint (print_error_code_generic DEBUG error_code
       (PRINT_STRING DEBUG ''General protection fault\<newline>'' (print_exception_header DEBUG cs eip s)))"

definition exception_handler_page_fault :: "bool \<Rightarrow> (loader_state \<Rightarrow> 'r) \<Rightarrow> u32 \<Rightarrow> u32 \<Rightarrow> u32 \<Rightarrow> u32 \<Rightarrow> loader_state \<Rightarrow> 'r" where
  "exception_handler_page_fault DEBUG breakpoint cr2_val cs eip error_code s =
     (let s = PRINT_STRING DEBUG ''Page fault\<newline>'' (print_exception_header DEBUG cs eip s);
          s = PRINT_STRING DEBUG ''Faulting address 0x'' s;
          s = PRINT_VALUE DEBUG cr2_val s
      in breakpoint (PRINT_STRING DEBUG ''\<newline>'' s))"

definition exception_handler_math_fault :: "bool \<Rightarrow> (loader_state \<Rightarrow> 'r) \<Rightarrow> u32 \<Rightarrow> u32 \<Rightarrow> loader_state \<Rightarrow> 'r" where
  "exception_handler_math_fault DEBUG breakpoint cs eip s =
     breakpoint (PRINT_STRING DEBUG ''Math fault\<newline>'' (print_exception_header DEBUG cs eip s))"

definition exception_handler_alignment_check :: "bool \<Rightarrow> (loader_state \<Rightarrow> 'r) \<Rightarrow> u32 \<Rightarrow> u32 \<Rightarrow> loader_state \<Rightarrow> 'r" where
  "exception_handler_alignment_check DEBUG breakpoint cs eip s =
     breakpoint (PRINT_STRING DEBUG ''Alignment check\<newline>'' (print_exception_header DEBUG cs eip s))"

definition exception_handler_machine_check :: "bool \<Rightarrow> (loader_state \<Rightarrow> 'r) \<Rightarrow> u32 \<Rightarrow> u32 \<Rightarrow> loader_state \<Rightarrow> 'r" where
  "exception_handler_machine_check DEBUG breakpoint cs eip s =
     breakpoint (PRINT_STRING DEBUG ''Machine check\<newline>'' (print_exception_header DEBUG cs eip s))"

definition exception_handler_simd_floating_point_numeric_error :: "bool \<Rightarrow> (loader_state \<Rightarrow> 'r) \<Rightarrow> u32 \<Rightarrow> u32 \<Rightarrow> loader_state \<Rightarrow> 'r" where
  "exception_handler_simd_floating_point_numeric_error DEBUG breakpoint cs eip s =
     breakpoint (PRINT_STRING DEBUG ''SIMD floating point numeric error\<newline>'' (print_exception_header DEBUG cs eip s))"

definition exception_handler_reserved_simd_floating_point_numeric_error :: "bool \<Rightarrow> (loader_state \<Rightarrow> 'r) \<Rightarrow> u32 \<Rightarrow> u32 \<Rightarrow> loader_state \<Rightarrow> 'r" where
  "exception_handler_reserved_simd_floating_point_numeric_error DEBUG breakpoint cs eip s =
     breakpoint (PRINT_STRING DEBUG ''reserved SIMD floating point numeric error\<newline>'' (print_exception_header DEBUG cs eip s))"

section \<open>Gates\<close>

text \<open>The vectors, as the file enumerates them.\<close>

datatype ia32_exception_vectors =
    IA32_EXCEPTION_VECTOR_DIVIDE_ERROR
  | IA32_EXCEPTION_VECTOR_DEBUG_BREAK_POINT
  | IA32_EXCEPTION_VECTOR_NMI
  | IA32_EXCEPTION_VECTOR_BREAK_POINT
  | IA32_EXCEPTION_VECTOR_OVERFLOW
  | IA32_EXCEPTION_VECTOR_BOUND_RANGE_EXCEEDED
  | IA32_EXCEPTION_VECTOR_UNDEFINED_OPCODE
  | IA32_EXCEPTION_VECTOR_NO_MATH_COPROCESSOR
  | IA32_EXCEPTION_VECTOR_DOUBLE_FAULT
  | IA32_EXCEPTION_VECTOR_RESERVED_0X09
  | IA32_EXCEPTION_VECTOR_INVALID_TASK_SEGMENT_SELECTOR
  | IA32_EXCEPTION_VECTOR_SEGMENT_NOT_PRESENT
  | IA32_EXCEPTION_VECTOR_STACK_SEGMENT_FAULT
  | IA32_EXCEPTION_VECTOR_GENERAL_PROTECTION_FAULT
  | IA32_EXCEPTION_VECTOR_PAGE_FAULT
  | IA32_EXCEPTION_VECTOR_RESERVED_0X0F
  | IA32_EXCEPTION_VECTOR_MATH_FAULT
  | IA32_EXCEPTION_VECTOR_ALIGNMENT_CHECK
  | IA32_EXCEPTION_VECTOR_MACHINE_CHECK
  | IA32_EXCEPTION_VECTOR_SIMD_FLOATING_POINT_NUMERIC_ERROR
  | IA32_EXCEPTION_VECTOR_RESERVED_SIMD_FLOATING_POINT_NUMEIC_ERROR
  | IA32_EXCEPTION_VECTOR_RESERVED_0X14
  | IA32_EXCEPTION_VECTOR_RESERVED_0X15
  | IA32_EXCEPTION_VECTOR_RESERVED_0X16
  | IA32_EXCEPTION_VECTOR_RESERVED_0X17
  | IA32_EXCEPTION_VECTOR_RESERVED_0X18
  | IA32_EXCEPTION_VECTOR_RESERVED_0X19
  | IA32_EXCEPTION_VECTOR_RESERVED_0X1A
  | IA32_EXCEPTION_VECTOR_RESERVED_0X1B
  | IA32_EXCEPTION_VECTOR_RESERVED_0X1C
  | IA32_EXCEPTION_VECTOR_RESERVED_0X1D
  | IA32_EXCEPTION_VECTOR_RESERVED_0X1E
  | IA32_EXCEPTION_VECTOR_RESERVED_0X1F

text \<open>The enumerators are numbered from 0 in their order.\<close>

primrec vector_index :: "ia32_exception_vectors \<Rightarrow> nat" where
  "vector_index IA32_EXCEPTION_VECTOR_DIVIDE_ERROR = 0"
| "vector_index IA32_EXCEPTION_VECTOR_DEBUG_BREAK_POINT = 1"
| "vector_index IA32_EXCEPTION_VECTOR_NMI = 2"
| "vector_index IA32_EXCEPTION_VECTOR_BREAK_POINT = 3"
| "vector_index IA32_EXCEPTION_VECTOR_OVERFLOW = 4"
| "vector_index IA32_EXCEPTION_VECTOR_BOUND_RANGE_EXCEEDED = 5"
| "vector_index IA32_EXCEPTION_VECTOR_UNDEFINED_OPCODE = 6"
| "vector_index IA32_EXCEPTION_VECTOR_NO_MATH_COPROCESSOR = 7"
| "vector_index IA32_EXCEPTION_VECTOR_DOUBLE_FAULT = 8"
| "vector_index IA32_EXCEPTION_VECTOR_RESERVED_0X09 = 9"
| "vector_index IA32_EXCEPTION_VECTOR_INVALID_TASK_SEGMENT_SELECTOR = 10"
| "vector_index IA32_EXCEPTION_VECTOR_SEGMENT_NOT_PRESENT = 11"
| "vector_index IA32_EXCEPTION_VECTOR_STACK_SEGMENT_FAULT = 12"
| "vector_index IA32_EXCEPTION_VECTOR_GENERAL_PROTECTION_FAULT = 13"
| "vector_index IA32_EXCEPTION_VECTOR_PAGE_FAULT = 14"
| "vector_index IA32_EXCEPTION_VECTOR_RESERVED_0X0F = 15"
| "vector_index IA32_EXCEPTION_VECTOR_MATH_FAULT = 16"
| "vector_index IA32_EXCEPTION_VECTOR_ALIGNMENT_CHECK = 17"
| "vector_index IA32_EXCEPTION_VECTOR_MACHINE_CHECK = 18"
| "vector_index IA32_EXCEPTION_VECTOR_SIMD_FLOATING_POINT_NUMERIC_ERROR = 19"
| "vector_index IA32_EXCEPTION_VECTOR_RESERVED_SIMD_FLOATING_POINT_NUMEIC_ERROR = 20"
| "vector_index IA32_EXCEPTION_VECTOR_RESERVED_0X14 = 21"
| "vector_index IA32_EXCEPTION_VECTOR_RESERVED_0X15 = 22"
| "vector_index IA32_EXCEPTION_VECTOR_RESERVED_0X16 = 23"
| "vector_index IA32_EXCEPTION_VECTOR_RESERVED_0X17 = 24"
| "vector_index IA32_EXCEPTION_VECTOR_RESERVED_0X18 = 25"
| "vector_index IA32_EXCEPTION_VECTOR_RESERVED_0X19 = 26"
| "vector_index IA32_EXCEPTION_VECTOR_RESERVED_0X1A = 27"
| "vector_index IA32_EXCEPTION_VECTOR_RESERVED_0X1B = 28"
| "vector_index IA32_EXCEPTION_VECTOR_RESERVED_0X1C = 29"
| "vector_index IA32_EXCEPTION_VECTOR_RESERVED_0X1D = 30"
| "vector_index IA32_EXCEPTION_VECTOR_RESERVED_0X1E = 31"
| "vector_index IA32_EXCEPTION_VECTOR_RESERVED_0X1F = 32"

text \<open>The handlers as values.\<close>

datatype handler =
    H_reserved
  | H_divide_error
  | H_debug_break_point
  | H_nmi
  | H_break_point
  | H_overflow
  | H_bound_range_exceeded
  | H_undefined_opcode
  | H_no_math_coprocessor
  | H_double_fault
  | H_invalid_task_segment_selector
  | H_segment_not_present
  | H_stack_segment_fault
  | H_general_protection_fault
  | H_page_fault
  | H_math_fault
  | H_alignment_check
  | H_machine_check
  | H_simd_floating_point_numeric_error
  | H_reserved_simd_floating_point_numeric_error

definition gate_offset_low :: field where "gate_offset_low = (0, 16)"
definition gate_selector :: field where "gate_selector = (16, 16)"
definition gate_reserved_0 :: field where "gate_reserved_0 = (0, 8)"
definition gate_gate_type :: field where "gate_gate_type = (8, 8)"
definition gate_offset_high :: field where "gate_offset_high = (16, 16)"

lemmas gate_fields = gate_offset_low_def gate_selector_def gate_reserved_0_def gate_gate_type_def gate_offset_high_def

definition IA32_IDT_GATE_TYPE_INTERRUPT_32 :: u32 where "IA32_IDT_GATE_TYPE_INTERRUPT_32 = 0x8E"
definition IDT_VECTOR_COUNT :: nat where "IDT_VECTOR_COUNT = 256"
definition XMON_CS_SELECTOR :: u32 where "XMON_CS_SELECTOR = 0x10"

text \<open>The two words of a gate.\<close>

definition gate_lo :: "u32 \<Rightarrow> nat \<Rightarrow> u32" where "gate_lo xmon_idt i = xmon_idt + of_nat (8 * i)"
definition gate_hi :: "u32 \<Rightarrow> nat \<Rightarrow> u32" where "gate_hi xmon_idt i = xmon_idt + of_nat (8 * i + 4)"

definition install_exception_handler :: "u32 \<Rightarrow> nat \<Rightarrow> u32 \<Rightarrow> mem \<Rightarrow> mem" where
  "install_exception_handler xmon_idt exception_index handler_addr m =
     set_fields (gate_hi xmon_idt exception_index) [(gate_offset_high, drop_bit 16 handler_addr)]
       (set_fields (gate_lo xmon_idt exception_index) [(gate_offset_low, handler_addr AND 0xFFFF)] m)"

function idt_loop :: "u32 \<Rightarrow> (handler \<Rightarrow> u32) \<Rightarrow> nat \<Rightarrow> mem \<Rightarrow> mem" where
  "idt_loop xmon_idt code i m =
     (if i < 32 then
        let m = set_fields (gate_hi xmon_idt i) [(gate_gate_type, IA32_IDT_GATE_TYPE_INTERRUPT_32)] m;
            m = set_fields (gate_lo xmon_idt i) [(gate_selector, XMON_CS_SELECTOR)] m;
            m = set_fields (gate_hi xmon_idt i) [(gate_reserved_0, 0)] m
        in idt_loop xmon_idt code (Suc i) (install_exception_handler xmon_idt i (code H_reserved) m)
      else m)"
  by pat_completeness auto
termination by (relation "measure (\<lambda>(_, _, i, _). 32 - i)") auto

declare idt_loop.simps [simp del]

definition installs :: "(ia32_exception_vectors \<times> handler) list" where
  "installs = [
     (IA32_EXCEPTION_VECTOR_DIVIDE_ERROR, H_divide_error),
     (IA32_EXCEPTION_VECTOR_DEBUG_BREAK_POINT, H_debug_break_point),
     (IA32_EXCEPTION_VECTOR_NMI, H_nmi),
     (IA32_EXCEPTION_VECTOR_BREAK_POINT, H_break_point),
     (IA32_EXCEPTION_VECTOR_OVERFLOW, H_overflow),
     (IA32_EXCEPTION_VECTOR_BOUND_RANGE_EXCEEDED, H_bound_range_exceeded),
     (IA32_EXCEPTION_VECTOR_UNDEFINED_OPCODE, H_undefined_opcode),
     (IA32_EXCEPTION_VECTOR_NO_MATH_COPROCESSOR, H_no_math_coprocessor),
     (IA32_EXCEPTION_VECTOR_DOUBLE_FAULT, H_double_fault),
     (IA32_EXCEPTION_VECTOR_INVALID_TASK_SEGMENT_SELECTOR, H_invalid_task_segment_selector),
     (IA32_EXCEPTION_VECTOR_SEGMENT_NOT_PRESENT, H_segment_not_present),
     (IA32_EXCEPTION_VECTOR_STACK_SEGMENT_FAULT, H_stack_segment_fault),
     (IA32_EXCEPTION_VECTOR_GENERAL_PROTECTION_FAULT, H_general_protection_fault),
     (IA32_EXCEPTION_VECTOR_PAGE_FAULT, H_page_fault),
     (IA32_EXCEPTION_VECTOR_MATH_FAULT, H_math_fault),
     (IA32_EXCEPTION_VECTOR_ALIGNMENT_CHECK, H_alignment_check),
     (IA32_EXCEPTION_VECTOR_MACHINE_CHECK, H_machine_check),
     (IA32_EXCEPTION_VECTOR_SIMD_FLOATING_POINT_NUMERIC_ERROR, H_simd_floating_point_numeric_error),
     (IA32_EXCEPTION_VECTOR_RESERVED_SIMD_FLOATING_POINT_NUMEIC_ERROR, H_reserved_simd_floating_point_numeric_error)]"

text \<open>
  The variable \<^verbatim>\<open>idt_descriptor\<close>, at the address \<open>idt_descriptor\<close>. Its type \<^verbatim>\<open>ia32_descriptor_t\<close> is not packed: the 16-bit
  \<^verbatim>\<open>limit\<close> is at offset 0 and the 32-bit \<^verbatim>\<open>base\<close> at its natural alignment, offset 4. The instruction \<^verbatim>\<open>lidt\<close> knows nothing of the
  type: its operand is six consecutive bytes, a 16-bit limit and a 32-bit base. The register it loads is the second
  component of the result of \<open>setup_idt\<close>.
\<close>

definition o_desc_limit :: u32 where "o_desc_limit = 0"
definition o_desc_base :: u32 where "o_desc_base = 4"

definition lidt :: "mem \<Rightarrow> u32 \<Rightarrow> gdtr" where
  "lidt m a = \<lparr>g_limit = load16 m a, g_base = load32 m (a + 2)\<rparr>"

definition setup_idt :: "bool \<Rightarrow> u32 \<Rightarrow> u32 \<Rightarrow> (handler \<Rightarrow> u32) \<Rightarrow> loader_state \<Rightarrow> loader_state \<times> gdtr" where
  "setup_idt DEBUG xmon_idt idt_descriptor code s =
     (let s = PRINT_STRING DEBUG ''SetupIdt called\<newline>'' s;
          m = zero_mem xmon_idt (8 * of_nat IDT_VECTOR_COUNT) (mem s);
          m = idt_loop xmon_idt code 0 m;
          m = fold (\<lambda>(v, h). install_exception_handler xmon_idt (vector_index v) (code h)) installs m;
          m = store32 (idt_descriptor + o_desc_base) xmon_idt m;
          m = store16 (idt_descriptor + o_desc_limit) (8 * 32 - 1) m
      in (s\<lparr>mem := m\<rparr>, lidt m idt_descriptor))"

section \<open>Gates as values\<close>

definition gate :: "mem \<Rightarrow> u32 \<Rightarrow> nat \<Rightarrow> u32 \<times> u32" where
  "gate m xmon_idt i = (load32 m (gate_lo xmon_idt i), load32 m (gate_hi xmon_idt i))"

text \<open>Setting the handler of a gate, as a function on its two words.\<close>

definition with_handler :: "u32 \<Rightarrow> u32 \<times> u32 \<Rightarrow> u32 \<times> u32" where
  "with_handler h g = (put_field gate_offset_low (h AND 0xFFFF) (fst g), put_field gate_offset_high (drop_bit 16 h) (snd g))"

lemma gate_words_apart:
  assumes "i < 256" "j < 256"
  shows "i \<noteq> j \<Longrightarrow> load32 (set_fields (gate_lo t i) fs m) (gate_lo t j) = load32 m (gate_lo t j)"
    and "i \<noteq> j \<Longrightarrow> load32 (set_fields (gate_hi t i) fs m) (gate_hi t j) = load32 m (gate_hi t j)"
    and "load32 (set_fields (gate_lo t i) fs m) (gate_hi t j) = load32 m (gate_hi t j)"
    and "load32 (set_fields (gate_hi t i) fs m) (gate_lo t j) = load32 m (gate_lo t j)"
proof -
  have "load32 (set_fields (t + of_nat a) fs m) (t + of_nat b) = load32 m (t + of_nat b)"
    if "a < 2048" "b < 2048" "a + 4 \<le> b \<or> b + 4 \<le> a" for a b
    by (rule store32_load_other, rule table_words_apart [where n = 4]) (use that in auto)
  note ap = this
  show "i \<noteq> j \<Longrightarrow> load32 (set_fields (gate_lo t i) fs m) (gate_lo t j) = load32 m (gate_lo t j)"
    and "i \<noteq> j \<Longrightarrow> load32 (set_fields (gate_hi t i) fs m) (gate_hi t j) = load32 m (gate_hi t j)"
    and "load32 (set_fields (gate_lo t i) fs m) (gate_hi t j) = load32 m (gate_hi t j)"
    and "load32 (set_fields (gate_hi t i) fs m) (gate_lo t j) = load32 m (gate_lo t j)"
    unfolding gate_lo_def gate_hi_def using assms by (intro ap; arith)+
qed

lemma gate_install:
  assumes "i < 256" "j < 256"
  shows "gate (install_exception_handler t i h m) t j = (if i = j then with_handler h (gate m t j) else gate m t j)"
  using assms
  by (auto simp: gate_def install_exception_handler_def with_handler_def gate_words_apart load_set_fields
      simp del: set_fields.simps)

text \<open>A gate after one round of the loop.\<close>

definition loop_gate :: "u32 \<Rightarrow> u32 \<times> u32 \<Rightarrow> u32 \<times> u32" where
  "loop_gate h g = with_handler h (put_field gate_selector XMON_CS_SELECTOR (fst g),
     put_field gate_reserved_0 0 (put_field gate_gate_type IA32_IDT_GATE_TYPE_INTERRUPT_32 (snd g)))"

lemma gate_loop:
  "i \<le> 32 \<Longrightarrow> j < 256 \<Longrightarrow> gate (idt_loop t code i m) t j
     = (if i \<le> j \<and> j < 32 then loop_gate (code H_reserved) (gate m t j) else gate m t j)"
proof (induction "32 - i" arbitrary: i m)
  case 0
  then have "i = 32" by simp
  then show ?case by (auto simp: idt_loop.simps [of t code 32])
next
  case (Suc n)
  then have i: "i < 32" by simp
  let ?m = "set_fields (gate_hi t i) [(gate_reserved_0, 0)] (set_fields (gate_lo t i) [(gate_selector, XMON_CS_SELECTOR)]
     (set_fields (gate_hi t i) [(gate_gate_type, IA32_IDT_GATE_TYPE_INTERRUPT_32)] m))"
  have "gate ?m t j = (if i = j then (put_field gate_selector XMON_CS_SELECTOR (fst (gate m t j)),
     put_field gate_reserved_0 0 (put_field gate_gate_type IA32_IDT_GATE_TYPE_INTERRUPT_32 (snd (gate m t j)))) else gate m t j)"
    using i Suc.prems(2) by (auto simp: gate_def gate_words_apart load_set_fields simp del: set_fields.simps)
  moreover have "gate (idt_loop t code i m) t j
      = (if Suc i \<le> j \<and> j < 32 then loop_gate (code H_reserved) (gate (install_exception_handler t i (code H_reserved) ?m) t j)
         else gate (install_exception_handler t i (code H_reserved) ?m) t j)"
    using Suc.hyps(1) [of "Suc i"] Suc.hyps(2) Suc.prems i
    by (simp add: idt_loop.simps [of t code i] Let_def del: set_fields.simps)
  ultimately show ?case using i Suc.prems(2) by (auto simp: gate_install loop_gate_def)
qed

lemma gate_fold:
  assumes "list_all (\<lambda>(v, _). v < 256) L" "distinct (map fst L)" "j < 256"
  shows "gate (fold (\<lambda>(v, h). install_exception_handler t v (code h)) L m) t j
    = (case map_of L j of None \<Rightarrow> gate m t j | Some h \<Rightarrow> with_handler (code h) (gate m t j))"
  using assms
proof (induction L arbitrary: m)
  case Nil
  then show ?case by simp
next
  case (Cons a L)
  obtain v h where a: "a = (v, h)" by fastforce
  have "map_of L v = None" using Cons.prems(2) a by (simp add: map_of_eq_None_iff)
  with Cons a show ?case by (auto simp: gate_install split: option.split)
qed

text \<open>
  What the processor reads from a gate: the entry point from its two halves, the code selector, and the type byte.
\<close>

definition gate_view :: "u32 \<times> u32 \<Rightarrow> u32 \<times> u32 \<times> u32" where
  "gate_view g = (get_field (0, 16) (fst g) OR push_bit 16 (get_field (16, 16) (snd g)), get_field (16, 16) (fst g),
     get_field (8, 8) (snd g))"

lemma split_address: "take_bit 16 h AND 0xFFFF OR push_bit 16 (take_bit 16 (drop_bit 16 h)) = (h :: u32)"
proof -
  have "(0xFFFF :: u32) = mask 16" by (simp add: mask_numeral)
  then have "take_bit 16 h AND 0xFFFF OR push_bit 16 (take_bit 16 (drop_bit 16 h))
      = take_bit 16 h AND mask 16 OR push_bit 16 (take_bit 16 (drop_bit 16 h))" by simp
  also have "\<dots> = h"
  proof (rule bit_word_eqI)
    fix n
    assume "n < LENGTH(32)"
    then show "bit (take_bit 16 h AND mask 16 OR push_bit 16 (take_bit 16 (drop_bit 16 h))) n = bit h n"
      by (cases "n < 16") (auto simp: bit_simps dest: bit_imp_le_length)
  qed
  finally show ?thesis .
qed

lemma gate_view_handler:
  "gate_view (with_handler h (loop_gate h' (0, 0))) = (h, 0x10, 0x8E)"
  "gate_view (loop_gate h (0, 0)) = (h, 0x10, 0x8E)"
  by (simp_all add: gate_view_def with_handler_def loop_gate_def gate_fields get_put split_address
      XMON_CS_SELECTOR_def IA32_IDT_GATE_TYPE_INTERRUPT_32_def)

section \<open>Properties\<close>

text \<open>
  The exceptions of the processor, by vector: the handler that is meant for each of the 32 vectors.
\<close>

definition vector_handlers :: "handler list" where
  "vector_handlers = [
     H_divide_error, H_debug_break_point, H_nmi,
     H_break_point, H_overflow, H_bound_range_exceeded,
     H_undefined_opcode, H_no_math_coprocessor, H_double_fault,
     H_reserved, H_invalid_task_segment_selector, H_segment_not_present,
     H_stack_segment_fault, H_general_protection_fault, H_page_fault,
     H_reserved, H_math_fault, H_alignment_check,
     H_machine_check, H_simd_floating_point_numeric_error, H_reserved_simd_floating_point_numeric_error,
     H_reserved, H_reserved, H_reserved, H_reserved, H_reserved, H_reserved,
     H_reserved, H_reserved, H_reserved, H_reserved, H_reserved]"

lemma installed_handlers:
  "map (\<lambda>v. case map_of (map (apfst vector_index) installs) v of Some h \<Rightarrow> h | None \<Rightarrow> H_reserved) [0..<32] = vector_handlers"
  by (simp add: installs_def vector_handlers_def upt_rec)

lemma installed_handler:
  "v < 32 \<Longrightarrow> (case map_of (map (apfst vector_index) installs) v of Some h \<Rightarrow> h | None \<Rightarrow> H_reserved) = vector_handlers ! v"
  unfolding installed_handlers [symmetric] by (simp del: upt_rec_numeral)

lemma length_vector_handlers: "length vector_handlers = 32"
  by (simp add: vector_handlers_def)

lemma fold_installs:
  "fold (\<lambda>(v, h). install_exception_handler t (vector_index v) (code h)) L m
    = fold (\<lambda>(v, h). install_exception_handler t v (code h)) (map (apfst vector_index) L) m"
  by (induction L arbitrary: m) auto

text \<open>What \<^verbatim>\<open>lidt\<close> reads after the two fields of the descriptor have been written: the two padding bytes are in the way.\<close>

lemma lidt_unpacked:
  fixes d xmon_idt :: u32 and v :: u16 and m :: mem
  defines "m' \<equiv> store16 (d + o_desc_limit) v (store32 (d + o_desc_base) xmon_idt m)"
  shows "g_limit (lidt m' d) = v" and "g_base (lidt m' d) = ucast (load16 m (d + 2)) OR push_bit 16 xmon_idt"
    and "\<not> in_range d 8 x \<Longrightarrow> m' x = m x"
proof -
  show "g_limit (lidt m' d) = v" by (simp add: lidt_def m'_def o_desc_limit_def)
  have b: "m' (d + 2) = m (d + 2)" "m' (d + 3) = m (d + 3)" "m' (d + 4) = ucast xmon_idt" "m' (d + 5) = ucast (drop_bit 8 xmon_idt)"
    by (simp_all add: m'_def o_desc_limit_def o_desc_base_def mem_eval)
  have "load32 m' (d + 2) = word_of_le [m (d + 2), m (d + 3), ucast xmon_idt, ucast (drop_bit 8 xmon_idt)]"
    by (simp only: load32_def b [symmetric]) (simp add: add.assoc)
  also have "\<dots> = ucast (load16 m (d + 2)) OR push_bit 16 xmon_idt"
  proof (rule bit_word_eqI)
    fix n
    assume "n < LENGTH(32)"
    then have "n < 8 \<or> (8 \<le> n \<and> n < 16) \<or> (16 \<le> n \<and> n < 24) \<or> (24 \<le> n \<and> n < 32)" by auto
    then show "bit (word_of_le [m (d + 2), m (d + 3), ucast xmon_idt, ucast (drop_bit 8 xmon_idt)] :: u32) n
        = bit (ucast (load16 m (d + 2)) OR push_bit 16 xmon_idt) n"
      by (auto simp: load16_def bit_simps add.assoc dest: bit_imp_le_length)
  qed
  finally show "g_base (lidt m' d) = ucast (load16 m (d + 2)) OR push_bit 16 xmon_idt" by (simp add: lidt_def)
  assume x: "\<not> in_range d 8 x"
  then have "\<not> in_range d 2 x" "\<not> in_range (d + 4) 4 x"
    using in_range_split [of 4 4 d x] in_range_mono [of d 2 x 8] by auto
  then show "m' x = m x" by (simp add: m'_def o_desc_limit_def o_desc_base_def store_other)
qed

lemma gates_cong:
  assumes "\<And>x. in_range t 2048 x \<Longrightarrow> m' x = m x" "v < 256"
  shows "gate m' t v = gate m t v"
proof -
  have "in_range t 2048 x" if "in_range (t + of_nat d) 4 x" "d + 4 \<le> 2048" for d x
    using inside_in_range [OF _ that(1), of t 2048] that(2) by (simp add: inside_def unat_of_nat32)
  from this [of "8 * v"] this [of "8 * v + 4"] show ?thesis
    unfolding gate_def gate_lo_def gate_hi_def using assms by (auto intro!: load_cong(2) simp del: of_nat_mult of_nat_add)
qed

text \<open>
  C22. After \<^verbatim>\<open>setup_idt\<close>, with the descriptor apart from the table, every one of the first 32 gates is a present 32-bit interrupt gate of
  ring 0 into the loader's code segment, at the handler meant for its vector (the handler for reserved vectors where there is
  none), and the remaining 224 gates of the array are zero. The IDT register has the limit of 32 gates, but not the address
  of the table: its base consists of the two padding bytes of the descriptor and, above them, the lower half of the address.
\<close>

theorem setup_idt_gates:
  assumes "setup_idt DEBUG xmon_idt idt_descriptor code s = (s', idtr)" and "sep xmon_idt 2048 idt_descriptor 8"
  shows "g_limit idtr = 255
    \<and> g_base idtr = ucast (load16 (mem s') (idt_descriptor + 2)) OR push_bit 16 xmon_idt
    \<and> map (\<lambda>v. gate_view (gate (mem s') xmon_idt v)) [0..<256]
      = map (\<lambda>h. (code h, 0x10, 0x8E)) vector_handlers @ replicate 224 (0, 0, 0)"
proof -
  let ?L = "map (apfst vector_index) installs"
  define m0 where "m0 = zero_mem xmon_idt (8 * of_nat IDT_VECTOR_COUNT) (mem (PRINT_STRING DEBUG ''SetupIdt called\<newline>'' s))"
  define m1 where "m1 = fold (\<lambda>(v, h). install_exception_handler xmon_idt v (code h)) ?L (idt_loop xmon_idt code 0 m0)"
  have m: "mem s' = store16 (idt_descriptor + o_desc_limit) 255 (store32 (idt_descriptor + o_desc_base) xmon_idt m1)"
    and i: "idtr = lidt (mem s') idt_descriptor"
    using assms(1) by (auto simp: setup_idt_def Let_def m0_def m1_def fold_installs)
  have pad: "load16 (mem s') (idt_descriptor + 2) = load16 m1 (idt_descriptor + 2)"
    by (simp add: m load16_def o_desc_limit_def o_desc_base_def mem_eval)
  have reg: "g_limit idtr = 255" "g_base idtr = ucast (load16 (mem s') (idt_descriptor + 2)) OR push_bit 16 xmon_idt"
    unfolding pad unfolding i m by (rule lidt_unpacked)+
  have z: "m0 x = 0" if "in_range xmon_idt 2048 x" for x
    using that by (simp add: m0_def zero_mem_apply IDT_VECTOR_COUNT_def)
  have "load32 m0 (xmon_idt + of_nat d) = 0" if "d + 4 \<le> 2048" for d
  proof -
    have "inside (xmon_idt + of_nat d) 4 xmon_idt 2048" using that by (simp add: inside_def unat_of_nat32)
    then have "load32 m0 (xmon_idt + of_nat d) = load32 (\<lambda>_. 0) (xmon_idt + of_nat d)"
      using z inside_in_range by (intro load_cong(2)) blast
    then show ?thesis by (simp add: load32_def)
  qed
  then have g0: "gate m0 xmon_idt v = (0, 0)" if "v < 256" for v
    using that by (simp add: gate_def gate_lo_def gate_hi_def del: of_nat_mult of_nat_add)
  have same: "gate (mem s') xmon_idt v = gate m1 xmon_idt v" if "v < 256" for v
    unfolding m by (rule gates_cong [OF lidt_unpacked(3) that]) (use sep_in_range [OF sep_sym [OF assms(2)]] in blast)
  have ok: "list_all (\<lambda>(v, _). v < 256) ?L" "distinct (map fst ?L)" by (simp_all add: installs_def)
  have none: "map_of ?L v = None" if "\<not> v < 32" for v
    using that by (simp add: installs_def)
  have view: "gate_view (gate (mem s') xmon_idt v) = (if v < 32 then (code (vector_handlers ! v), 0x10, 0x8E) else (0, 0, 0))"
    if "v < 256" for v
    using that g0 none
    by (auto simp: same m1_def gate_fold [OF ok that] gate_loop installed_handler [symmetric] gate_view_handler split: option.split)
       (simp add: gate_view_def)
  have "map (\<lambda>v. gate_view (gate (mem s') xmon_idt v)) [0..<256]
      = map (\<lambda>h. (code h, 0x10, 0x8E)) vector_handlers @ replicate 224 (0, 0, 0)"
    by (rule nth_equalityI) (auto simp: view nth_append length_vector_handlers simp del: upt_rec_numeral)
  with reg show ?thesis by (simp only:)
qed

theorem setup_idt_gates_witness:
  "\<exists>s' idtr. setup_idt False 0x5000 0x6000 (\<lambda>h. if h = H_page_fault then 0x123456 else 0x9000) small_heap = (s', idtr)
    \<and> map (\<lambda>v. gate_view (gate (mem s') 0x5000 v)) [0..<256] ! 14 = (0x123456, 0x10, 0x8E)
    \<and> map (\<lambda>v. gate_view (gate (mem s') 0x5000 v)) [0..<256] ! 9 = (0x9000, 0x10, 0x8E)"
proof -
  let ?c = "\<lambda>h. if h = H_page_fault then 0x123456 else 0x9000 :: u32"
  obtain s' idtr where r: "setup_idt False 0x5000 0x6000 ?c small_heap = (s', idtr)" by fastforce
  have "sep 0x5000 2048 0x6000 8" by (simp add: sep_def)
  note th = setup_idt_gates [OF r this, THEN conjunct2, THEN conjunct2]
  have "map (\<lambda>v. gate_view (gate (mem s') 0x5000 v)) [0..<256] ! i = (?c (vector_handlers ! i), 0x10, 0x8E)" if "i < 32" for i
    unfolding th using that by (simp add: nth_append length_vector_handlers)
  moreover have "vector_handlers ! 14 = H_page_fault" "vector_handlers ! 9 = H_reserved"
    by (simp_all add: vector_handlers_def)
  ultimately show ?thesis using r by simp
qed

end
