(* ===== verification/Gdt64.thy ===== *)
theory Gdt64
  imports X64_Base Screen "HOL-Library.Monad_Syntax"
begin

text \<open>
  \<^verbatim>\<open>pre_os/xmon_loader/utils/x64/x32_gdt64.c\<close>: a copy of the current GDT, extended by a 64-bit code segment and
  a data segment. The layout of the descriptors is the parameter \<open>E\<close> (\<^verbatim>\<open>em64t_defs.h\<close>); the value
  that \<^verbatim>\<open>ia32_read_gdtr\<close> of the core finds in the processor is the argument \<open>hw\<close>.
\<close>

section \<open>Layout of a code-segment descriptor\<close>

record desc_env =
  s_accessed :: field
  s_readable :: field
  s_conforming :: field
  s_mbo_11 :: field
  s_mbo_12 :: field
  s_dpl :: field
  s_present :: field
  s_long_mode :: field
  s_default_size :: field
  s_granularity :: field
  o_hi :: u32
  sizeof_desc :: u32
  s_PAGE_4KB_SIZE :: u32

section \<open>x32_gdt64.c\<close>

definition desc_at :: "desc_env \<Rightarrow> u32 \<Rightarrow> u32 \<Rightarrow> u32" where
  "desc_at E gdt i = gdt + i * sizeof_desc E"

text \<open>The assignments to the upper half of a descriptor; the two descriptors differ in two bits.\<close>

definition desc_entry :: "desc_env \<Rightarrow> u32 \<Rightarrow> (field \<times> u32) list" where
  "desc_entry E code = [(s_accessed E, 0), (s_readable E, 1), (s_conforming E, code), (s_mbo_11 E, code), (s_mbo_12 E, 1),
     (s_dpl E, 0), (s_present E, 1), (s_long_mode E, 1), (s_default_size E, 0), (s_granularity E, 1)]"

definition x32_gdt64_setup :: "desc_env \<Rightarrow> (u32 \<Rightarrow> u32 \<Rightarrow> u32) \<Rightarrow> gdtr \<Rightarrow> x64_state \<Rightarrow> x64_state option" where
  "x32_gdt64_setup E af hw x =
     do {
       (p_gdt_64, s) \<leftarrow> zeroed_page af (s_PAGE_4KB_SIZE E) (ld x);
       let m = mon_memcpy p_gdt_64 (g_base hw) (ucast (g_limit hw) + 1) (mem s);
       let last_index = ucast (g_limit hw) div sizeof_desc E;
       let last_index = (if load64 m (desc_at E p_gdt_64 last_index) \<noteq> 0 then last_index + 1 else last_index);
       let m = set_fields (desc_at E p_gdt_64 last_index + o_hi E) (desc_entry E 1) m;
       let m = set_fields (desc_at E p_gdt_64 (last_index + 1) + o_hi E) (desc_entry E 0) m;
       Some (x\<lparr>ld := s\<lparr>mem := m\<rparr>, gdtr_32 := hw,
         gdtr_64 := \<lparr>g_limit = ucast (ucast (g_limit hw) + sizeof_desc E * 2), g_base = p_gdt_64\<rparr>,
         cs_64 := ucast (last_index * sizeof_desc E)\<rparr>) }"

definition x32_gdt64_load :: "(gdtr \<Rightarrow> 'cpu \<Rightarrow> 'cpu) \<Rightarrow> x64_state \<Rightarrow> 'cpu \<Rightarrow> 'cpu" where
  "x32_gdt64_load ia32_write_gdtr x c = ia32_write_gdtr (gdtr_64 x) c"

definition x32_gdt64_get_cs :: "x64_state \<Rightarrow> u16" where
  "x32_gdt64_get_cs x = cs_64 x"

definition x32_gdt64_get_gdtr :: "x64_state \<Rightarrow> gdtr" where
  "x32_gdt64_get_gdtr x = gdtr_64 x"

text \<open>
  \<^verbatim>\<open>print_gdt\<close>: a base of zero stands for the current GDT. \<^verbatim>\<open>limit + 1\<close> is computed in \<^verbatim>\<open>int\<close>, so a limit of
  65535 does not wrap, and the 16-bit counter stays below the at most 8192 descriptors.
\<close>

definition print_gdt_entry :: "u32 \<Rightarrow> nat \<Rightarrow> loader_state \<Rightarrow> loader_state" where
  "print_gdt_entry tab i s =
     (let s = print_value (of_nat i) s;
          s = print_string (lit ''....'') s;
          s = print_value (load32 (mem s) (tab + of_nat (i * 2) * 4)) s;
          s = print_string (lit '' '') s;
          s = print_value (load32 (mem s) (tab + of_nat (i * 2 + 1) * 4)) s
      in print_string (lit ''\<newline>'') s)"

definition print_gdt :: "u32 \<Rightarrow> gdtr \<Rightarrow> u32 \<Rightarrow> u16 \<Rightarrow> loader_state \<Rightarrow> loader_state" where
  "print_gdt sizeof_ia32_desc hw base limit s =
     (let (base, limit) = (if base = 0 then (g_base hw, g_limit hw) else (base, limit));
          s = print_string (lit ''GDT BASE = '') s;
          s = print_value base s;
          s = print_string (lit ''GDT LIMIT = '') s;
          s = print_value (ucast limit) s;
          s = print_string (lit ''\<newline>'') s
      in fold (print_gdt_entry base) [0..<unat ((ucast limit + 1) div sizeof_ia32_desc)] s)"

section \<open>The descriptors\<close>

text \<open>The layout the processor uses: type, S, DPL and P in bits 8 to 15, L, D/B and G in bits 21 to 23 of the upper half.\<close>

definition desc_ok :: "desc_env \<Rightarrow> bool" where
  "desc_ok E \<longleftrightarrow> s_accessed E = (8, 1) \<and> s_readable E = (9, 1) \<and> s_conforming E = (10, 1) \<and> s_mbo_11 E = (11, 1)
     \<and> s_mbo_12 E = (12, 1) \<and> s_dpl E = (13, 2) \<and> s_present E = (15, 1) \<and> s_long_mode E = (21, 1)
     \<and> s_default_size E = (22, 1) \<and> s_granularity E = (23, 1) \<and> o_hi E = 4 \<and> sizeof_desc E = 8 \<and> s_PAGE_4KB_SIZE E = 4096"

lemma desc_entry_value:
  assumes "desc_ok E"
  shows "assign (desc_entry E 1) 0 = 0xA09E00" "assign (desc_entry E 0) 0 = 0xA09200"
  using assms by (simp_all add: desc_ok_def desc_entry_def put_field_def mask_numeral)

lemma unat_ucast16: "j < 65536 \<Longrightarrow> unat (ucast (of_nat j :: u32) :: u16) = j"
  by (simp add: unsigned_ucast_eq unsigned_of_nat take_bit_nat_eq_self)

lemma gdt_copy:
  assumes z: "\<And>y. in_range p 4096 y \<Longrightarrow> m y = 0" and same: "\<And>y. \<not> in_range p 4096 y \<Longrightarrow> m y = m0 y"
    and n: "0 < n" "n \<le> 512" and sep: "sep p 4096 b (8 * n)" and i: "i < 512"
  shows "load64 (mon_memcpy p b (of_nat (8 * n)) m) (p + of_nat (8 * i)) = (if i < n then load64 m0 (b + of_nat (8 * i)) else 0)"
proof -
  let ?m = "mon_memcpy p b (of_nat (8 * n)) m"
  have u: "unat (of_nat (8 * n) :: u32) = 8 * n" using n by (intro unat_of_nat32) simp
  have "sep p (8 * n) b (8 * n)" by (rule sep_inside [OF sep]) (use n in \<open>simp_all add: inside_def\<close>)
  then have cp: "?m (p + of_nat d) = (if d < 8 * n then m (b + of_nat d) else m (p + of_nat d))" if "d < 4096" for d
    using that n by (subst mon_memcpy_apply) (simp_all add: u unat_of_nat32 del: of_nat_mult)
  have ms: "m (b + of_nat d) = m0 (b + of_nat d)" if "d < 8 * n" for d
    by (rule same, rule sep_in_range [OF sep]) (use that n in \<open>simp add: unat_of_nat32\<close>)
  have mz: "m (p + of_nat d) = 0" if "d < 4096" for d
    by (rule z) (use that in \<open>simp add: unat_of_nat32\<close>)
  have add: "a + of_nat (8 * i) + of_nat j = a + of_nat (8 * i + j)" for a :: u32 and j by (simp add: add.assoc)
  show ?thesis
  proof (cases "i < n")
    case True
    have "?m (p + of_nat (8 * i) + of_nat j) = m0 (b + of_nat (8 * i) + of_nat j)" if "j < 8" for j
      unfolding add using cp [of "8 * i + j"] ms [of "8 * i + j"] that True n by (simp del: of_nat_add of_nat_mult)
    then have "load64 ?m (p + of_nat (8 * i)) = load64 m0 (b + of_nat (8 * i))" by (rule load64_shift)
    then show ?thesis using True by (simp del: of_nat_mult)
  next
    case False
    have "?m (p + of_nat (8 * i) + of_nat j) = (\<lambda>_. 0) (p + of_nat (8 * i) + of_nat j)" if "j < 8" for j
      unfolding add using cp [of "8 * i + j"] mz [of "8 * i + j"] that False i by (simp del: of_nat_add of_nat_mult)
    then have "load64 ?m (p + of_nat (8 * i)) = load64 (\<lambda>_. 0) (p + of_nat (8 * i))" by (rule load64_shift)
    then show ?thesis using False by (simp add: load64_def del: of_nat_mult)
  qed
qed

lemma gdt_extend:
  fixes p :: u32
  assumes ok: "desc_ok E" and k: "k + 1 < 512"
    and z: "load64 m (p + of_nat (8 * k)) = 0" "load64 m (p + of_nat (8 * (k + 1))) = 0"
  defines "m' \<equiv> set_fields (p + of_nat (8 * (k + 1)) + 4) (desc_entry E 0)
                  (set_fields (p + of_nat (8 * k) + 4) (desc_entry E 1) m)"
  shows "load64 m' (p + of_nat (8 * k)) = 0x00A09E0000000000"
    and "load64 m' (p + of_nat (8 * (k + 1))) = 0x00A0920000000000"
    and "i < k \<Longrightarrow> load64 m' (p + of_nat (8 * i)) = load64 m (p + of_nat (8 * i))"
proof -
  have add: "p + of_nat d + 4 = p + of_nat (d + 4)" for d by (simp add: add.assoc)
  note off = add [of "8 * k"] add [of "8 * (k + 1)"] add [of "8 * i"]
  have other: "load32 (set_fields (p + of_nat a) fs w) (p + of_nat b) = load32 w (p + of_nat b)"
    if "a < 4096" "b < 4096" "a + 4 \<le> b \<or> b + 4 \<le> a" for a b fs w
    by (rule store32_load_other, rule table_words_apart [where n = 4]) (use that in auto)
  note zp = load64_zero_parts [OF z(1), unfolded off] load64_zero_parts [OF z(2), unfolded off]
  have "load32 m' (p + of_nat (8 * k)) = 0" "load32 m' (p + of_nat (8 * k + 4)) = 0xA09E00"
    "load32 m' (p + of_nat (8 * (k + 1))) = 0" "load32 m' (p + of_nat (8 * (k + 1) + 4)) = 0xA09200"
    unfolding m'_def off using k zp desc_entry_value [OF ok]
    by (simp_all add: other load_set_fields del: of_nat_add of_nat_mult set_fields.simps)
  then show "load64 m' (p + of_nat (8 * k)) = 0x00A09E0000000000"
    "load64 m' (p + of_nat (8 * (k + 1))) = 0x00A0920000000000"
    unfolding load64_parts off by (simp_all del: of_nat_add of_nat_mult)
  show "load64 m' (p + of_nat (8 * i)) = load64 m (p + of_nat (8 * i))" if "i < k"
  proof -
    have "load32 m' (p + of_nat (8 * i)) = load32 m (p + of_nat (8 * i))"
      "load32 m' (p + of_nat (8 * i + 4)) = load32 m (p + of_nat (8 * i + 4))"
      unfolding m'_def off using k that by (simp_all add: other del: of_nat_add of_nat_mult set_fields.simps)
    then show ?thesis by (simp add: load64_parts off del: of_nat_add of_nat_mult)
  qed
qed

text \<open>The result, with the state of the heap for the allocations that follow.\<close>

lemma gdt64_setup:
  assumes ok: "desc_ok E" and af: "ALIGN_FORWARD_ok af" and room: "page_room (Suc r) (ld x)"
    and n: "0 < n" "n + 2 \<le> 512" and limit: "unat (g_limit hw) = 8 * n - 1"
    and sep: "sep (page_base (ld x)) 4096 (g_base hw) (8 * n)"
    and k: "k = (if load64 (mem (ld x)) (g_base hw + of_nat (8 * (n - 1))) = 0 then n - 1 else n)"
  shows "\<exists>x' p. x32_gdt64_setup E af hw x = Some x' \<and> g_base (x32_gdt64_get_gdtr x') = p \<and> p = page_base (ld x)
    \<and> page_room r (ld x') \<and> page_base (ld x') = p + 4096
    \<and> (\<forall>y. \<not> in_range p 4096 y \<longrightarrow> mem (ld x') y = mem (ld x) y)
    \<and> unat (g_limit (x32_gdt64_get_gdtr x')) = 8 * (n + 2) - 1 \<and> unat (x32_gdt64_get_cs x') = 8 * k
    \<and> map (\<lambda>i. load64 (mem (ld x')) (p + of_nat (8 * i))) [0..<k + 2]
      = map (\<lambda>i. load64 (mem (ld x)) (g_base hw + of_nat (8 * i))) [0..<k] @ [0x00A09E0000000000, 0x00A0920000000000]
    \<and> 8 * (k + 1) + 7 \<le> unat (g_limit (x32_gdt64_get_gdtr x'))"
proof -
  let ?p = "page_base (ld x)"
  from zeroed_page_step [OF af room] obtain s where s: "zeroed_page af 4096 (ld x) = Some (?p, s)"
    and next_page: "page_room r s" "page_base s = ?p + 4096"
    and m: "\<And>y. mem s y = (if in_range ?p 4096 y then 0 else mem (ld x) y)" by metis
  have cnt: "ucast (g_limit hw) + (1 :: u32) = of_nat (8 * n)" "ucast (g_limit hw) div 8 = (of_nat (n - 1) :: u32)"
    "ucast (g_limit hw) + (16 :: u32) = of_nat (8 * (n + 2) - 1)"
  proof -
    obtain j where j: "n = Suc j" using n(1) by (cases n) auto
    have ul: "unat (ucast (g_limit hw) :: u32) = 8 * j + 7"
      using limit n(2) by (simp add: unsigned_ucast_eq take_bit_nat_eq_self j)
    show "ucast (g_limit hw) + (1 :: u32) = of_nat (8 * n)" "ucast (g_limit hw) div 8 = (of_nat (n - 1) :: u32)"
      "ucast (g_limit hw) + (16 :: u32) = of_nat (8 * (n + 2) - 1)"
      using n(2) ul by (simp_all add: word_unat_eq_iff unat_word_ariths(1) unat_div unat_of_nat32 j
          del: of_nat_mult of_nat_diff of_nat_Suc of_nat_add)
  qed
  let ?m1 = "mon_memcpy ?p (g_base hw) (of_nat (8 * n)) (mem s)"
  have cp: "load64 ?m1 (?p + of_nat (8 * i)) = (if i < n then load64 (mem (ld x)) (g_base hw + of_nat (8 * i)) else 0)"
    if "i < 512" for i
    by (rule gdt_copy [OF _ _ n(1) _ sep that]) (use m n in auto)
  have at: "desc_at E ?p (of_nat i) = ?p + of_nat (8 * i)" for i
    using ok by (simp add: desc_at_def desc_ok_def mult.commute)
  have kk: "(if load64 ?m1 (?p + of_nat (8 * (n - 1))) \<noteq> 0 then of_nat (n - 1) + 1 else of_nat (n - 1)) = (of_nat k :: u32)"
  proof -
    have "of_nat (n - 1) + 1 = (of_nat n :: u32)" using n(1) by (simp add: of_nat_diff)
    then show ?thesis using cp [of "n - 1"] k n by (simp del: of_nat_mult of_nat_diff)
  qed
  have kn: "k \<le> n" "n \<le> k + 1" "k + 1 < 512" using k n by auto
  have z: "load64 ?m1 (?p + of_nat (8 * k)) = 0" "load64 ?m1 (?p + of_nat (8 * (k + 1))) = 0"
    using cp [of k] cp [of "k + 1"] k n kn by (auto simp del: of_nat_mult split: if_splits)
  note ext = gdt_extend [OF ok kn(3) z]
  let ?m3 = "set_fields (?p + of_nat (8 * (k + 1)) + 4) (desc_entry E 0)
               (set_fields (?p + of_nat (8 * k) + 4) (desc_entry E 1) ?m1)"
  let ?x = "x\<lparr>ld := s\<lparr>mem := ?m3\<rparr>, gdtr_32 := hw,
    gdtr_64 := \<lparr>g_limit = ucast (of_nat (8 * (n + 2) - 1) :: u32), g_base = ?p\<rparr>, cs_64 := ucast (of_nat (8 * k) :: u32)\<rparr>"
  have sz: "sizeof_desc E = 8" "o_hi E = 4" "s_PAGE_4KB_SIZE E = 4096" using ok by (simp_all add: desc_ok_def)
  have run: "x32_gdt64_setup E af hw x = Some ?x"
  proof -
    have "desc_at E ?p (of_nat k + 1) = ?p + of_nat (8 * (k + 1))" "of_nat k * 8 = (of_nat (8 * k) :: u32)"
      "ucast (g_limit hw) + 8 * 2 = (of_nat (8 * (n + 2) - 1) :: u32)"
      using at [of "k + 1"] cnt(3) by (simp_all add: add.commute)
    then show ?thesis
      by (simp only: x32_gdt64_setup_def sz s cnt(1,2) at kk Let_def Option.bind.simps prod.case)
  qed
  have lim: "unat (g_limit (gdtr_64 ?x)) = 8 * (n + 2) - 1" "unat (cs_64 ?x) = 8 * k"
    using n kn unat_ucast16 [of "8 * (n + 2) - 1"] unat_ucast16 [of "8 * k"] by simp_all
  have "map (\<lambda>i. load64 ?m3 (?p + of_nat (8 * i))) [0..<k + 2]
      = map (\<lambda>i. load64 (mem (ld x)) (g_base hw + of_nat (8 * i))) [0..<k] @ [0x00A09E0000000000, 0x00A0920000000000]"
    using ext cp kn by (simp add: upt_Suc_append numeral_2_eq_2 del: of_nat_mult)
  moreover have "?m3 y = mem (ld x) y" if y: "\<not> in_range ?p 4096 y" for y
  proof -
    have w: "\<not> in_range (?p + of_nat (8 * i) + 4) 4 y" if "i < 512" for i
      using y inside_in_range [of "?p + of_nat (8 * i) + 4" 4 ?p 4096 y] that
      by (auto simp: inside_def unat_word_ariths(1) unat_of_nat32 simp del: of_nat_mult)
    have "\<not> in_range ?p (unat (of_nat (8 * n) :: u32)) y"
      using y in_range_mono [of ?p "8 * n" y 4096] n by (auto simp: unat_of_nat32 simp del: of_nat_mult)
    then have "?m1 y = mem (ld x) y" using m [of y] y by (simp add: mon_memcpy_other del: of_nat_mult)
    then show ?thesis using set_fields_other [OF w [OF kn(3)]] set_fields_other [OF w [of k]] kn(3) by simp
  qed
  moreover have "page_room r (s\<lparr>mem := ?m3\<rparr>)" "page_base (s\<lparr>mem := ?m3\<rparr>) = ?p + 4096"
    using next_page by (simp_all add: page_room_def heap_inv_def page_base_def)
  ultimately show ?thesis
    using run lim kn
    by (intro exI [of _ ?x] exI [of _ ?p]) (simp add: x32_gdt64_get_gdtr_def x32_gdt64_get_cs_def del: of_nat_mult of_nat_diff)
qed

section \<open>Properties\<close>

text \<open>
  C21. \<^verbatim>\<open>x32_gdt64_setup\<close> with a current GDT of \<open>n\<close> descriptors (at most 510, apart from the new page): the new table
  keeps the descriptors below the new ones, then holds a present 64-bit ring-0 code segment and a present data segment,
  which take the place of a zero last descriptor or follow a non-zero one; \<^verbatim>\<open>cs_64\<close> selects the code segment and the
  new limit covers both.
\<close>

theorem gdt64_setup_correct:
  assumes ok: "desc_ok E" and af: "ALIGN_FORWARD_ok af" and room: "page_room 1 (ld x)"
    and n: "0 < n" "n + 2 \<le> 512" and limit: "unat (g_limit hw) = 8 * n - 1"
    and sep: "sep (page_base (ld x)) 4096 (g_base hw) (8 * n)"
    and k: "k = (if load64 (mem (ld x)) (g_base hw + of_nat (8 * (n - 1))) = 0 then n - 1 else n)"
  shows "\<exists>x' p. x32_gdt64_setup E af hw x = Some x' \<and> g_base (x32_gdt64_get_gdtr x') = p
    \<and> unat (g_limit (x32_gdt64_get_gdtr x')) = 8 * (n + 2) - 1 \<and> unat (x32_gdt64_get_cs x') = 8 * k
    \<and> map (\<lambda>i. load64 (mem (ld x')) (p + of_nat (8 * i))) [0..<k + 2]
      = map (\<lambda>i. load64 (mem (ld x)) (g_base hw + of_nat (8 * i))) [0..<k] @ [0x00A09E0000000000, 0x00A0920000000000]
    \<and> 8 * (k + 1) + 7 \<le> unat (g_limit (x32_gdt64_get_gdtr x'))"
  using gdt64_setup [OF ok af _ n limit sep k, of 0] room by auto

text \<open>A GDT of two descriptors at \<^verbatim>\<open>0x8000\<close>, the null descriptor and a flat code segment.\<close>

definition std_desc :: desc_env where
  "std_desc = \<lparr>s_accessed = (8, 1), s_readable = (9, 1), s_conforming = (10, 1), s_mbo_11 = (11, 1), s_mbo_12 = (12, 1),
     s_dpl = (13, 2), s_present = (15, 1), s_long_mode = (21, 1), s_default_size = (22, 1), s_granularity = (23, 1),
     o_hi = 4, sizeof_desc = 8, s_PAGE_4KB_SIZE = 4096\<rparr>"

definition flat_gdt :: mem where
  "flat_gdt = (\<lambda>_. 0)(0x8008 := 0xFF, 0x8009 := 0xFF, 0x800D := 0x9B, 0x800E := 0xCF)"

definition gdt_state :: x64_state where
  "gdt_state = \<lparr>ld = small_heap\<lparr>mem := flat_gdt\<rparr>, cr3_for_x64 = 0, gdtr_32 = \<lparr>g_limit = 0, g_base = 0\<rparr>,
     gdtr_64 = \<lparr>g_limit = 0, g_base = 0\<rparr>, cs_64 = 0\<rparr>"

theorem gdt64_setup_correct_witness:
  "\<exists>x' p. x32_gdt64_setup std_desc page_round_up \<lparr>g_limit = 15, g_base = 0x8000\<rparr> gdt_state = Some x'
    \<and> g_base (x32_gdt64_get_gdtr x') = p \<and> unat (g_limit (x32_gdt64_get_gdtr x')) = 31 \<and> unat (x32_gdt64_get_cs x') = 16
    \<and> map (\<lambda>i. load64 (mem (ld x')) (p + of_nat (8 * i))) [0..<4]
      = [0, 0x00CF9B000000FFFF, 0x00A09E0000000000, 0x00A0920000000000]"
proof -
  let ?hw = "\<lparr>g_limit = 15, g_base = 0x8000\<rparr> :: gdtr"
  have e: "load64 flat_gdt 0x8000 = 0" "load64 flat_gdt 0x8008 = 0x00CF9B000000FFFF"
    by (simp_all add: flat_gdt_def mem_eval)
  have "\<exists>x' p. x32_gdt64_setup std_desc page_round_up ?hw gdt_state = Some x' \<and> g_base (x32_gdt64_get_gdtr x') = p
    \<and> unat (g_limit (x32_gdt64_get_gdtr x')) = 8 * (2 + 2) - 1 \<and> unat (x32_gdt64_get_cs x') = 8 * 2
    \<and> map (\<lambda>i. load64 (mem (ld x')) (p + of_nat (8 * i))) [0..<2 + 2]
      = map (\<lambda>i. load64 (mem (ld gdt_state)) (g_base ?hw + of_nat (8 * i))) [0..<2] @ [0x00A09E0000000000, 0x00A0920000000000]
    \<and> 8 * (2 + 1) + 7 \<le> unat (g_limit (x32_gdt64_get_gdtr x'))"
    by (rule gdt64_setup_correct [OF _ page_round_up_ok])
      (simp_all add: desc_ok_def std_desc_def page_room_def heap_inv_def gdt_state_def small_heap_def round_page_def
        sep_def page_base_def e)
  moreover have "map (\<lambda>i. load64 (mem (ld gdt_state)) (g_base ?hw + of_nat (8 * i))) [0..<2] = [0, 0x00CF9B000000FFFF]"
    by (simp add: upt_rec gdt_state_def e)
  ultimately show ?thesis by (elim exE conjE, intro exI conjI) (assumption | simp)+
qed

end
