(* ===== verification/Paging.thy ===== *)
theory Paging
  imports X64_Base "HOL-Library.Monad_Syntax"
begin

text \<open>
  \<^verbatim>\<open>pre_os/xmon_loader/utils/x64/x32_pt64.c\<close>: the page tables for 64-bit mode, which map the low 4 GB with
  2 MB pages. The field layout of the table entries and of CR3 is the parameter \<open>E\<close>
  (\<^verbatim>\<open>em64t_defs.h\<close> of the core); \<open>em64t_ok\<close> states that it is the layout the processor uses.
\<close>

section \<open>Layout of the entries\<close>

record dir_fields =
  d_present :: field
  d_rw :: field
  d_us :: field
  d_pwt :: field
  d_pcd :: field
  d_accessed :: field
  d_ignored :: field
  d_zeroes :: field
  d_avl :: field
  d_base :: field

record pde_fields =
  p_present :: field
  p_rw :: field
  p_us :: field
  p_pwt :: field
  p_pcd :: field
  p_accessed :: field
  p_dirty :: field
  p_pse :: field
  p_global :: field
  p_avl :: field
  p_pat :: field
  p_zeroes :: field
  p_base :: field

record em64t_env =
  pml4e :: dir_fields
  pdpe :: dir_fields
  pde_2mb :: pde_fields
  c_pwt :: field
  c_pcd :: field
  c_base :: field
  sizeof_pte :: u32
  PAGE_4KB_SIZE :: u32
  PAGE_2MB_SIZE :: u32

section \<open>x32_pt64.c\<close>

definition pte_at :: "em64t_env \<Rightarrow> u32 \<Rightarrow> nat \<Rightarrow> u32" where
  "pte_at E table i = table + of_nat i * sizeof_pte E"

text \<open>The assignments to an entry of the upper tables, but for its base address, and those to a 2 MB entry.\<close>

definition dir_entry :: "dir_fields \<Rightarrow> (field \<times> u32) list" where
  "dir_entry D = [(d_present D, 1), (d_rw D, 1), (d_us D, 0), (d_pwt D, 0), (d_pcd D, 0), (d_accessed D, 0),
     (d_ignored D, 0), (d_zeroes D, 0), (d_avl D, 0)]"

definition pde_entry :: "pde_fields \<Rightarrow> u32 \<Rightarrow> (field \<times> u32) list" where
  "pde_entry P address = [(p_present P, 1), (p_rw P, 1), (p_us P, 0), (p_pwt P, 0), (p_pcd P, 0), (p_accessed P, 0),
     (p_dirty P, 0), (p_pse P, 1), (p_global P, 0), (p_avl P, 0), (p_pat P, 0), (p_zeroes P, 0),
     (p_base P, drop_bit 21 address)]"

function pd_loop :: "em64t_env \<Rightarrow> u32 \<Rightarrow> nat \<Rightarrow> u32 \<Rightarrow> mem \<Rightarrow> u32 \<times> mem" where
  "pd_loop E pd_table pdt_entry_id address m =
     (if pdt_entry_id < 512
      then pd_loop E pd_table (Suc pdt_entry_id) (address + PAGE_2MB_SIZE E)
             (set_fields (pte_at E pd_table pdt_entry_id) (pde_entry (pde_2mb E) address) m)
      else (address, m))"
  by pat_completeness auto
termination by (relation "measure (\<lambda>(_, _, i, _, _). 512 - i)") auto

declare pd_loop.simps [simp del]

function pdpt_loop :: "em64t_env \<Rightarrow> (u32 \<Rightarrow> u32 \<Rightarrow> u32) \<Rightarrow> u32 \<Rightarrow> nat \<Rightarrow> u32 \<Rightarrow> loader_state \<Rightarrow> loader_state option" where
  "pdpt_loop E af pdp_table pdpt_entry_id address s =
     (if pdpt_entry_id < 4
      then do {
        let e = pte_at E pdp_table pdpt_entry_id;
        let s = s\<lparr>mem := set_fields e (dir_entry (pdpe E)) (mem s)\<rparr>;
        (pd_table, s) \<leftarrow> zeroed_page af (PAGE_4KB_SIZE E) s;
        let m = set_fields e [(d_base (pdpe E), drop_bit 12 pd_table)] (mem s);
        let (address, m) = pd_loop E pd_table 0 address m;
        pdpt_loop E af pdp_table (Suc pdpt_entry_id) address (s\<lparr>mem := m\<rparr>) }
      else Some s)"
  by pat_completeness auto
termination by (relation "measure (\<lambda>(_, _, _, i, _, _). 4 - i)") auto

declare pdpt_loop.simps [simp del]

text \<open>The size argument is clamped to 4 GB and then not used.\<close>

definition x32_pt64_setup_paging ::
    "em64t_env \<Rightarrow> (u32 \<Rightarrow> u32 \<Rightarrow> u32) \<Rightarrow> u64 \<Rightarrow> x64_state \<Rightarrow> x64_state option" where
  "x32_pt64_setup_paging E af memory_size x =
     do {
       let memory_size = (if memory_size \<ge> 0x100000000 then 0x100000000 else memory_size);
       (pml4_table, s) \<leftarrow> zeroed_page af (PAGE_4KB_SIZE E) (ld x);
       (pdp_table, s) \<leftarrow> zeroed_page af (PAGE_4KB_SIZE E) s;
       let m = set_fields (pte_at E pml4_table 0)
                 ((d_base (pml4e E), drop_bit 12 pdp_table) # dir_entry (pml4e E)) (mem s);
       s \<leftarrow> pdpt_loop E af pdp_table 0 0 (s\<lparr>mem := m\<rparr>);
       Some (x\<lparr>ld := s, cr3_for_x64 := assign
         [(c_pwt E, 0), (c_pcd E, 0), (c_base E, drop_bit 12 pml4_table)] (cr3_for_x64 x)\<rparr>) }"

text \<open>\<open>ia32_write_cr3\<close> of the core acts on the processor \<open>c\<close>.\<close>

definition x32_pt64_load_cr3 :: "(u32 \<Rightarrow> 'cpu \<Rightarrow> 'cpu) \<Rightarrow> x64_state \<Rightarrow> 'cpu \<Rightarrow> 'cpu" where
  "x32_pt64_load_cr3 ia32_write_cr3 x c = ia32_write_cr3 (cr3_for_x64 x) c"

definition x32_pt64_get_cr3 :: "x64_state \<Rightarrow> u32" where
  "x32_pt64_get_cr3 x = cr3_for_x64 x"

section \<open>The processor's view\<close>

text \<open>
  IA-32e paging as the processor does it: every entry has eight bytes; bit 0 is present, bit 1 writable,
  bit 7 selects a 2 MB page in the page directory; the base address occupies bits 12 and up, bits 21 and up for
  a 2 MB page. The walk yields the physical address for a supervisor write to the linear address
  \<open>va\<close>; entries with a base above 4 GB or with reserved bits set give \<open>None\<close> here.
\<close>

definition arch_dir :: dir_fields where
  "arch_dir = \<lparr>d_present = (0, 1), d_rw = (1, 1), d_us = (2, 1), d_pwt = (3, 1), d_pcd = (4, 1), d_accessed = (5, 1),
     d_ignored = (6, 1), d_zeroes = (7, 2), d_avl = (9, 3), d_base = (12, 20)\<rparr>"

definition arch_pde :: pde_fields where
  "arch_pde = \<lparr>p_present = (0, 1), p_rw = (1, 1), p_us = (2, 1), p_pwt = (3, 1), p_pcd = (4, 1), p_accessed = (5, 1),
     p_dirty = (6, 1), p_pse = (7, 1), p_global = (8, 1), p_avl = (9, 3), p_pat = (12, 1), p_zeroes = (13, 8),
     p_base = (21, 11)\<rparr>"

definition em64t_ok :: "em64t_env \<Rightarrow> bool" where
  "em64t_ok E \<longleftrightarrow> pml4e E = arch_dir \<and> pdpe E = arch_dir \<and> pde_2mb E = arch_pde
     \<and> c_pwt E = (3, 1) \<and> c_pcd E = (4, 1) \<and> c_base E = (12, 20)
     \<and> sizeof_pte E = 8 \<and> PAGE_4KB_SIZE E = 4096 \<and> PAGE_2MB_SIZE E = 0x200000"

definition next_table :: "mem \<Rightarrow> u32 \<Rightarrow> nat \<Rightarrow> u32 option" where
  "next_table m table i =
     (let lo = load32 m (table + of_nat (8 * i)); hi = load32 m (table + of_nat (8 * i + 4))
      in if hi = 0 \<and> get_field (0, 1) lo = 1 \<and> get_field (1, 1) lo = 1 \<and> get_field (7, 1) lo = 0
         then Some (push_bit 12 (get_field (12, 20) lo)) else None)"

definition page_2mb :: "mem \<Rightarrow> u32 \<Rightarrow> nat \<Rightarrow> nat option" where
  "page_2mb m table i =
     (let lo = load32 m (table + of_nat (8 * i)); hi = load32 m (table + of_nat (8 * i + 4))
      in if hi = 0 \<and> get_field (0, 1) lo = 1 \<and> get_field (1, 1) lo = 1 \<and> get_field (7, 1) lo = 1
            \<and> get_field (13, 8) lo = 0
         then Some (unat (get_field (21, 11) lo) * 2 ^ 21) else None)"

definition walk :: "mem \<Rightarrow> u32 \<Rightarrow> nat \<Rightarrow> nat option" where
  "walk m cr3 va =
     do {
       pdp \<leftarrow> next_table m (push_bit 12 (get_field (12, 20) cr3)) (va div 2 ^ 39 mod 512);
       pd \<leftarrow> next_table m pdp (va div 2 ^ 30 mod 512);
       base \<leftarrow> page_2mb m pd (va div 2 ^ 21 mod 512);
       Some (base + va mod 2 ^ 21) }"

section \<open>Filling the tables\<close>

lemma em64t_okD:
  assumes "em64t_ok E"
  shows "pml4e E = arch_dir" "pdpe E = arch_dir" "pde_2mb E = arch_pde" "PAGE_4KB_SIZE E = 4096"
    "PAGE_2MB_SIZE E = 0x200000" "pte_at E table i = table + of_nat (8 * i)"
  using assms by (simp_all add: em64t_ok_def pte_at_def mult.commute)

lemma load32_apart:
  assumes "\<And>x. in_range b 4 x \<Longrightarrow> m' x = m x"
  shows "load32 m' b = load32 m b"
  using assms by (rule load_cong(2))

lemma set_fields_word:
  assumes "i + 4 < 2 ^ 32" "j + 4 < 2 ^ 32" "i + 4 \<le> j \<or> j + 4 \<le> i"
  shows "load32 (set_fields (t + of_nat i) fs m) (t + of_nat j) = load32 m (t + of_nat j)"
proof (rule load32_apart)
  fix x
  assume x: "in_range (t + of_nat j) 4 x"
  have "\<not> in_range (t + of_nat i) 4 x" by (rule table_words_apart [OF x]) (use assms in auto)
  then show "set_fields (t + of_nat i) fs m x = m x" by (rule set_fields_other)
qed

lemma pd_loop_result:
  assumes "em64t_ok E" and "j \<le> 512" and "pd_loop E pd j a m = (a', m')"
  shows "a' = a + of_nat (512 - j) * 0x200000
    \<and> (\<forall>x. \<not> in_range pd 4096 x \<longrightarrow> m' x = m x)
    \<and> (\<forall>k < 512. load32 m' (pd + of_nat (8 * k)) = (if k < j then load32 m (pd + of_nat (8 * k))
         else assign (pde_entry arch_pde (a + of_nat (k - j) * 0x200000)) (load32 m (pd + of_nat (8 * k)))))
    \<and> (\<forall>k < 512. load32 m' (pd + of_nat (8 * k + 4)) = load32 m (pd + of_nat (8 * k + 4)))"
  using assms(2,3)
proof (induction "512 - j" arbitrary: j a m)
  case 0
  then have "j = 512" by simp
  with 0 show ?case by (simp add: pd_loop.simps [of E pd 512])
next
  case (Suc n)
  note ok = em64t_okD [OF assms(1)]
  let ?e = "pd + of_nat (8 * j)" and ?fs = "pde_entry arch_pde a"
  let ?m = "set_fields ?e ?fs m"
  have j: "j < 512" using Suc.hyps(2) by simp
  have run: "pd_loop E pd (Suc j) (a + 0x200000) ?m = (a', m')"
    using Suc.prems(2) j by (simp add: pd_loop.simps [of E pd j] ok)
  note IH = Suc.hyps(1) [OF _ _ run]
  have IHa: "a' = a + 0x200000 + of_nat (512 - Suc j) * 0x200000"
    and IHf: "\<And>x. \<not> in_range pd 4096 x \<Longrightarrow> m' x = ?m x"
    and IHl: "\<And>k. k < 512 \<Longrightarrow> load32 m' (pd + of_nat (8 * k)) = (if k < Suc j then load32 ?m (pd + of_nat (8 * k))
         else assign (pde_entry arch_pde (a + 0x200000 + of_nat (k - Suc j) * 0x200000)) (load32 ?m (pd + of_nat (8 * k))))"
    and IHh: "\<And>k. k < 512 \<Longrightarrow> load32 m' (pd + of_nat (8 * k + 4)) = load32 ?m (pd + of_nat (8 * k + 4))"
    using IH Suc.hyps(2) j by simp_all
  have step: "a + 0x200000 + of_nat (k - Suc j) * 0x200000 = a + of_nat (k - j) * (0x200000 :: u32)" if "j < k" for k
  proof -
    have "k - j = Suc (k - Suc j)" using that by simp
    then show ?thesis by (simp add: algebra_simps)
  qed
  have lo: "load32 ?m (pd + of_nat (8 * k)) = (if k = j then assign ?fs (load32 m ?e) else load32 m (pd + of_nat (8 * k)))"
    if "k < 512" for k
  proof (cases "k = j")
    case True
    then show ?thesis by (simp add: load_set_fields del: of_nat_mult)
  next
    case False
    then have "load32 ?m (pd + of_nat (8 * k)) = load32 m (pd + of_nat (8 * k))"
      using that j by (intro set_fields_word) auto
    with False show ?thesis by simp
  qed
  have hi: "load32 ?m (pd + of_nat (8 * k + 4)) = load32 m (pd + of_nat (8 * k + 4))" if "k < 512" for k
    using that j by (intro set_fields_word) auto
  have fr: "?m x = m x" if "\<not> in_range pd 4096 x" for x
  proof (rule set_fields_other)
    have "inside ?e 4 pd 4096" using j by (simp add: inside_def unat_of_nat32 del: of_nat_mult)
    then show "\<not> in_range ?e 4 x" using that inside_in_range by blast
  qed
  have "a' = a + of_nat (512 - j) * 0x200000" using IHa step [of 512] j by simp
  moreover have "load32 m' (pd + of_nat (8 * k)) = (if k < j then load32 m (pd + of_nat (8 * k))
         else assign (pde_entry arch_pde (a + of_nat (k - j) * 0x200000)) (load32 m (pd + of_nat (8 * k))))"
    if "k < 512" for k
    using IHl [OF that] lo [OF that] step [of k] by (cases "k = j") (auto simp: add.assoc simp del: of_nat_mult of_nat_diff)
  ultimately show ?case using IHf IHh hi fr by simp
qed

lemma off_range:
  assumes "unat P + i + n \<le> 2 ^ 32" "0 < n"
  shows "in_range (P + of_nat i) n x \<longleftrightarrow> unat P + i \<le> unat x \<and> unat x < unat P + i + n"
proof -
  have "unat (P + of_nat i) = unat P + i"
    using assms by (simp add: unat_word_ariths(1) unat_of_nat32)
  then show ?thesis using assms by (subst in_range_linear) simp_all
qed

text \<open>One entry of the page-directory-pointer table with the page directory it points at.\<close>

definition pd_filled :: "mem \<Rightarrow> u32 \<Rightarrow> nat \<Rightarrow> bool" where
  "pd_filled m P i \<longleftrightarrow> (\<forall>q < 512.
     load32 m (P + of_nat (8 * q)) = assign (pde_entry arch_pde (of_nat (512 * i + q) * 0x200000)) 0
     \<and> load32 m (P + of_nat (8 * q + 4)) = 0)"

definition pdpe_filled :: "u32 \<Rightarrow> u32 \<Rightarrow> u32" where
  "pdpe_filled P w = put_field (12, 20) (drop_bit 12 P) (assign (dir_entry arch_dir) w)"

lemma pd_filled_cong:
  assumes "pd_filled m P i" and "\<And>x. in_range P 4096 x \<Longrightarrow> m' x = m x"
  shows "pd_filled m' P i"
proof -
  have "agree_on P 4096 m m'" using assms(2) by (simp add: agree_on_def)
  from agree_on_load(2) [OF this] have "load32 m' (P + of_nat k) = load32 m (P + of_nat k)" if "k + 4 \<le> 4096" for k
    using that by (simp add: inside_def unat_of_nat32)
  moreover have "8 * q + 4 \<le> 4096" "8 * q + 4 + 4 \<le> (4096 :: nat)" if "q < 512" for q using that by simp_all
  ultimately show ?thesis using assms(1) by (simp add: pd_filled_def del: of_nat_mult of_nat_add)
qed

lemma page_base_mem [simp]: "page_base (s\<lparr>mem := m\<rparr>) = page_base s"
  by (simp add: page_base_def)

lemma page_room_mem [simp]: "page_room k (s\<lparr>mem := m\<rparr>) = page_room k s"
  by (simp add: page_room_def heap_inv_def)

lemma pdpt_step:
  fixes s :: loader_state and pdp :: u32
  defines "P \<equiv> page_base s"
  assumes E: "em64t_ok E" and af: "ALIGN_FORWARD_ok af" and i: "i < 4" and room: "page_room (Suc k) s"
    and below: "unat pdp + 4096 \<le> unat P"
  obtains s' where "pdpt_loop E af pdp i (of_nat (512 * i) * 0x200000) s
      = pdpt_loop E af pdp (Suc i) (of_nat (512 * Suc i) * 0x200000) s'"
    and "page_room k s'" "page_base s' = P + 4096" "heap_tops s' = heap_tops s" "heap_base s' = heap_base s"
      "cursor s' = cursor s" "unat (heap_current s') = unat P + 4096"
      "unat P + 4096 * Suc k \<le> unat (heap_tops s)"
    and "\<And>x. \<not> in_range (pdp + of_nat (8 * i)) 4 x \<Longrightarrow> \<not> in_range P 4096 x \<Longrightarrow> mem s' x = mem s x"
    and "load32 (mem s') (pdp + of_nat (8 * i)) = pdpe_filled P (load32 (mem s) (pdp + of_nat (8 * i)))"
    and "pd_filled (mem s') P i"
proof -
  note ok = em64t_okD [OF E]
  let ?e = "pdp + of_nat (8 * i)" and ?a = "of_nat (512 * i) * (0x200000 :: u32)"
  let ?s = "s\<lparr>mem := set_fields ?e (dir_entry arch_dir) (mem s)\<rparr>"
  have "page_room (Suc k) ?s" using room by simp
  from zeroed_page_step [OF af this]
  obtain s1 where z: "zeroed_page af 4096 ?s = Some (P, s1)" and r1: "page_room k s1" "page_base s1 = P + 4096"
    and h1: "heap_tops s1 = heap_tops s" "heap_base s1 = heap_base s" "cursor s1 = cursor s"
      "unat (heap_current s1) = unat P + 4096" "unat P + 4096 * Suc k \<le> unat (heap_tops s)"
    and m1: "\<And>x. mem s1 x = (if in_range P 4096 x then 0 else mem ?s x)"
    unfolding P_def by (auto simp: page_base_def)
  let ?m2 = "set_fields ?e [((12, 20), drop_bit 12 P)] (mem s1)"
  obtain a3 m3 where pd: "pd_loop E P 0 ?a ?m2 = (a3, m3)" by fastforce
  note R = pd_loop_result [OF E _ pd, simplified]
  have out: "\<not> in_range P 4096 x" if "in_range ?e 4 x" for x
  proof -
    have "unat P + 4096 \<le> 2 ^ 32" using h1(5) unat_bound(3) [of "heap_tops s"] by simp
    then show ?thesis
      using that below i off_range [of pdp "8 * i" 4 x] off_range [of P 0 4096 x] by auto
  qed
  have m2P: "?m2 x = 0" if "in_range P 4096 x" for x
    using that out by (metis m1 set_fields_other)
  have e3: "load32 m3 ?e = load32 ?m2 ?e"
    by (rule load32_apart) (use R out in auto)
  have e1: "load32 (mem s1) ?e = load32 (mem ?s) ?e"
    by (rule load32_apart) (use m1 out in auto)
  have zero: "load32 ?m2 (P + of_nat d) = 0" if "d + 4 \<le> 4096" for d
  proof -
    have "load32 ?m2 (P + of_nat d) = load32 (\<lambda>_. 0) (P + of_nat d)"
    proof (rule load32_apart)
      fix x
      assume "in_range (P + of_nat d) 4 x"
      moreover have "inside (P + of_nat d) 4 P 4096" using that by (simp add: inside_def unat_of_nat32)
      ultimately show "?m2 x = 0" using m2P inside_in_range by blast
    qed
    then show ?thesis by (simp add: load32_def)
  qed
  have arg: "?a + of_nat q * 0x200000 = of_nat (512 * i + q) * (0x200000 :: u32)" for q
    by (simp add: algebra_simps)
  have a3: "a3 = of_nat (512 * Suc i) * 0x200000" using R by (simp add: algebra_simps)
  define s' where "s' = s1\<lparr>mem := m3\<rparr>"
  show thesis
  proof (rule that [of s'])
    show "pdpt_loop E af pdp i ?a s = pdpt_loop E af pdp (Suc i) (of_nat (512 * Suc i) * 0x200000) s'"
      using i z pd by (subst pdpt_loop.simps) (simp add: ok s'_def Let_def a3 arch_dir_def [THEN arg_cong, of d_base])
    show "mem s' x = mem s x" if "\<not> in_range ?e 4 x" "\<not> in_range P 4096 x" for x
      using that R m1 [of x] by (simp add: s'_def set_fields_other store_other(3))
    show "load32 (mem s') ?e = pdpe_filled P (load32 (mem s) ?e)"
      by (simp add: s'_def e3 e1 load_set_fields pdpe_filled_def del: of_nat_mult)
    have "load32 m3 (P + of_nat (8 * q)) = assign (pde_entry arch_pde (?a + of_nat q * 0x200000)) (load32 ?m2 (P + of_nat (8 * q)))"
      "load32 m3 (P + of_nat (8 * q + 4)) = load32 ?m2 (P + of_nat (8 * q + 4))" if "q < 512" for q
      using pd_loop_result [OF E _ pd] that by auto
    then show "pd_filled (mem s') P i"
      using zero unfolding pd_filled_def arg s'_def by (simp del: of_nat_mult of_nat_add)
  qed (use r1 h1 in \<open>simp_all add: s'_def\<close>)
qed

text \<open>
  The entries from \<open>i\<close> on point at consecutive filled page directories from \<open>P\<close> on; nothing else has changed.
\<close>

definition pdpt_from :: "mem \<Rightarrow> u32 \<Rightarrow> u32 \<Rightarrow> nat \<Rightarrow> mem \<Rightarrow> bool" where
  "pdpt_from m pdp P i m' \<longleftrightarrow>
     (\<forall>x. (\<forall>k. i \<le> k \<and> k < 4 \<longrightarrow> \<not> in_range (pdp + of_nat (8 * k)) 4 x)
        \<longrightarrow> (unat x < unat P \<or> unat P + 4096 * (4 - i) \<le> unat x) \<longrightarrow> m' x = m x)
     \<and> (\<forall>k. i \<le> k \<and> k < 4 \<longrightarrow>
          load32 m' (pdp + of_nat (8 * k)) = pdpe_filled (P + of_nat (4096 * (k - i))) (load32 m (pdp + of_nat (8 * k)))
          \<and> pd_filled m' (P + of_nat (4096 * (k - i))) k)"

lemma pdpt_from_Suc:
  assumes i: "i < 4" and lim: "unat P + 4096 * (4 - i) < 2 ^ 32" and below: "unat pdp + 4096 \<le> unat P"
    and f1: "\<And>x. \<not> in_range (pdp + of_nat (8 * i)) 4 x \<Longrightarrow> \<not> in_range P 4096 x \<Longrightarrow> m1 x = m x"
    and e1: "load32 m1 (pdp + of_nat (8 * i)) = pdpe_filled P (load32 m (pdp + of_nat (8 * i)))"
    and p1: "pd_filled m1 P i" and rest: "pdpt_from m1 pdp (P + 4096) (Suc i) m'"
  shows "pdpt_from m pdp P i m'"
proof -
  have u1: "unat (P + 4096) = unat P + 4096" using lim i by (simp add: unat_word_ariths(1))
  have f': "m' x = m1 x" if "\<forall>k. Suc i \<le> k \<and> k < 4 \<longrightarrow> \<not> in_range (pdp + of_nat (8 * k)) 4 x"
    "unat x < unat P + 4096 \<or> unat P + 4096 * (4 - i) \<le> unat x" for x
    using rest that i unfolding pdpt_from_def u1 by (auto simp: Suc_diff_Suc)
  have rng: "in_range (pdp + of_nat (8 * k)) 4 x \<longleftrightarrow> unat pdp + 8 * k \<le> unat x \<and> unat x < unat pdp + 8 * k + 4"
    if "k < 4" for k x
    using that below unat_bound(3) [of P] by (intro off_range) auto
  have rngP: "in_range P 4096 x \<longleftrightarrow> unat P \<le> unat x \<and> unat x < unat P + 4096" for x
    using lim i by (intro in_range_linear) simp
  have "load32 m' (pdp + of_nat (8 * k)) = pdpe_filled (P + of_nat (4096 * (k - i))) (load32 m (pdp + of_nat (8 * k)))
      \<and> pd_filled m' (P + of_nat (4096 * (k - i))) k" if k: "i \<le> k" "k < 4" for k
  proof (cases "k = i")
    case True
    have "load32 m' (pdp + of_nat (8 * i)) = load32 m1 (pdp + of_nat (8 * i))"
      by (rule load32_apart, rule f') (use i below in \<open>auto simp: rng simp del: of_nat_mult\<close>)
    moreover have "pd_filled m' P i"
      by (rule pd_filled_cong [OF p1], rule f') (use i below in \<open>auto simp: rng rngP simp del: of_nat_mult\<close>)
    ultimately show ?thesis using True e1 by simp
  next
    case False
    have "load32 m1 (pdp + of_nat (8 * k)) = load32 m (pdp + of_nat (8 * k))"
      by (rule load32_apart, rule f1) (use k False i below in \<open>auto simp: rng rngP simp del: of_nat_mult\<close>)
    moreover have "4096 * (k - i) = 4096 + 4096 * (k - Suc i)" using k False by simp
    ultimately show ?thesis using rest k False by (simp add: pdpt_from_def add.assoc)
  qed
  moreover have "m' x = m x" if "\<forall>k. i \<le> k \<and> k < 4 \<longrightarrow> \<not> in_range (pdp + of_nat (8 * k)) 4 x"
    "unat x < unat P \<or> unat P + 4096 * (4 - i) \<le> unat x" for x
  proof -
    have "m' x = m1 x" by (rule f') (use that in auto)
    also have "\<dots> = m x" by (rule f1) (use that i in \<open>auto simp: rngP\<close>)
    finally show ?thesis .
  qed
  ultimately show ?thesis by (simp add: pdpt_from_def)
qed

lemma pdpt_loop_result:
  assumes E: "em64t_ok E" and af: "ALIGN_FORWARD_ok af"
  shows "\<lbrakk>i \<le> 4; page_room (4 - i) s; unat pdp + 4096 \<le> unat (page_base s)\<rbrakk> \<Longrightarrow>
    \<exists>s'. pdpt_loop E af pdp i (of_nat (512 * i) * 0x200000) s = Some s'
      \<and> heap_tops s' = heap_tops s \<and> heap_base s' = heap_base s \<and> cursor s' = cursor s
      \<and> pdpt_from (mem s) pdp (page_base s) i (mem s')"
proof (induction "4 - i" arbitrary: i s)
  case 0
  then have "i = 4" by simp
  with 0 show ?case by (auto simp: pdpt_loop.simps [of E af pdp 4] pdpt_from_def)
next
  case (Suc n)
  have i: "i < 4" and nn: "4 - Suc i = n" "4 - i = Suc n" using Suc.hyps(2) by simp_all
  let ?P = "page_base s"
  have "page_room (Suc n) s" using Suc by simp
  from pdpt_step [OF E af i this Suc.prems(3)]
  obtain s1 where run: "pdpt_loop E af pdp i (of_nat (512 * i) * 0x200000) s
      = pdpt_loop E af pdp (Suc i) (of_nat (512 * Suc i) * 0x200000) s1"
    and r1: "page_room n s1" and b1: "page_base s1 = ?P + 4096" and t1: "heap_tops s1 = heap_tops s"
      "heap_base s1 = heap_base s" "cursor s1 = cursor s" and top: "unat ?P + 4096 * Suc n \<le> unat (heap_tops s)"
    and f1: "\<And>x. \<not> in_range (pdp + of_nat (8 * i)) 4 x \<Longrightarrow> \<not> in_range ?P 4096 x \<Longrightarrow> mem s1 x = mem s x"
    and e1: "load32 (mem s1) (pdp + of_nat (8 * i)) = pdpe_filled ?P (load32 (mem s) (pdp + of_nat (8 * i)))"
    and p1: "pd_filled (mem s1) ?P i" by metis
  have lim: "unat ?P + 4096 * (4 - i) < 2 ^ 32" using top unat_bound(3) [of "heap_tops s"] by (simp add: nn)
  have "unat (page_base s1) = unat ?P + 4096" using lim nn by (simp add: b1 unat_word_ariths(1))
  then obtain s' where "pdpt_loop E af pdp (Suc i) (of_nat (512 * Suc i) * 0x200000) s1 = Some s'"
    "heap_tops s' = heap_tops s1" "heap_base s' = heap_base s1" "cursor s' = cursor s1"
    and rest: "pdpt_from (mem s1) pdp (page_base s1) (Suc i) (mem s')"
    using Suc.hyps(1) [of "Suc i" s1] nn i r1 Suc.prems(3) by auto
  with run t1 pdpt_from_Suc [OF i lim Suc.prems(3) f1 e1 p1 rest [unfolded b1]] show ?case by auto
qed

section \<open>Properties\<close>

text \<open>What the processor reads from the entries.\<close>

lemma pdpe_filled_fields:
  "get_field (0, 1) (pdpe_filled P 0) = 1" "get_field (1, 1) (pdpe_filled P 0) = 1"
  "get_field (7, 1) (pdpe_filled P 0) = 0" "get_field (12, 20) (pdpe_filled P 0) = drop_bit 12 P"
  by (simp_all add: pdpe_filled_def dir_entry_def arch_dir_def get_put take_drop_all)

lemma pml4e_fields:
  fixes P :: u32
  defines "e \<equiv> assign (((12, 20), drop_bit 12 P) # dir_entry arch_dir) 0"
  shows "get_field (0, 1) e = 1" "get_field (1, 1) e = 1" "get_field (7, 1) e = 0" "get_field (12, 20) e = drop_bit 12 P"
  by (simp_all add: e_def dir_entry_def arch_dir_def get_put take_drop_all)

lemma pde_fields:
  fixes a :: u32
  defines "e \<equiv> assign (pde_entry arch_pde a) 0"
  shows "get_field (0, 1) e = 1" "get_field (1, 1) e = 1" "get_field (7, 1) e = 1" "get_field (13, 8) e = 0"
    "get_field (21, 11) e = drop_bit 21 a"
  by (simp_all add: e_def pde_entry_def arch_pde_def get_put take_drop_all)

lemma next_table_pd:
  assumes "load32 m (t + of_nat (8 * i)) = e" "load32 m (t + of_nat (8 * i + 4)) = 0" "4096 dvd unat P"
    and "get_field (0, 1) e = 1" "get_field (1, 1) e = 1" "get_field (7, 1) e = 0" "get_field (12, 20) e = drop_bit 12 P"
  shows "next_table m t i = Some P"
  using assms push_drop_aligned [of 12 P] by (simp add: next_table_def del: of_nat_mult of_nat_add)

lemma next_table_absent: "load32 m (t + of_nat (8 * i)) = 0 \<Longrightarrow> next_table m t i = None"
  by (simp add: next_table_def del: of_nat_mult of_nat_add)

lemma page_2mb_filled:
  assumes "pd_filled m P k" "k < 4" "q < 512"
  shows "page_2mb m P q = Some ((512 * k + q) * 2 ^ 21)"
proof -
  have u: "unat (of_nat (512 * k + q) * 0x200000 :: u32) = (512 * k + q) * 0x200000"
    using assms(2,3) by (subst unat_word_ariths(2)) (simp add: unat_of_nat32 del: of_nat_mult of_nat_add)
  have "unat (drop_bit 21 (of_nat (512 * k + q) * 0x200000 :: u32)) = 512 * k + q"
    by (simp add: drop_bit_eq_div unat_div u del: of_nat_mult of_nat_add)
  with assms show ?thesis
    by (simp add: page_2mb_def pd_filled_def pde_fields Let_def del: of_nat_mult of_nat_add One_nat_def)
qed

lemma load32_zero:
  assumes "\<And>x. in_range a 4 x \<Longrightarrow> m x = 0"
  shows "load32 m a = 0"
  using load32_apart [of a m "\<lambda>_. 0"] assms by (simp add: load32_def)

text \<open>The tables after the setup, page by page.\<close>

definition tables_ok :: "mem \<Rightarrow> u32 \<Rightarrow> bool" where
  "tables_ok m B \<longleftrightarrow>
     (\<forall>d. 4 dvd d \<and> d < 4096 \<longrightarrow> load32 m (B + of_nat d)
        = (if d = 0 then assign (((12, 20), drop_bit 12 (B + 4096)) # dir_entry arch_dir) 0 else 0))
     \<and> (\<forall>d. 4 dvd d \<and> d < 4096 \<longrightarrow> load32 m (B + 4096 + of_nat d)
        = (if 8 dvd d \<and> d < 32 then pdpe_filled (B + 8192 + of_nat (512 * d)) 0 else 0))
     \<and> (\<forall>k < 4. pd_filled m (B + 8192 + of_nat (4096 * k)) k)"

lemma tables_walk:
  assumes t: "tables_ok m B" and al: "4096 dvd unat B" and lim: "unat B + 6 * 4096 < 2 ^ 32" and va: "va < 2 ^ 48"
    and cr3: "push_bit 12 (get_field (12, 20) cr3) = B"
  shows "walk m cr3 va = (if va < 2 ^ 32 then Some va else None)"
proof -
  have u: "unat (B + of_nat d) = unat B + d" if "d < 6 * 4096" for d
    using that lim by (simp add: unat_word_ariths(1) unat_of_nat32)
  have t4: "load32 m (B + of_nat d) = (if d = 0 then assign (((12, 20), drop_bit 12 (B + 4096)) # dir_entry arch_dir) 0 else 0)"
    and t3: "load32 m (B + 4096 + of_nat d) = (if 8 dvd d \<and> d < 32 then pdpe_filled (B + 8192 + of_nat (512 * d)) 0 else 0)"
    if "4 dvd d" "d < 4096" for d
    using t that unfolding tables_ok_def by blast+
  have n4: "next_table m B i = (if i = 0 then Some (B + 4096) else None)" if "i < 512" for i
  proof (cases "i = 0")
    case True
    have "4096 dvd unat (B + 4096)" using u [of 4096] al by simp
    then show ?thesis
      using True t4 [of 0] t4 [of 4] next_table_pd [of m B 0, OF _ _ _ pml4e_fields, of "B + 4096"] by simp
  next
    case False
    then show ?thesis using t4 [of "8 * i"] that by (simp add: next_table_absent del: of_nat_mult)
  qed
  have n3: "next_table m (B + 4096) i = (if i < 4 then Some (B + 8192 + of_nat (4096 * i)) else None)" if "i < 512" for i
  proof (cases "i < 4")
    case True
    have "load32 m (B + 4096 + of_nat (8 * i)) = pdpe_filled (B + 8192 + of_nat (512 * (8 * i))) 0"
      using t3 [of "8 * i"] True by (simp del: of_nat_mult)
    moreover have "4 dvd 8 * i + 4" "\<not> 8 dvd 8 * i + 4" by presburger+
    then have "load32 m (B + 4096 + of_nat (8 * i + 4)) = 0"
      using t3 [of "8 * i + 4"] True by (simp del: of_nat_mult of_nat_add)
    moreover have "512 * (8 * i) = 4096 * i" by simp
    moreover have "4096 dvd unat (B + 8192 + of_nat (4096 * i))"
      using u [of "8192 + 4096 * i"] al True by (simp add: add.assoc)
    ultimately show ?thesis
      using True next_table_pd [of m "B + 4096" i, OF _ _ _ pdpe_filled_fields] by (simp del: of_nat_mult of_nat_add)
  next
    case False
    then show ?thesis using t3 [of "8 * i"] that by (simp add: next_table_absent del: of_nat_mult)
  qed
  show ?thesis
  proof (cases "va < 2 ^ 32")
    case True
    have i: "va div 2 ^ 39 mod 512 = 0" "va div 2 ^ 30 mod 512 = va div 2 ^ 30" "va div 2 ^ 30 < 4"
      using True by auto
    have "pd_filled m (B + 8192 + of_nat (4096 * (va div 2 ^ 30))) (va div 2 ^ 30)"
      using t i(3) by (simp add: tables_ok_def)
    note pg = page_2mb_filled [OF this i(3), of "va div 2 ^ 21 mod 512"]
    have "va div 2 ^ 30 = va div 2 ^ 21 div 512" by (simp add: div_mult2_eq [symmetric])
    then have "(512 * (va div 2 ^ 30) + va div 2 ^ 21 mod 512) * 2 ^ 21 + va mod 2 ^ 21 = va"
      by (simp only: mult_div_mod_eq div_mult_mod_eq)
    with True i pg n4 [of 0] n3 [of "va div 2 ^ 30"] show ?thesis
      unfolding walk_def cr3 by (simp del: of_nat_mult)
  next
    case False
    show ?thesis
    proof (cases "va div 2 ^ 39 = 0")
      case True
      then have "va div 2 ^ 30 mod 512 = va div 2 ^ 30" "\<not> va div 2 ^ 30 < 4" "va div 2 ^ 30 < 512"
        using False by auto
      then show ?thesis using False True n4 [of 0] n3 [of "va div 2 ^ 30"] unfolding walk_def cr3 by simp
    next
      case f: False
      have "va div 2 ^ 39 mod 512 = va div 2 ^ 39" using va by auto
      then show ?thesis using False f n4 [of "va div 2 ^ 39 mod 512"] unfolding walk_def cr3 by simp
    qed
  qed
qed

lemma tables_ok_from:
  assumes z: "\<And>x. in_range B 8192 x \<Longrightarrow> m0 x = 0" and lim: "unat B + 6 * 4096 < 2 ^ 32"
    and m: "m = set_fields B (((12, 20), drop_bit 12 (B + 4096)) # dir_entry arch_dir) m0"
    and p: "pdpt_from m (B + 4096) (B + 8192) 0 m'"
  shows "tables_ok m' B"
proof -
  have u: "unat (B + of_nat d) = unat B + d" if "d < 6 * 4096" for d
    using that lim by (simp add: unat_word_ariths(1) unat_of_nat32)
  have r: "in_range (B + of_nat d) 4 x \<longleftrightarrow> unat B + d \<le> unat x \<and> unat x < unat B + d + 4" if "d + 4 \<le> 6 * 4096" for d x
    using that lim by (intro off_range) auto
  have e: "B + 4096 + of_nat d = B + of_nat (4096 + d)" for d by (simp add: add.assoc)
  have z0: "load32 m0 (B + of_nat d) = 0" if "d + 4 \<le> 8192" for d
    by (rule load32_zero, rule z) (use that lim in \<open>auto simp: r in_range_linear\<close>)
  have m0: "load32 m B = assign (((12, 20), drop_bit 12 (B + 4096)) # dir_entry arch_dir) 0"
    using z0 [of 0] unfolding m load_set_fields by simp
  have md: "load32 m (B + of_nat d) = 0" if "4 \<le> d" "d + 4 \<le> 8192" for d
    using that z0 [of d] set_fields_word [of 0 d B] unfolding m by (simp del: set_fields.simps)
  have keep: "m' x = m x" if "\<forall>k < 4. \<not> in_range (B + of_nat (4096 + 8 * k)) 4 x" "unat x < unat B + 8192" for x
    using p that u [of 8192] unfolding pdpt_from_def by (simp add: e del: of_nat_mult of_nat_add)
  have q1: "load32 m' (B + of_nat d) = load32 m (B + of_nat d)" if "d < 4096" "4 dvd d" for d
    by (rule load32_apart, rule keep) (use that in \<open>auto simp: r simp del: of_nat_mult of_nat_add\<close>)
  have q2: "load32 m' (B + 4096 + of_nat d) = 0" if "d < 4096" "4 dvd d" "\<not> (8 dvd d \<and> d < 32)" for d
  proof -
    have "load32 m' (B + of_nat (4096 + d)) = load32 m (B + of_nat (4096 + d))"
    proof (rule load32_apart, rule keep)
      fix x
      assume x: "in_range (B + of_nat (4096 + d)) 4 x"
      have "d + 4 \<le> 4096" using that(1,2) by (auto elim!: dvdE)
      with x have x': "unat B + 4096 + d \<le> unat x" "unat x < unat B + 4096 + d + 4"
        by (simp_all add: r del: of_nat_add)
      then show "unat x < unat B + 8192" using \<open>d + 4 \<le> 4096\<close> by simp
      have "d = 8 * k" if "unat B + (4096 + 8 * k) \<le> unat x" "unat x < unat B + (4096 + 8 * k) + 4" for k
        using x' that \<open>4 dvd d\<close> by presburger
      then show "\<forall>k < 4. \<not> in_range (B + of_nat (4096 + 8 * k)) 4 x"
        using that(3) by (auto simp: r simp del: of_nat_mult of_nat_add)
    qed
    also have "\<dots> = 0" using that by (intro md) auto
    finally show ?thesis by (simp add: e)
  qed
  have q3: "load32 m' (B + 4096 + of_nat (8 * k)) = pdpe_filled (B + 8192 + of_nat (4096 * k)) 0"
    and q4: "pd_filled m' (B + 8192 + of_nat (4096 * k)) k" if "k < 4" for k
    using p that md [of "4096 + 8 * k"] unfolding pdpt_from_def by (simp_all add: e del: of_nat_mult of_nat_add)
  have "load32 m' (B + of_nat d) = (if d = 0 then assign (((12, 20), drop_bit 12 (B + 4096)) # dir_entry arch_dir) 0 else 0)"
    if d: "4 dvd d" "d < 4096" for d
  proof (cases "d = 0")
    case True
    then show ?thesis using q1 [of 0] m0 by simp
  next
    case False
    then have "4 \<le> d" "d + 4 \<le> 8192" using d by (auto elim!: dvdE)
    with False show ?thesis using q1 [OF d(2,1)] md by simp
  qed
  moreover have "load32 m' (B + 4096 + of_nat d) = (if 8 dvd d \<and> d < 32 then pdpe_filled (B + 8192 + of_nat (512 * d)) 0 else 0)"
    if "4 dvd d" "d < 4096" for d
    using that q2 [of d] q3 by (auto elim!: dvdE simp del: of_nat_mult)
  ultimately show ?thesis using q4 unfolding tables_ok_def by blast
qed

text \<open>The result, with the statics that the setup leaves alone.\<close>

lemma pt64_setup:
  assumes E: "em64t_ok E" and af: "ALIGN_FORWARD_ok af" and room: "page_room 6 (ld x)"
  shows "\<exists>x'. x32_pt64_setup_paging E af memory_size x = Some x' \<and> cs_64 x' = cs_64 x \<and> gdtr_64 x' = gdtr_64 x
    \<and> (\<forall>va < 2 ^ 48. walk (mem (ld x')) (x32_pt64_get_cr3 x') va = (if va < 2 ^ 32 then Some va else None))
    \<and> (\<forall>y. \<not> in_range (page_base (ld x)) (6 * 4096) y \<longrightarrow> mem (ld x') y = mem (ld x) y)"
proof -
  let ?B = "page_base (ld x)"
  note ok = em64t_okD [OF E]
  have "page_room (Suc 5) (ld x)" using room by simp
  from zeroed_page_step [OF af this] obtain s1 where s1: "zeroed_page af 4096 (ld x) = Some (?B, s1)"
    "4096 dvd unat ?B" "page_room 5 s1" "page_base s1 = ?B + 4096"
    and lim: "unat ?B + 4096 * 6 \<le> unat (heap_tops (ld x))"
    and f1: "\<And>y. mem s1 y = (if in_range ?B 4096 y then 0 else mem (ld x) y)" by auto
  have "page_room (Suc 4) s1" using s1(3) by simp
  from zeroed_page_step [OF af this] obtain s2 where s2: "zeroed_page af 4096 s1 = Some (?B + 4096, s2)"
    "page_room 4 s2" "page_base s2 = ?B + 4096 + 4096"
    and f2: "\<And>y. mem s2 y = (if in_range (?B + 4096) 4096 y then 0 else mem s1 y)" unfolding s1(4) by metis
  have lim': "unat ?B + 6 * 4096 < 2 ^ 32" using lim unat_bound(3) [of "heap_tops (ld x)"] by simp
  have r: "in_range (?B + of_nat d) n y \<longleftrightarrow> unat ?B + d \<le> unat y \<and> unat y < unat ?B + d + n"
    if "d + n \<le> 6 * 4096" "0 < n" for d n y
    using that lim' by (intro off_range) auto
  note r0 = r [of 0, simplified] r [of 4096, simplified]
  let ?m = "set_fields ?B (((12, 20), drop_bit 12 (?B + 4096)) # dir_entry arch_dir) (mem s2)"
  have u: "unat (?B + 4096) = unat ?B + 4096" "unat (?B + 8192) = unat ?B + 8192"
    using lim' by (simp_all add: unat_word_ariths(1))
  have "\<exists>s'. pdpt_loop E af (?B + 4096) 0 (of_nat (512 * 0) * 0x200000) (s2\<lparr>mem := ?m\<rparr>) = Some s'
      \<and> heap_tops s' = heap_tops (s2\<lparr>mem := ?m\<rparr>) \<and> heap_base s' = heap_base (s2\<lparr>mem := ?m\<rparr>)
      \<and> cursor s' = cursor (s2\<lparr>mem := ?m\<rparr>)
      \<and> pdpt_from (mem (s2\<lparr>mem := ?m\<rparr>)) (?B + 4096) (page_base (s2\<lparr>mem := ?m\<rparr>)) 0 (mem s')"
    by (rule pdpt_loop_result [OF E af]) (use s2 u in \<open>simp_all add: add.commute\<close>)
  then obtain s3 where s3: "pdpt_loop E af (?B + 4096) 0 0 (s2\<lparr>mem := ?m\<rparr>) = Some s3"
    and p: "pdpt_from ?m (?B + 4096) (?B + 8192) 0 (mem s3)" using s2(3) by (auto simp: add.commute)
  let ?x = "x\<lparr>ld := s3, cr3_for_x64 := assign [(c_pwt E, 0), (c_pcd E, 0), (c_base E, drop_bit 12 ?B)] (cr3_for_x64 x)\<rparr>"
  have run: "x32_pt64_setup_paging E af memory_size x = Some ?x"
    using s1(1) s2(1) s3 ok(6) [of ?B 0]
    by (simp add: x32_pt64_setup_paging_def ok arch_dir_def [THEN arg_cong, of d_base] del: set_fields.simps)
  have "push_bit 12 (get_field (12, 20) (x32_pt64_get_cr3 ?x)) = ?B"
    using E push_drop_aligned [of 12 ?B] s1(2)
    by (simp add: x32_pt64_get_cr3_def em64t_ok_def get_put take_drop_all)
  moreover have "tables_ok (mem s3) ?B"
    by (rule tables_ok_from [OF _ lim' refl p]) (auto simp: f1 f2 r0)
  ultimately have "walk (mem s3) (x32_pt64_get_cr3 ?x) va = (if va < 2 ^ 32 then Some va else None)" if "va < 2 ^ 48" for va
    using tables_walk [OF _ s1(2) lim' that] by blast
  moreover have "mem s3 y = mem (ld x) y" if y: "\<not> in_range ?B (6 * 4096) y" for y
  proof -
    have "\<not> in_range (?B + 4096 + of_nat (8 * k)) 4 y" if "k < 4" for k
      using y r [of "4096 + 8 * k" 4 y] r0 that by (auto simp: add.assoc)
    then have "mem s3 y = ?m y" using p y r0 u unfolding pdpt_from_def by auto
    also have "\<dots> = mem s2 y" using y r0 by (intro set_fields_other) auto
    also have "\<dots> = mem (ld x) y" using y r0 by (auto simp: f1 f2)
    finally show ?thesis .
  qed
  ultimately show ?thesis using run by (intro exI [of _ ?x]) simp
qed

text \<open>
  C5. The paging setup maps the low 4 GB onto itself: on a heap with room for six pages the setup returns, and with
  the CR3 value it has prepared, the processor's walk takes every linear address below 4 GB to the same physical
  address, present and writable at every level, and finds no translation for any other address below \<open>2 ^ 48\<close>.
  Outside the six pages no byte has changed.
\<close>

theorem pt64_identity_map:
  assumes E: "em64t_ok E" and af: "ALIGN_FORWARD_ok af" and room: "page_room 6 (ld x)"
  shows "\<exists>x'. x32_pt64_setup_paging E af memory_size x = Some x'
    \<and> (\<forall>va < 2 ^ 48. walk (mem (ld x')) (x32_pt64_get_cr3 x') va = (if va < 2 ^ 32 then Some va else None))
    \<and> (\<forall>y. \<not> in_range (page_base (ld x)) (6 * 4096) y \<longrightarrow> mem (ld x') y = mem (ld x) y)"
  using pt64_setup [OF assms] by blast

text \<open>A processor layout, and a heap of seven pages, of which the first is partly used.\<close>

definition std_em64t :: em64t_env where
  "std_em64t = \<lparr>pml4e = arch_dir, pdpe = arch_dir, pde_2mb = arch_pde, c_pwt = (3, 1), c_pcd = (4, 1), c_base = (12, 20),
     sizeof_pte = 8, PAGE_4KB_SIZE = 4096, PAGE_2MB_SIZE = 0x200000\<rparr>"

definition paging_heap :: x64_state where
  "paging_heap = \<lparr>ld = small_heap\<lparr>heap_current := 0x1010, heap_tops := 0x8000\<rparr>, cr3_for_x64 = 0,
     gdtr_32 = \<lparr>g_limit = 0, g_base = 0\<rparr>, gdtr_64 = \<lparr>g_limit = 0, g_base = 0\<rparr>, cs_64 = 0\<rparr>"

theorem pt64_identity_map_witness:
  "\<exists>x'. x32_pt64_setup_paging std_em64t page_round_up 0x100000000 paging_heap = Some x'
    \<and> walk (mem (ld x')) (x32_pt64_get_cr3 x') 0xFEE00300 = Some 0xFEE00300
    \<and> walk (mem (ld x')) (x32_pt64_get_cr3 x') 0x100000000 = None \<and> mem (ld x') 0x1FFF = 7"
proof -
  have "em64t_ok std_em64t" by (simp add: em64t_ok_def std_em64t_def)
  moreover have room: "page_room 6 (ld paging_heap)"
    by (simp add: page_room_def heap_inv_def paging_heap_def small_heap_def round_page_def)
  ultimately obtain x' where x': "x32_pt64_setup_paging std_em64t page_round_up 0x100000000 paging_heap = Some x'"
    "\<And>va. va < 2 ^ 48 \<Longrightarrow> walk (mem (ld x')) (x32_pt64_get_cr3 x') va = (if va < 2 ^ 32 then Some va else None)"
    "\<And>y. \<not> in_range (page_base (ld paging_heap)) (6 * 4096) y \<Longrightarrow> mem (ld x') y = mem (ld paging_heap) y"
    using pt64_identity_map [OF _ page_round_up_ok] by blast
  have "page_base (ld paging_heap) = 0x2000" by (simp add: page_base_def paging_heap_def small_heap_def round_page_def)
  then have "mem (ld x') 0x1FFF = 7" using x'(3) [of "0x1FFF"] by (simp add: in_range_linear paging_heap_def small_heap_def)
  with x'(1) x'(2) [of "0xFEE00300"] x'(2) [of "0x100000000"] show ?thesis by auto
qed

end
