(* ===== verification/Ap_Startup.thy ===== *)
theory Ap_Startup
  imports X64_Base "HOL-Library.Monad_Syntax"
begin

text \<open>
  \<^verbatim>\<open>startap/ap_procs_init.c\<close>: the boot processor wakes the application processors (APs). This theory holds the
  sequential code of the boot processor; the interleaving with the APs is the subject of \<open>Ap_Protocol\<close>.

  The processor and its devices are the parameter \<open>P\<close>, a record of operations on a world of type \<open>'w\<close>: reading the
  time-stamp counter, an I/O port, a model-specific register and the memory-mapped local APIC, writing the latter, the
  \<^verbatim>\<open>pause\<close> instruction, and access to the two variables that other processors write, \<^verbatim>\<open>ap_presence_array\<close> and
  \<^verbatim>\<open>g_ready_counter\<close>. The registers of the local APIC and the structure \<^verbatim>\<open>mon_startup_struct_t\<close> come from headers of the core;
  the layout of the former and the accessors of the latter are the parameter \<open>A\<close>. Loops that wait for a device or another processor are \<open>None\<close> when they do not end.
\<close>

section \<open>Platform and globals\<close>

record 'w platform =
  p_rdtsc :: "'w \<Rightarrow> u64 \<times> 'w"
  p_in8 :: "u16 \<Rightarrow> 'w \<Rightarrow> u8 \<times> 'w"
  p_rdmsr :: "u32 \<Rightarrow> 'w \<Rightarrow> u64 \<times> 'w"
  p_read :: "u32 \<Rightarrow> 'w \<Rightarrow> u32 \<times> 'w"
  p_write :: "u32 \<Rightarrow> u32 \<Rightarrow> 'w \<Rightarrow> 'w"
  p_pause :: "'w \<Rightarrow> 'w"
  p_presence :: "'w \<Rightarrow> u8 list"
  p_put_presence :: "u8 list \<Rightarrow> 'w \<Rightarrow> 'w"
  p_ready :: "'w \<Rightarrow> u32"
  p_put_ready :: "u32 \<Rightarrow> 'w \<Rightarrow> 'w"

record apic_env =
  icr_vector :: field
  icr_delivery_mode :: field
  icr_delivery_status :: field
  icr_level :: field
  icr_trigger_mode :: field
  icr_destination_shorthand :: field
  icr_destination :: field
  DELIVERY_MODE_INIT :: u32
  DELIVERY_MODE_SIPI :: u32
  BROADCAST_ALL_EXCLUDING_SELF :: u32
  BROADCAST_SPECIFY_CPU :: u32
  IA32_MSR_APIC_BASE :: u32
  LOCAL_APIC_BASE_MSR_MASK :: u64
  LOCAL_APIC_ICR_OFFSET :: u64
  LOCAL_APIC_ICR_OFFSET_HIGH :: u64
  st_post_os_launch :: "mem \<Rightarrow> u32 \<Rightarrow> bool"
  st_number_of_processors :: "mem \<Rightarrow> u32 \<Rightarrow> nat"
  st_put_number_of_processors :: "u32 \<Rightarrow> u32 \<Rightarrow> mem \<Rightarrow> mem"
  st_cpu_local_apic_id :: "mem \<Rightarrow> u32 \<Rightarrow> nat \<Rightarrow> u8"

datatype mp_bootstrap_state = MP_BOOTSTRAP_STATE_INIT | MP_BOOTSTRAP_STATE_APS_ENUMERATED

record ap_globals =
  startap_tsc_ticks_per_msec :: u32
  mp_bootstrap_state :: mp_bootstrap_state
  gp_init32_data :: u32
  g_aps_counter :: u32
  gp_GDT :: gdtr
  gp_IDT :: gdtr
  g_user_func :: u32
  g_any_data_for_user_func :: u32

section \<open>The start-up code in low memory\<close>

definition ap_start_up_code :: "u8 list" where
  "ap_start_up_code = [
     0xB8, 0x00, 0x00,
     0x8E, 0xD8,
     0x8D, 0x36, 0x00, 0x00,
     0x0F, 0x01, 0x14,
     0x0F, 0x20, 0xC0,
     0x0C, 0x01,
     0x0F, 0x22, 0xC0,
     0x66, 0xEA,
     0x00, 0x00, 0x00, 0x00,
     0x00, 0x00,
     0xFA,
     0x66, 0xB8, 0x00, 0x00,
     0x66, 0x8E, 0xD8,
     0x66, 0xB8, 0x00, 0x00,
     0x66, 0x8E, 0xC0,
     0x66, 0xB8, 0x00, 0x00,
     0x66, 0x8E, 0xE8,
     0x66, 0xB8, 0x00, 0x00,
     0x66, 0x8E, 0xE0,
     0x66, 0xB8, 0x00, 0x00,
     0x66, 0x8E, 0xD0,
     0xB8, 0x00, 0x00, 0x00, 0x00,
     0xFF, 0xE0]"

definition AP_START_UP_SEGMENT_IN_CODE_OFFSET :: u32 where "AP_START_UP_SEGMENT_IN_CODE_OFFSET = 1"
definition GDTR_OFFSET_IN_CODE :: u32 where "GDTR_OFFSET_IN_CODE = 7"
definition CONT16_IN_CODE_OFFSET :: u32 where "CONT16_IN_CODE_OFFSET = 22"
definition CONT16_VALUE_OFFSET :: u32 where "CONT16_VALUE_OFFSET = 28"
definition CS_IN_CODE_OFFSET :: u32 where "CS_IN_CODE_OFFSET = 26"
definition DS_IN_CODE_OFFSET :: u32 where "DS_IN_CODE_OFFSET = 31"
definition ES_IN_CODE_OFFSET :: u32 where "ES_IN_CODE_OFFSET = 38"
definition GS_IN_CODE_OFFSET :: u32 where "GS_IN_CODE_OFFSET = 45"
definition FS_IN_CODE_OFFSET :: u32 where "FS_IN_CODE_OFFSET = 52"
definition SS_IN_CODE_OFFSET :: u32 where "SS_IN_CODE_OFFSET = 59"
definition AP_CONTINUE_WAKEUP_CODE_IN_CODE_OFFSET :: u32 where "AP_CONTINUE_WAKEUP_CODE_IN_CODE_OFFSET = 65"

definition GDTR_OFFSET_IN_PAGE :: u32 where
  "GDTR_OFFSET_IN_PAGE = (of_nat (length ap_start_up_code) + 7) AND NOT 7"

definition GDT_OFFSET_IN_PAGE :: u32 where
  "GDT_OFFSET_IN_PAGE = GDTR_OFFSET_IN_PAGE + 8"

lemmas ap_offsets = AP_START_UP_SEGMENT_IN_CODE_OFFSET_def GDTR_OFFSET_IN_CODE_def CONT16_IN_CODE_OFFSET_def
  CONT16_VALUE_OFFSET_def CS_IN_CODE_OFFSET_def DS_IN_CODE_OFFSET_def ES_IN_CODE_OFFSET_def GS_IN_CODE_OFFSET_def
  FS_IN_CODE_OFFSET_def SS_IN_CODE_OFFSET_def AP_CONTINUE_WAKEUP_CODE_IN_CODE_OFFSET_def

text \<open>The segment registers of the boot processor, as the inline assembly stores them.\<close>

record segments =
  cs_value :: u16
  ds_value :: u16
  es_value :: u16
  gs_value :: u16
  fs_value :: u16
  ss_value :: u16

text \<open>
  \<open>hw\<close> is what \<^verbatim>\<open>sgdt\<close> stores; \<open>o_limit\<close> and \<open>o_base\<close> are the offsets of the fields of \<^verbatim>\<open>ia32_gdtr_t\<close>. The constant array is
  copied by writing its bytes.
\<close>

definition setup_low_memory_ap_code ::
    "u32 \<Rightarrow> u32 \<Rightarrow> u32 \<Rightarrow> segments \<Rightarrow> gdtr \<Rightarrow> u32 \<Rightarrow> mem \<Rightarrow> mem" where
  "setup_low_memory_ap_code o_limit o_base ap_continue_wakeup_code sg hw code_to_patch m =
     (let m = store_bytes code_to_patch ap_start_up_code m;
          m = store16 (code_to_patch + AP_START_UP_SEGMENT_IN_CODE_OFFSET) (ucast (drop_bit 4 code_to_patch)) m;
          m = store16 (code_to_patch + GDTR_OFFSET_IN_CODE) (ucast GDTR_OFFSET_IN_PAGE) m;
          m = store32 (code_to_patch + CONT16_IN_CODE_OFFSET) (code_to_patch + CONT16_VALUE_OFFSET) m;
          m = store16 (code_to_patch + CS_IN_CODE_OFFSET) (cs_value sg) m;
          m = store16 (code_to_patch + DS_IN_CODE_OFFSET) (ds_value sg) m;
          m = store16 (code_to_patch + ES_IN_CODE_OFFSET) (es_value sg) m;
          m = store16 (code_to_patch + GS_IN_CODE_OFFSET) (gs_value sg) m;
          m = store16 (code_to_patch + FS_IN_CODE_OFFSET) (fs_value sg) m;
          m = store16 (code_to_patch + SS_IN_CODE_OFFSET) (ss_value sg) m;
          m = store32 (code_to_patch + AP_CONTINUE_WAKEUP_CODE_IN_CODE_OFFSET) ap_continue_wakeup_code m;
          m = mon_memcpy (code_to_patch + GDT_OFFSET_IN_PAGE) (g_base hw) (ucast (g_limit hw) + 1) m;
          new_gdtr_32 = code_to_patch + GDTR_OFFSET_IN_PAGE;
          m = store32 (new_gdtr_32 + o_base) (code_to_patch + GDT_OFFSET_IN_PAGE) m
      in store16 (new_gdtr_32 + o_limit) (g_limit hw) m)"

section \<open>Delays\<close>

definition IA32_DEBUG_IO_PORT :: u32 where "IA32_DEBUG_IO_PORT = 0x80"
definition INITIAL_WAIT_FOR_APS_TIMEOUT_IN_MILIS :: u32 where "INITIAL_WAIT_FOR_APS_TIMEOUT_IN_MILIS = 150000"

text \<open>
  The three accessors in inline assembly: the instruction reads \<^verbatim>\<open>dx\<close>, so a port number is cut to 16 bits.
\<close>

definition rdtsc :: "'w platform \<Rightarrow> 'w \<Rightarrow> u64 \<times> 'w" where
  [simp]: "rdtsc P = p_rdtsc P"

definition read_msr :: "'w platform \<Rightarrow> u32 \<Rightarrow> 'w \<Rightarrow> u64 \<times> 'w" where
  [simp]: "read_msr P msr_index = p_rdmsr P msr_index"

definition read_port_8 :: "'w platform \<Rightarrow> u32 \<Rightarrow> 'w \<Rightarrow> u8 \<times> 'w" where
  [simp]: "read_port_8 P port = p_in8 P (ucast port)"

fun startap_stall_loop :: "'w platform \<Rightarrow> nat \<Rightarrow> 'w \<Rightarrow> 'w" where
  "startap_stall_loop P 0 w = w"
| "startap_stall_loop P (Suc n) w = startap_stall_loop P n (snd (read_port_8 P IA32_DEBUG_IO_PORT w))"

definition startap_stall :: "'w platform \<Rightarrow> u32 \<Rightarrow> 'w \<Rightarrow> 'w" where
  "startap_stall P stall_usec w = startap_stall_loop P (unat stall_usec) w"

text \<open>The low half of the time-stamp counter.\<close>

definition tsc32 :: "'w platform \<Rightarrow> 'w \<Rightarrow> u32 \<times> 'w" where
  "tsc32 P w = (let (t, w) = rdtsc P w in (ucast t, w))"

partial_function (option) calibrate_loop :: "'w platform \<Rightarrow> u32 \<Rightarrow> u32 \<Rightarrow> 'w \<Rightarrow> (u32 \<times> 'w) option" where
  "calibrate_loop P start_tsc end_tsc w =
     (if start_tsc > end_tsc
      then (let (start_tsc, w) = tsc32 P w; w = startap_stall P 1000 w; (end_tsc, w) = tsc32 P w
            in calibrate_loop P start_tsc end_tsc w)
      else Some (end_tsc - start_tsc, w))"

definition startap_calibrate_tsc_ticks_per_msec ::
    "'w platform \<Rightarrow> ap_globals \<Rightarrow> 'w \<Rightarrow> (ap_globals \<times> 'w) option" where
  "startap_calibrate_tsc_ticks_per_msec P g w =
     do { (t, w) \<leftarrow> calibrate_loop P 1 0 w; Some (g\<lparr>startap_tsc_ticks_per_msec := t\<rparr>, w) }"

text \<open>The number of ticks to wait, computed in 32 bits.\<close>

definition stall_ticks :: "u32 \<Rightarrow> u32 \<Rightarrow> u32" where
  "stall_ticks stall_usec ticks_per_msec = stall_usec * ticks_per_msec div 1000"

partial_function (option) stall_window :: "'w platform \<Rightarrow> u32 \<Rightarrow> u32 \<Rightarrow> u32 \<Rightarrow> 'w \<Rightarrow> (u32 \<times> u32 \<times> 'w) option" where
  "stall_window P ticks start_tsc end_tsc w =
     (if start_tsc > end_tsc
      then (let (t, w) = tsc32 P w; end_tsc = t + ticks; (start_tsc, w) = tsc32 P w
            in stall_window P ticks start_tsc end_tsc w)
      else Some (start_tsc, end_tsc, w))"

partial_function (option) stall_wait :: "'w platform \<Rightarrow> u32 \<Rightarrow> u32 \<Rightarrow> 'w \<Rightarrow> 'w option" where
  "stall_wait P start_tsc end_tsc w =
     (if start_tsc < end_tsc
      then (let (start_tsc, w) = tsc32 P (p_pause P w) in stall_wait P start_tsc end_tsc w)
      else Some w)"

definition startap_stall_using_tsc :: "'w platform \<Rightarrow> u32 \<Rightarrow> ap_globals \<Rightarrow> 'w \<Rightarrow> (ap_globals \<times> 'w) option" where
  "startap_stall_using_tsc P stall_usec g w =
     do {
       (g, w) \<leftarrow> (if startap_tsc_ticks_per_msec g = 0 then startap_calibrate_tsc_ticks_per_msec P g w else Some (g, w));
       (start_tsc, end_tsc, w) \<leftarrow> stall_window P (stall_ticks stall_usec (startap_tsc_ticks_per_msec g)) 1 0 w;
       w \<leftarrow> stall_wait P start_tsc end_tsc w;
       Some (g, w) }"

section \<open>Inter-processor interrupts\<close>

definition icr_idle :: "apic_env \<Rightarrow> u32 \<Rightarrow> bool" where
  "icr_idle A icr_low_status \<longleftrightarrow> get_field (icr_delivery_status A) icr_low_status = 0"

partial_function (option) ipi_wait_idle :: "apic_env \<Rightarrow> 'w platform \<Rightarrow> u32 \<Rightarrow> 'w \<Rightarrow> 'w option" where
  "ipi_wait_idle A P icr w =
     (let (st, w) = p_read P icr w in if icr_idle A st then Some w else ipi_wait_idle A P icr w)"

partial_function (option) ipi_wait_sent ::
    "apic_env \<Rightarrow> 'w platform \<Rightarrow> u32 \<Rightarrow> ap_globals \<Rightarrow> 'w \<Rightarrow> (ap_globals \<times> 'w) option" where
  "ipi_wait_sent A P icr g w =
     do {
       (g, w) \<leftarrow> startap_stall_using_tsc P 10 g w;
       (let (st, w) = p_read P icr w in if icr_idle A st then Some (g, w) else ipi_wait_sent A P icr g w) }"

text \<open>The common part of the two senders: wait for the previous message, write the command register, wait for delivery.\<close>

definition send_ipi :: "apic_env \<Rightarrow> 'w platform \<Rightarrow> u32 \<Rightarrow> u32 \<Rightarrow> ap_globals \<Rightarrow> 'w \<Rightarrow> (ap_globals \<times> 'w) option" where
  "send_ipi A P icr_low icr_high g w =
     do {
       let (apic_base, w) = read_msr P (IA32_MSR_APIC_BASE A) w;
       let apic_base = apic_base AND LOCAL_APIC_BASE_MSR_MASK A;
       let icr = ucast (apic_base + LOCAL_APIC_ICR_OFFSET A);
       w \<leftarrow> ipi_wait_idle A P icr w;
       let w = p_write P (ucast (apic_base + LOCAL_APIC_ICR_OFFSET_HIGH A)) icr_high w;
       let w = p_write P icr icr_low w;
       ipi_wait_sent A P icr g w }"

definition icr_low_word :: "apic_env \<Rightarrow> u32 \<Rightarrow> u32 \<Rightarrow> u32 \<Rightarrow> u32" where
  "icr_low_word A vector_number delivery_mode shorthand =
     assign [(icr_vector A, vector_number), (icr_delivery_mode A, delivery_mode), (icr_level A, 1), (icr_trigger_mode A, 0),
       (icr_destination_shorthand A, shorthand)] 0"

definition send_ipi_to_all_excluding_self ::
    "apic_env \<Rightarrow> 'w platform \<Rightarrow> u32 \<Rightarrow> u32 \<Rightarrow> ap_globals \<Rightarrow> 'w \<Rightarrow> (ap_globals \<times> 'w) option" where
  "send_ipi_to_all_excluding_self A P vector_number delivery_mode g w =
     send_ipi A P (icr_low_word A vector_number delivery_mode (BROADCAST_ALL_EXCLUDING_SELF A)) 0 g w"

definition send_ipi_to_specific_cpu ::
    "apic_env \<Rightarrow> 'w platform \<Rightarrow> u32 \<Rightarrow> u32 \<Rightarrow> u8 \<Rightarrow> ap_globals \<Rightarrow> 'w \<Rightarrow> (ap_globals \<times> 'w) option" where
  "send_ipi_to_specific_cpu A P vector_number delivery_mode dst g w =
     send_ipi A P (icr_low_word A vector_number delivery_mode (BROADCAST_SPECIFY_CPU A))
       (assign [(icr_destination A, ucast dst)] 0) g w"

definition send_init_ipi :: "apic_env \<Rightarrow> 'w platform \<Rightarrow> ap_globals \<Rightarrow> 'w \<Rightarrow> (ap_globals \<times> 'w) option" where
  "send_init_ipi A P g w = send_ipi_to_all_excluding_self A P 0 (DELIVERY_MODE_INIT A) g w"

definition send_sipi_ipi :: "apic_env \<Rightarrow> 'w platform \<Rightarrow> u32 \<Rightarrow> ap_globals \<Rightarrow> 'w \<Rightarrow> (ap_globals \<times> 'w) option" where
  "send_sipi_ipi A P code_start g w =
     send_ipi_to_all_excluding_self A P (drop_bit 12 code_start) (DELIVERY_MODE_SIPI A) g w"

text \<open>The fields of \<^verbatim>\<open>init32_struct_t\<close> (\<^verbatim>\<open>startap/x32_init64.h\<close>).\<close>

definition i32_low_memory_page :: "mem \<Rightarrow> u32 \<Rightarrow> u32" where "i32_low_memory_page m p = load32 m p"
definition i32_num_of_aps :: "mem \<Rightarrow> u32 \<Rightarrow> u16" where "i32_num_of_aps m p = load16 m (p + 4)"
definition i32_esp :: "mem \<Rightarrow> u32 \<Rightarrow> nat \<Rightarrow> u32" where "i32_esp m p i = load32 m (p + 8 + of_nat (4 * i))"

definition send_broadcast_init_sipi ::
    "apic_env \<Rightarrow> 'w platform \<Rightarrow> mem \<Rightarrow> u32 \<Rightarrow> ap_globals \<Rightarrow> 'w \<Rightarrow> (ap_globals \<times> 'w) option" where
  "send_broadcast_init_sipi A P m p_init32_data g w =
     do {
       (g, w) \<leftarrow> send_init_ipi A P g w;
       (g, w) \<leftarrow> startap_stall_using_tsc P 10000 g w;
       (g, w) \<leftarrow> send_sipi_ipi A P (i32_low_memory_page m p_init32_data) g w;
       (g, w) \<leftarrow> startap_stall_using_tsc P 200000 g w;
       (g, w) \<leftarrow> send_sipi_ipi A P (i32_low_memory_page m p_init32_data) g w;
       startap_stall_using_tsc P 200000 g w }"

text \<open>
  The loops over the active processors. The bound \<^verbatim>\<open>number_of_processors_at_boot_time - 1\<close> is read from the startup structure, which
  the loop does not write (an unsigned field narrower than \<^verbatim>\<open>int\<close>: a count of zero gives no round); \<^verbatim>\<open>cpu_local_apic_ids[i + 1]\<close> is
  the target of round \<open>i\<close>.
\<close>

fun send_each :: "(u8 \<Rightarrow> ap_globals \<Rightarrow> 'w \<Rightarrow> (ap_globals \<times> 'w) option) \<Rightarrow> u8 list \<Rightarrow> ap_globals \<Rightarrow> 'w \<Rightarrow> (ap_globals \<times> 'w) option" where
  "send_each snd1 [] g w = Some (g, w)"
| "send_each snd1 (dst # ds) g w = do { (g, w) \<leftarrow> snd1 dst g w; send_each snd1 ds g w }"

definition ap_targets :: "apic_env \<Rightarrow> mem \<Rightarrow> u32 \<Rightarrow> u8 list" where
  "ap_targets A m p_startup = 
     map (\<lambda>i. st_cpu_local_apic_id A m p_startup (i + 1)) [0..<st_number_of_processors A m p_startup - 1]"

definition send_targeted_init_sipi ::
    "apic_env \<Rightarrow> 'w platform \<Rightarrow> mem \<Rightarrow> u32 \<Rightarrow> u32 \<Rightarrow> ap_globals \<Rightarrow> 'w \<Rightarrow> (ap_globals \<times> 'w) option" where
  "send_targeted_init_sipi A P m p_init32_data p_startup g w =
     (let ds = ap_targets A m p_startup; vector = drop_bit 12 (i32_low_memory_page m p_init32_data) in
      do {
        (g, w) \<leftarrow> send_each (send_ipi_to_specific_cpu A P 0 (DELIVERY_MODE_INIT A)) ds g w;
        (g, w) \<leftarrow> startap_stall_using_tsc P 10000 g w;
        (g, w) \<leftarrow> send_each (send_ipi_to_specific_cpu A P vector (DELIVERY_MODE_SIPI A)) ds g w;
        (g, w) \<leftarrow> startap_stall_using_tsc P 200000 g w;
        (g, w) \<leftarrow> send_each (send_ipi_to_specific_cpu A P vector (DELIVERY_MODE_SIPI A)) ds g w;
        startap_stall_using_tsc P 200000 g w })"

section \<open>Enumerating and running the processors\<close>

text \<open>One cell of the presence array, with the running 8-bit number.\<close>

definition enumerate_cell :: "u8 \<Rightarrow> u8 \<Rightarrow> u8 \<times> u8" where
  "enumerate_cell ap_num cell = (if cell \<noteq> 0 then (ap_num + 1, ap_num + 1) else (ap_num, cell))"

fun enumerate_loop :: "u8 \<Rightarrow> u8 list \<Rightarrow> u8 \<times> u8 list" where
  "enumerate_loop ap_num [] = (ap_num, [])"
| "enumerate_loop ap_num (c # cs) =
     (let (n, c') = enumerate_cell ap_num c; (k, cs') = enumerate_loop n cs in (k, c' # cs'))"

definition bsp_enumerate_aps :: "u8 list \<Rightarrow> u8 \<times> u8 list" where
  "bsp_enumerate_aps arr = (case arr of [] \<Rightarrow> (0, []) | c0 # cs \<Rightarrow> (let (k, cs') = enumerate_loop 0 cs in (k, c0 # cs')))"

definition ap_intialize_environment :: "'w platform \<Rightarrow> ap_globals \<Rightarrow> 'w \<Rightarrow> ap_globals \<times> 'w" where
  "ap_intialize_environment P g w =
     (g\<lparr>mp_bootstrap_state := MP_BOOTSTRAP_STATE_INIT, g_user_func := 0, g_any_data_for_user_func := 0\<rparr>, p_put_ready P 0 w)"

definition mp_set_bootstrap_state :: "mp_bootstrap_state \<Rightarrow> ap_globals \<Rightarrow> ap_globals" where
  "mp_set_bootstrap_state new_state g = g\<lparr>mp_bootstrap_state := new_state\<rparr>"

text \<open>The environment of the boot processor that the start-up reads: its segments, GDTR and IDTR.\<close>

record bsp_env =
  b_segments :: segments
  b_gdtr :: gdtr
  b_idtr :: gdtr
  b_o_limit :: u32
  b_o_base :: u32
  b_ap_continue_wakeup_code :: u32

definition ap_procs_startup ::
    "apic_env \<Rightarrow> 'w platform \<Rightarrow> bsp_env \<Rightarrow> u32 \<Rightarrow> u32 \<Rightarrow> ap_globals \<Rightarrow> mem \<Rightarrow> 'w \<Rightarrow> (u32 \<times> ap_globals \<times> mem \<times> 'w) option" where
  "ap_procs_startup A P B p_init32_data p_startup g m w =
     (if p_init32_data = 0 \<or> i32_low_memory_page m p_init32_data = 0 then Some (- 1, g, m, w)
      else do {
        let (g, w) = ap_intialize_environment P g w;
        let g = g\<lparr>gp_init32_data := p_init32_data, gp_GDT := b_gdtr B, gp_IDT := b_idtr B\<rparr>;
        let m = setup_low_memory_ap_code (b_o_limit B) (b_o_base B) (b_ap_continue_wakeup_code B) (b_segments B) (b_gdtr B)
                  (i32_low_memory_page m p_init32_data) m;
        (g, w) \<leftarrow> (if \<not> st_post_os_launch A m p_startup
                   then send_broadcast_init_sipi A P m p_init32_data g w
                   else send_targeted_init_sipi A P m p_init32_data p_startup g w);
        (g, w) \<leftarrow> startap_stall_using_tsc P INITIAL_WAIT_FOR_APS_TIMEOUT_IN_MILIS g w;
        let (k, arr) = bsp_enumerate_aps (p_presence P w);
        let g = g\<lparr>g_aps_counter := ucast k\<rparr>;
        Some (g_aps_counter g, g, m, p_put_presence P arr w) })"

partial_function (option) ready_wait :: "'w platform \<Rightarrow> u32 \<Rightarrow> 'w \<Rightarrow> 'w option" where
  "ready_wait P aps w = (if p_ready P w \<noteq> aps then ready_wait P aps (p_pause P w) else Some w)"

definition ap_procs_run :: "'w platform \<Rightarrow> u32 \<Rightarrow> u32 \<Rightarrow> ap_globals \<Rightarrow> 'w \<Rightarrow> (ap_globals \<times> 'w) option" where
  "ap_procs_run P continue_ap_boot_func any_data g w =
     (let g = g\<lparr>g_user_func := continue_ap_boot_func, g_any_data_for_user_func := any_data\<rparr>;
          g = mp_set_bootstrap_state MP_BOOTSTRAP_STATE_APS_ENUMERATED g
      in do { w \<leftarrow> ready_wait P (g_aps_counter g) w; Some (g, w) })"

text \<open>The end of an AP's start-up: count itself, then call the user's function with its number and data.\<close>

definition ap_continue_wakeup_code_C ::
    "'w platform \<Rightarrow> (u32 \<Rightarrow> u32 \<Rightarrow> u32 \<Rightarrow> 'w \<Rightarrow> 'r) \<Rightarrow> u32 \<Rightarrow> ap_globals \<Rightarrow> 'w \<Rightarrow> 'r" where
  "ap_continue_wakeup_code_C P call local_apic_id g w =
     call (g_user_func g) local_apic_id (g_any_data_for_user_func g) (p_put_ready P (p_ready P w + 1) w)"

section \<open>Reading a stretch of memory\<close>

definition peek :: "mem \<Rightarrow> u32 \<Rightarrow> nat \<Rightarrow> u8 list" where
  "peek m a n = map (\<lambda>i. m (a + of_nat i)) [0..<n]"

lemma peek_store:
  assumes "d + length bs \<le> n" "n < 2 ^ 32"
  shows "peek (store_bytes (a + of_nat d) bs m) a n = take d (peek m a n) @ bs @ drop (d + length bs) (peek m a n)"
proof (rule nth_equalityI)
  fix i
  assume "i < length (peek (store_bytes (a + of_nat d) bs m) a n)"
  then have i: "i < n" by (simp add: peek_def)
  have len: "length bs \<le> 2 ^ 32" using assms by simp
  have r: "in_range (a + of_nat d) (length bs) (a + of_nat i) \<longleftrightarrow> d \<le> i \<and> i < d + length bs"
  proof -
    have "unat (a + of_nat i - (a + of_nat d)) = unat (of_nat i - of_nat d :: u32)" by simp
    also have "\<dots> = (if d \<le> i then i - d else i + 2 ^ 32 - d)"
      using i assms by (simp add: unat_sub_if' unat_of_nat32)
    finally show ?thesis using i assms by (auto simp: in_range_def)
  qed
  have u: "unat (a + of_nat i - (a + of_nat d)) = i - d" if "d \<le> i"
    using that i assms by (simp add: unat_sub_if' unat_of_nat32)
  show "peek (store_bytes (a + of_nat d) bs m) a n ! i
      = (take d (peek m a n) @ bs @ drop (d + length bs) (peek m a n)) ! i"
    using i assms len r u
    by (auto simp: peek_def store_bytes_apply nth_append simp del: store_bytes.simps)
qed (use assms in \<open>simp add: peek_def\<close>)

lemma peek_start: "length bs < 2 ^ 32 \<Longrightarrow> peek (store_bytes a bs m) a (length bs) = bs"
  using peek_store [of 0 bs "length bs" a m] by (simp add: peek_def)

lemma peek_cong: "(\<And>x. in_range a n x \<Longrightarrow> m x = m' x) \<Longrightarrow> n < 2 ^ 32 \<Longrightarrow> peek m a n = peek m' a n"
  by (simp add: peek_def unat_of_nat32)

lemma peek_stores:
  assumes "n < 2 ^ 32"
  shows "unat k + 2 \<le> n \<Longrightarrow> peek (store16 (a + k) v m) a n
      = take (unat k) (peek m a n) @ le_bytes 2 v @ drop (unat k + 2) (peek m a n)"
    and "unat k + 4 \<le> n \<Longrightarrow> peek (store32 (a + k) v' m) a n
      = take (unat k) (peek m a n) @ le_bytes 4 v' @ drop (unat k + 4) (peek m a n)"
  using assms peek_store [of "unat k" "le_bytes 2 v" n a m] peek_store [of "unat k" "le_bytes 4 v'" n a m]
  by (simp_all add: store_eq_bytes)

section \<open>The patched code\<close>

text \<open>The code an AP executes, written out instruction by instruction.\<close>

definition ap_code :: "u32 \<Rightarrow> segments \<Rightarrow> u32 \<Rightarrow> u8 list" where
  "ap_code page sg continue =
     [0xB8] @ le_bytes 2 (ucast (drop_bit 4 page) :: u16) @ [0x8E, 0xD8]         \<comment> \<open>mov ax, page >> 4; mov ds, ax\<close>
     @ [0x8D, 0x36] @ le_bytes 2 (72 :: u16) @ [0x0F, 0x01, 0x14]                \<comment> \<open>lea si, [72]; lgdt [si]\<close>
     @ [0x0F, 0x20, 0xC0, 0x0C, 0x01, 0x0F, 0x22, 0xC0]                          \<comment> \<open>cr0 |= 1\<close>
     @ [0x66, 0xEA] @ le_bytes 4 (page + 28) @ le_bytes 2 (cs_value sg)          \<comment> \<open>jmp cs:page + 28\<close>
     @ [0xFA, 0x66, 0xB8] @ le_bytes 2 (ds_value sg) @ [0x66, 0x8E, 0xD8]
     @ [0x66, 0xB8] @ le_bytes 2 (es_value sg) @ [0x66, 0x8E, 0xC0]
     @ [0x66, 0xB8] @ le_bytes 2 (gs_value sg) @ [0x66, 0x8E, 0xE8]
     @ [0x66, 0xB8] @ le_bytes 2 (fs_value sg) @ [0x66, 0x8E, 0xE0]
     @ [0x66, 0xB8] @ le_bytes 2 (ss_value sg) @ [0x66, 0x8E, 0xD0]
     @ [0xB8] @ le_bytes 4 continue @ [0xFF, 0xE0]"

lemma ap_code_length: "length ap_start_up_code = 71"
  by (simp add: ap_start_up_code_def)

lemma ap_page_offsets: "GDTR_OFFSET_IN_PAGE = 72" "GDT_OFFSET_IN_PAGE = 80"
  by (simp_all add: GDTR_OFFSET_IN_PAGE_def GDT_OFFSET_IN_PAGE_def ap_code_length)

lemma patched_code:
  fixes page cont :: u32 and m :: mem and sg :: segments
  defines "m0 \<equiv> store_bytes page ap_start_up_code m"
  defines "m1 \<equiv> store32 (page + 65) cont (store16 (page + 59) (ss_value sg) (store16 (page + 52) (fs_value sg)
     (store16 (page + 45) (gs_value sg) (store16 (page + 38) (es_value sg) (store16 (page + 31) (ds_value sg)
     (store16 (page + 26) (cs_value sg) (store32 (page + 22) (page + 28) (store16 (page + 7) 72
     (store16 (page + 1) (ucast (drop_bit 4 page)) m0)))))))))"
  shows "peek m1 page 71 = ap_code page sg cont"
proof -
  have p0: "peek m0 page 71 = ap_start_up_code"
    using peek_start [of ap_start_up_code page m] by (simp add: m0_def ap_code_length)
  show ?thesis
    unfolding m1_def by (simp add: peek_stores p0 ap_start_up_code_def ap_code_def le_bytes_unroll)
qed

lemma peek_length [simp]: "length (peek m a n) = n"
  by (simp add: peek_def)

lemma real_mode_segment:
  assumes "16 dvd unat (page :: u32)" "unat page < 2 ^ 20"
  shows "16 * unat (ucast (drop_bit 4 page) :: u16) = unat page"
proof -
  have "unat (drop_bit 4 page) = unat page div 16" by (simp add: drop_bit_eq_div unat_div)
  moreover have "unat page div 16 < 2 ^ 16" using assms(2) by auto
  ultimately have "unat (ucast (drop_bit 4 page) :: u16) = unat page div 16"
    by (simp add: unsigned_ucast_eq take_bit_nat_eq_self)
  then show ?thesis using assms(1) by simp
qed

text \<open>
  C19. The low-memory page after \<^verbatim>\<open>setup_low_memory_ap_code\<close>, for a page below 1 MB and a GDT that fits behind the code and lies
  elsewhere: its first 71 bytes are the intended instructions with every operand patched in (in real mode \<open>ds:72\<close> is the
  descriptor at offset 72, since \<open>ds\<close> is the page's segment), the descriptor there holds the limit and the address of the copied
  GDT, and the copy equals the boot processor's GDT.
\<close>

theorem low_memory_ap_code:
  assumes "16 dvd unat page" "unat page < 2 ^ 20" and n: "n = unat (g_limit hw) + 1"
    and sep: "sep page (80 + n) (g_base hw) n" and m': "m' = setup_low_memory_ap_code 0 2 cont sg hw page m"
  shows "peek m' page 71 = ap_code page sg cont
    \<and> 16 * unat (ucast (drop_bit 4 page) :: u16) + 72 = unat (page + 72)
    \<and> load16 m' (page + 72) = g_limit hw \<and> load32 m' (page + 74) = page + 80
    \<and> peek m' (page + 80) n = peek m (g_base hw) n"
proof -
  define m0 where "m0 = store_bytes page ap_start_up_code m"
  define m1 where "m1 = store32 (page + 65) cont (store16 (page + 59) (ss_value sg) (store16 (page + 52) (fs_value sg)
     (store16 (page + 45) (gs_value sg) (store16 (page + 38) (es_value sg) (store16 (page + 31) (ds_value sg)
     (store16 (page + 26) (cs_value sg) (store32 (page + 22) (page + 28) (store16 (page + 7) 72
     (store16 (page + 1) (ucast (drop_bit 4 page)) m0)))))))))"
  define m2 where "m2 = mon_memcpy (page + 80) (g_base hw) (ucast (g_limit hw) + 1) m1"
  have e: "m' = store16 (page + 72) (g_limit hw) (store32 (page + 74) (page + 80) m2)"
    unfolding m' setup_low_memory_ap_code_def Let_def ap_offsets ap_page_offsets
    by (simp add: m2_def m1_def m0_def add.commute [of 74 page])
  have un: "unat (ucast (g_limit hw) + 1 :: u32) = n"
    using unat_bound(2) [of "g_limit hw"] by (simp add: n unat_word_ariths(1) unsigned_ucast_eq take_bit_nat_eq_self)
  have nb: "n \<le> 65536" "0 < n" using n unat_bound(2) [of "g_limit hw"] by simp_all
  have code: "peek m1 page 71 = ap_code page sg cont"
    unfolding m1_def m0_def by (rule patched_code)
  have out: "m1 x = m x" if "\<not> in_range page 71 x" for x
  proof -
    have "\<not> in_range (page + k) l x" if "unat k + l \<le> 71" for k l
      using \<open>\<not> in_range page 71 x\<close> that inside_in_range [of "page + k" l page 71] by (auto simp: inside_def)
    then show ?thesis
      using that by (simp add: m1_def m0_def store_other store_bytes_apply ap_code_length del: store_bytes.simps)
  qed
  have sep2: "sep (page + 80) n (g_base hw) n"
    by (rule sep_inside [OF sep]) (simp_all add: inside_def)
  have rng: "in_range (page + 80) n x \<Longrightarrow> \<not> in_range page 80 x" for x
    using in_range_split(2) [of 80 n page x] nb by simp
  have m2: "m2 x = (if in_range (page + 80) n x then m1 (g_base hw + (x - (page + 80))) else m1 x)" for x
    unfolding m2_def by (subst mon_memcpy_apply) (simp_all add: un sep2)
  have m'x: "m' x = m2 x" if "\<not> in_range (page + 72) 6 x" for x
  proof -
    have "\<not> in_range (page + 72) 2 x" "\<not> in_range (page + 74) 4 x"
      using that inside_in_range [of "page + 72" 2 "page + 72" 6 x] inside_in_range [of "page + 74" 4 "page + 72" 6 x]
      by (auto simp: inside_def)
    then show ?thesis by (simp add: e store_other)
  qed
  have "peek m' page 71 = peek m1 page 71"
  proof (rule peek_cong)
    fix x
    assume x: "in_range page 71 x"
    have "\<not> in_range (page + 72) 6 x" using in_range_split(2) [of 72 6 page x] in_range_mono [OF x] by auto
    moreover have "\<not> in_range (page + 80) n x" using rng [of x] in_range_mono [OF x] by auto
    ultimately show "m' x = m1 x" by (simp add: m'x m2)
  qed simp
  moreover have "peek m' (page + 80) n = peek m (g_base hw) n"
  proof (rule nth_equalityI)
    fix i
    assume "i < length (peek m' (page + 80) n)"
    then have i: "i < n" by simp
    have ui: "unat (of_nat i :: u32) = i" using i nb by (intro unat_of_nat32) simp
    let ?x = "page + 80 + of_nat i"
    have x: "in_range (page + 80) n ?x" using i by (simp only: in_range_add ui)
    have "\<not> in_range (page + 72) 6 ?x"
      using rng [OF x] inside_in_range [of "page + 72" 6 page 80 ?x] by (auto simp: inside_def)
    then have "m' ?x = m1 (g_base hw + of_nat i)" using x by (simp add: m'x m2)
    also have "\<dots> = m (g_base hw + of_nat i)"
    proof (rule out)
      have "\<not> in_range page (80 + n) (g_base hw + of_nat i)"
        by (rule sep_in_range [OF sep]) (use i ui in simp)
      then show "\<not> in_range page 71 (g_base hw + of_nat i)" using in_range_mono by fastforce
    qed
    finally show "peek m' (page + 80) n ! i = peek m (g_base hw) n ! i" using i by (simp add: peek_def)
  qed simp
  moreover have "load16 m' (page + 72) = g_limit hw" by (simp add: e)
  moreover have "load32 m' (page + 74) = page + 80"
  proof -
    have "load32 m' (page + 74) = load32 (store32 (page + 74) (page + 80) m2) (page + 74)"
      unfolding e
    proof (rule load_cong(2), rule store_other(2))
      fix x
      assume "in_range (page + 74) 4 x"
      moreover have "page + 74 = page + 72 + 2" by simp
      ultimately show "\<not> in_range (page + 72) 2 x" using in_range_split(2) [of 2 4 "page + 72" x] by simp
    qed
    then show ?thesis by simp
  qed
  moreover have "unat (page + 72) = unat page + 72" using assms(2) by (simp add: unat_word_ariths(1))
  ultimately show ?thesis using code real_mode_segment [OF assms(1,2)] by simp
qed

definition small_gdt :: mem where
  "small_gdt = (\<lambda>_. 0)(0x30008 := 0xFF, 0x3000D := 0x9B)"

theorem low_memory_ap_code_witness:
  "\<exists>m'. m' = setup_low_memory_ap_code 0 2 0x12345678 \<lparr>cs_value = 0x10, ds_value = 0x18, es_value = 0x18, gs_value = 0x18,
        fs_value = 0x18, ss_value = 0x18\<rparr> \<lparr>g_limit = 15, g_base = 0x30000\<rparr> 0x8000 small_gdt
    \<and> load16 m' 0x8048 = 15 \<and> load32 m' 0x804A = 0x8050 \<and> peek m' 0x8050 16 = peek small_gdt 0x30000 16
    \<and> peek m' 0x8000 71 ! 65 = 0x78"
proof -
  let ?sg = "\<lparr>cs_value = 0x10, ds_value = 0x18, es_value = 0x18, gs_value = 0x18, fs_value = 0x18, ss_value = 0x18\<rparr> :: segments"
  let ?hw = "\<lparr>g_limit = 15, g_base = 0x30000\<rparr> :: gdtr"
  obtain m' where m': "m' = setup_low_memory_ap_code 0 2 0x12345678 ?sg ?hw 0x8000 small_gdt" by simp
  have "peek m' 0x8000 71 = ap_code 0x8000 ?sg 0x12345678
    \<and> 16 * unat (ucast (drop_bit 4 (0x8000 :: u32)) :: u16) + 72 = unat (0x8000 + 72 :: u32)
    \<and> load16 m' (0x8000 + 72) = g_limit ?hw \<and> load32 m' (0x8000 + 74) = 0x8000 + 80
    \<and> peek m' (0x8000 + 80) 16 = peek small_gdt (g_base ?hw) 16"
    by (rule low_memory_ap_code [OF _ _ _ _ m']) (simp_all add: sep_def)
  moreover have "ap_code 0x8000 ?sg 0x12345678 ! 65 = 0x78" by (simp add: ap_code_def le_bytes_unroll)
  ultimately show ?thesis using m' by auto
qed

section \<open>Enumeration\<close>

text \<open>The number of marked cells.\<close>

definition marked :: "u8 list \<Rightarrow> nat" where
  "marked cs = length (filter (\<lambda>c. c \<noteq> 0) cs)"

lemma marked_simps [simp]: "marked [] = 0" "marked (c # cs) = (if c = 0 then marked cs else Suc (marked cs))"
  by (simp_all add: marked_def)

lemma enumerate_loop_result:
  assumes "n + marked cs < 256" and "enumerate_loop (of_nat n) cs = (k, cs')"
  shows "k = of_nat (n + marked cs) \<and> length cs' = length cs
    \<and> filter (\<lambda>c. c \<noteq> 0) cs' = map of_nat [Suc n..<Suc (n + marked cs)]
    \<and> map (\<lambda>c. c = 0) cs' = map (\<lambda>c. c = 0) cs"
  using assms
proof (induction cs arbitrary: n k cs')
  case Nil
  then show ?case by simp
next
  case (Cons c cs)
  show ?case
  proof (cases "c = 0")
    case True
    with Cons.prems obtain cs1 where "enumerate_loop (of_nat n) cs = (k, cs1)" "cs' = 0 # cs1"
      by (auto simp: enumerate_cell_def split: prod.splits)
    with Cons.IH [of n k cs1] Cons.prems True show ?thesis by simp
  next
    case False
    with Cons.prems obtain cs1 where r: "enumerate_loop (of_nat (Suc n)) cs = (k, cs1)" "cs' = of_nat (Suc n) # cs1"
      by (auto simp: enumerate_cell_def add.commute split: prod.splits)
    have "Suc n < 256" using Cons.prems False by simp
    then have "unat (of_nat (Suc n) :: u8) = Suc n" by (simp add: unsigned_of_nat take_bit_nat_eq_self del: of_nat_Suc)
    then have nz: "(of_nat (Suc n) :: u8) \<noteq> 0" by (metis Suc_not_Zero unsigned_0)
    have "[Suc n..<Suc (n + Suc (marked cs))] = Suc n # [Suc (Suc n)..<Suc (Suc n + marked cs)]"
      by (subst upt_conv_Cons) simp_all
    then show ?thesis using Cons.IH [OF _ r(1)] Cons.prems False r(2) nz by (simp del: of_nat_Suc upt_Suc)
  qed
qed

text \<open>
  \<^verbatim>\<open>bsp_enumerate_aps\<close> on an array of at most 256 cells: it returns the number of marked cells behind the first, and
  numbers exactly those cells 1, 2, 3 and so on in their order; unmarked cells and the first cell stay as they are.
\<close>

theorem bsp_enumerate_aps_numbers:
  assumes "length cs \<le> 255" and "bsp_enumerate_aps (c0 # cs) = (k, arr)"
  shows "unat k = marked cs \<and> hd arr = c0 \<and> length arr = Suc (length cs)
    \<and> filter (\<lambda>c. c \<noteq> 0) (tl arr) = map of_nat [1..<Suc (marked cs)]
    \<and> map (\<lambda>c. c = 0) (tl arr) = map (\<lambda>c. c = 0) cs"
proof -
  obtain cs' where r: "enumerate_loop (of_nat 0) cs = (k, cs')" and arr: "arr = c0 # cs'"
    using assms(2) by (auto simp: bsp_enumerate_aps_def split: prod.splits)
  have "marked cs \<le> 255" unfolding marked_def by (rule le_trans [OF length_filter_le assms(1)])
  then show ?thesis
    using enumerate_loop_result [OF _ r] arr by (simp add: unsigned_of_nat take_bit_nat_eq_self del: upt_Suc)
qed

theorem bsp_enumerate_aps_numbers_witness:
  "\<exists>k arr. bsp_enumerate_aps [7, 1, 0, 1, 1] = (k, arr) \<and> unat k = 3 \<and> filter (\<lambda>c. c \<noteq> 0) (tl arr) = [1, 2, 3]"
proof -
  obtain k arr where r: "bsp_enumerate_aps (7 # [1, 0, 1, 1]) = (k, arr)" by fastforce
  show ?thesis using r bsp_enumerate_aps_numbers [OF _ r] by (simp add: upt_rec)
qed

section \<open>Length of the delays\<close>

text \<open>
  C33. The delay in ticks is computed in 32 bits: it is the intended number exactly when the product of microseconds and ticks
  per millisecond stays below \<open>2 ^ 32\<close>, and it never exceeds 4294967 ticks, so on a processor with more than 429496 ticks
  per millisecond (0.43 GHz) every delay of 10 milliseconds or more is cut short.
\<close>

theorem stall_ticks_bound:
  "unat (stall_ticks usec tpm) \<le> 4294967
   \<and> (unat usec * unat tpm < 2 ^ 32 \<longrightarrow> unat (stall_ticks usec tpm) = unat usec * unat tpm div 1000)
   \<and> (10000 \<le> unat usec \<and> 429496 < unat tpm \<longrightarrow> unat (stall_ticks usec tpm) < unat usec * unat tpm div 1000)"
proof -
  have e: "unat (stall_ticks usec tpm) = unat usec * unat tpm mod 2 ^ 32 div 1000"
    by (simp add: stall_ticks_def unat_div unat_word_ariths(2))
  have b: "unat usec * unat tpm mod 2 ^ 32 div 1000 \<le> 4294967"
    using mod_less_divisor [of "2 ^ 32" "unat usec * unat tpm"] by (simp add: less_eq_div_iff_mult_less_eq)
  moreover have "4294967 < unat usec * unat tpm div 1000" if "10000 \<le> unat usec" "429496 < unat tpm"
  proof -
    have "10000 * 429497 \<le> unat usec * unat tpm" using that by (intro mult_le_mono) auto
    then show ?thesis by simp
  qed
  ultimately show ?thesis using e by auto
qed

theorem stall_ticks_bound_witness:
  "unat (stall_ticks 200000 2000000) \<le> 4294967
   \<and> unat (stall_ticks 200000 2000000) < unat (200000 :: u32) * unat (2000000 :: u32) div 1000"
  using stall_ticks_bound [of 200000 2000000] by simp

end
