(* ===== verification/Ap_Ipi.thy ===== *)
theory Ap_Ipi
  imports Ap_Startup
begin

text \<open>
  The wake-up sequence of \<^verbatim>\<open>startap/ap_procs_init.c\<close> on a well-behaved platform, from the state in which the image starts: the first delay calibrates the clock, the
  delays end, and the local APIC receives exactly the INIT and start-up messages, in order and with the delays between them.
\<close>

section \<open>A well-behaved platform\<close>

text \<open>
  \<open>now w\<close> is the value of the last read of the time-stamp counter and \<open>log w\<close> the list of writes to the local APIC, each with the time at which it was
  made. The counter moves forward from read to read, by at most \<open>D\<close> ticks; a read of the delay port takes between \<open>lo\<close> and \<open>hi\<close> ticks; the
  local APIC accepts every message at once; the base address in the model-specific register is \<open>base\<close>.
\<close>

definition steady ::
    "apic_env \<Rightarrow> 'w platform \<Rightarrow> nat \<Rightarrow> nat \<Rightarrow> nat \<Rightarrow> u64 \<Rightarrow> ('w \<Rightarrow> nat) \<Rightarrow> ('w \<Rightarrow> (nat \<times> u32 \<times> u32) list) \<Rightarrow> bool" where
  "steady A P D lo hi base now log \<longleftrightarrow>
     (\<forall>w. fst (p_rdtsc P w) = of_nat (now (snd (p_rdtsc P w))) \<and> now w < now (snd (p_rdtsc P w))
        \<and> now (snd (p_rdtsc P w)) \<le> now w + D \<and> log (snd (p_rdtsc P w)) = log w)
     \<and> (\<forall>i w. now w + lo \<le> now (snd (p_in8 P i w)) \<and> now (snd (p_in8 P i w)) \<le> now w + hi \<and> log (snd (p_in8 P i w)) = log w)
     \<and> (\<forall>w. now (p_pause P w) = now w \<and> log (p_pause P w) = log w)
     \<and> (\<forall>i w. fst (p_rdmsr P i w) = base \<and> now (snd (p_rdmsr P i w)) = now w \<and> log (snd (p_rdmsr P i w)) = log w)
     \<and> (\<forall>a w. icr_idle A (fst (p_read P a w)) \<and> now (snd (p_read P a w)) = now w \<and> log (snd (p_read P a w)) = log w)
     \<and> (\<forall>a v w. now (p_write P a v w) = now w \<and> log (p_write P a v w) = log w @ [(now w, a, v)])"

lemma tsc32_steady:
  assumes "steady A P D lo hi base now log"
  obtains w' where "tsc32 P w = (of_nat (now w'), w')" "now w < now w'" "now w' \<le> now w + D" "log w' = log w"
proof (rule that [of "snd (p_rdtsc P w)"])
  let ?w = "snd (p_rdtsc P w)"
  have s: "fst (p_rdtsc P w) = of_nat (now ?w)" "now w < now ?w" "now ?w \<le> now w + D" "log ?w = log w"
    using assms unfolding steady_def by blast+
  show "tsc32 P w = (of_nat (now ?w), ?w)"
    by (simp add: tsc32_def case_prod_beta s(1) ucast_of_nat64)
qed (use assms in \<open>simp_all add: steady_def\<close>)

lemma stall_loop_steady:
  assumes st: "steady A P D lo hi base now log"
  shows "now w + n * lo \<le> now (startap_stall_loop P n w) \<and> now (startap_stall_loop P n w) \<le> now w + n * hi
    \<and> log (startap_stall_loop P n w) = log w"
proof (induction n arbitrary: w)
  case (Suc n)
  let ?w = "snd (read_port_8 P IA32_DEBUG_IO_PORT w)"
  have "now w + lo \<le> now ?w" "now ?w \<le> now w + hi" "log ?w = log w" using st by (simp_all add: steady_def)
  with Suc [of ?w] show ?case by simp
qed simp

text \<open>Within a stretch of time in which the low half of the counter does not wrap around, it orders the times.\<close>

lemma low_half:
  assumes "B mod 2 ^ 32 + S < 2 ^ 32" "B \<le> x" "x \<le> B + S"
  shows "unat (of_nat x :: u32) = B mod 2 ^ 32 + (x - B)"
proof -
  have "x mod 2 ^ 32 = (B mod 2 ^ 32 + (x - B)) mod 2 ^ 32" using assms(2) by (metis le_add_diff_inverse mod_add_left_eq)
  then show ?thesis using assms by (simp add: unsigned_of_nat take_bit_eq_mod)
qed

lemma low_half_less:
  assumes "B mod 2 ^ 32 + S < 2 ^ 32" "B \<le> x" "x \<le> B + S" "B \<le> y" "y \<le> B + S"
  shows "(of_nat x :: u32) < of_nat y \<longleftrightarrow> x < y"
  using low_half [OF assms(1-3)] low_half [OF assms(1,4,5)] assms by (auto simp: word_less_nat_alt)

section \<open>Delays end\<close>

lemma stall_wait_ends:
  assumes st: "steady A P D lo hi base now log" and B: "B mod 2 ^ 32 + S < 2 ^ 32" "e + D \<le> B + S" "B \<le> e"
  shows "B \<le> now w \<Longrightarrow> now w \<le> e + D \<Longrightarrow>
    \<exists>w'. stall_wait P (of_nat (now w)) (of_nat e) w = Some w' \<and> e \<le> now w' \<and> now w' \<le> e + D \<and> log w' = log w"
proof (induction "e - now w" arbitrary: w rule: less_induct)
  case less
  have lt: "(of_nat (now w) :: u32) < of_nat e \<longleftrightarrow> now w < e"
    by (rule low_half_less [OF B(1)]) (use less.prems B in auto)
  show ?case
  proof (cases "now w < e")
    case False
    then show ?thesis using lt less.prems by (subst stall_wait.simps) simp
  next
    case True
    obtain w1 where w1: "tsc32 P (p_pause P w) = (of_nat (now w1), w1)" "now w < now w1" "now w1 \<le> now w + D" "log w1 = log w"
      using tsc32_steady [OF st, of "p_pause P w"] st unfolding steady_def by metis
    have "\<exists>w'. stall_wait P (of_nat (now w1)) (of_nat e) w1 = Some w' \<and> e \<le> now w' \<and> now w' \<le> e + D \<and> log w' = log w1"
      by (rule less.hyps) (use w1 True less.prems in auto)
    then show ?thesis using w1 lt True by (subst stall_wait.simps) simp
  qed
qed

section \<open>Calibration\<close>

text \<open>
  The possible results of calibrating, in ticks for a thousand reads of the delay port (the code's millisecond). The delays are computed from it in 32
  bits; \<open>fine_clock\<close> says that the counter is read at least once during each of them.
\<close>

definition calibration :: "nat \<Rightarrow> nat \<Rightarrow> nat \<Rightarrow> u32 \<Rightarrow> bool" where
  "calibration D lo hi T \<longleftrightarrow> 1000 * lo < unat T \<and> unat T \<le> 1000 * hi + D"

abbreviation ticks :: "u32 \<Rightarrow> u32 \<Rightarrow> nat" where
  "ticks T usec \<equiv> unat (stall_ticks usec T)"

definition fine_clock :: "nat \<Rightarrow> nat \<Rightarrow> nat \<Rightarrow> u32 list \<Rightarrow> bool" where
  "fine_clock D lo hi us \<longleftrightarrow> (\<forall>T. calibration D lo hi T \<longrightarrow> list_all (\<lambda>u. D \<le> ticks T u) us)"

lemma ticks_le: "1000 * ticks T u \<le> unat u * unat T"
proof -
  have "ticks T u = unat (u * T) div 1000" by (simp add: stall_ticks_def unat_div)
  moreover have "unat (u * T) \<le> unat u * unat T" by (simp add: unat_word_ariths(2) mod_less_eq_dividend)
  ultimately show ?thesis by simp
qed

lemma ticks_exact: "unat u * unat T < 2 ^ 32 \<Longrightarrow> ticks T u = unat u * unat T div 1000"
  by (simp add: stall_ticks_def unat_div unat_word_ariths(2))

text \<open>Calibrating takes one round as long as the low half of the counter does not wrap around, which is so up to the time \<open>B + S\<close>.\<close>

lemma calibrate_ends:
  assumes st: "steady A P D lo hi base now log" and B: "B mod 2 ^ 32 + S < 2 ^ 32" "B \<le> now w" "now w + (2 * D + 1000 * hi) \<le> B + S"
  shows "\<exists>T w'. startap_calibrate_tsc_ticks_per_msec P g w = Some (g\<lparr>startap_tsc_ticks_per_msec := T\<rparr>, w') \<and> calibration D lo hi T
    \<and> now w \<le> now w' \<and> now w' \<le> now w + (2 * D + 1000 * hi) \<and> log w' = log w"
proof -
  obtain w1 where w1: "tsc32 P w = (of_nat (now w1), w1)" "now w < now w1" "now w1 \<le> now w + D" "log w1 = log w"
    using tsc32_steady [OF st] by blast
  define w2 where "w2 = startap_stall P 1000 w1"
  have w2: "now w1 + 1000 * lo \<le> now w2" "now w2 \<le> now w1 + 1000 * hi" "log w2 = log w1"
    using stall_loop_steady [OF st, of w1 1000] by (simp_all add: w2_def startap_stall_def)
  obtain w3 where w3: "tsc32 P w2 = (of_nat (now w3), w3)" "now w2 < now w3" "now w3 \<le> now w2 + D" "log w3 = log w2"
    using tsc32_steady [OF st] by blast
  let ?T = "of_nat (now w3) - of_nat (now w1) :: u32"
  have "\<not> (of_nat (now w3) :: u32) < of_nat (now w1)"
    using low_half_less [OF B(1), of "now w3" "now w1"] w1 w2 w3 B by simp
  then have run: "calibrate_loop P 1 0 w = Some (?T, w3)"
    using w1(1) w3(1) by (subst calibrate_loop.simps, simp add: w2_def [symmetric]) (subst calibrate_loop.simps, simp)
  have "?T = of_nat (now w3 - now w1)" using w1 w2 w3 by (simp add: of_nat_diff)
  then have "unat ?T = now w3 - now w1"
    using w1 w2 w3 B unat_of_nat32 [of "now w3 - now w1"] by simp
  then have "calibration D lo hi ?T" using w2 w3 unfolding calibration_def by linarith
  with run w1 w2 w3 show ?thesis
    by (intro exI [of _ ?T] exI [of _ w3]) (simp add: startap_calibrate_tsc_ticks_per_msec_def)
qed

text \<open>
  One delay on a calibrated clock, with reads at most \<open>D\<close> ticks apart and a delay of at least \<open>D\<close> ticks: it ends, after
  at least the computed number of ticks and at most \<open>2 * D\<close> more.
\<close>

lemma stall_ends:
  assumes st: "steady A P D lo hi base now log" and T: "startap_tsc_ticks_per_msec g = T" "T \<noteq> 0" and D: "D \<le> ticks T usec"
    and B: "B mod 2 ^ 32 + S < 2 ^ 32" "B \<le> now w" "now w + (ticks T usec + 2 * D) \<le> B + S"
  shows "\<exists>w'. startap_stall_using_tsc P usec g w = Some (g, w') \<and> now w + ticks T usec \<le> now w'
    \<and> now w' \<le> now w + (ticks T usec + 2 * D) \<and> log w' = log w"
proof -
  let ?t = "stall_ticks usec T"
  obtain d where d: "d = ticks T usec" by blast
  obtain w1 where w1: "tsc32 P w = (of_nat (now w1), w1)" "now w < now w1" "now w1 \<le> now w + D" "log w1 = log w"
    using tsc32_steady [OF st] by blast
  obtain w2 where w2: "tsc32 P w1 = (of_nat (now w2), w2)" "now w1 < now w2" "now w2 \<le> now w1 + D" "log w2 = log w1"
    using tsc32_steady [OF st] by blast
  have e: "of_nat (now w1) + ?t = (of_nat (now w1 + d) :: u32)" by (simp add: d)
  have "\<not> (of_nat (now w1 + d) :: u32) < of_nat (now w2)"
    using low_half_less [OF B(1), of "now w1 + d" "now w2"] w1(2,3) w2(2,3) D B(2,3) by (simp add: d)
  then have win: "stall_window P ?t 1 0 w = Some (of_nat (now w2), of_nat (now w1 + d), w2)"
    using w1(1) w2(1) e by (subst stall_window.simps, simp) (subst stall_window.simps, simp)
  have "\<exists>w'. stall_wait P (of_nat (now w2)) (of_nat (now w1 + d)) w2 = Some w' \<and> now w1 + d \<le> now w'
      \<and> now w' \<le> now w1 + d + D \<and> log w' = log w2"
    by (rule stall_wait_ends [OF st B(1)]) (use w1(2,3) w2(2,3) D B(2,3) in \<open>simp_all add: d\<close>)
  then obtain w' where w': "stall_wait P (of_nat (now w2)) (of_nat (now w1 + d)) w2 = Some w'" "now w1 + d \<le> now w'"
    "now w' \<le> now w1 + d + D" "log w' = log w2" by blast
  have "startap_stall_using_tsc P usec g w = Some (g, w')"
    using T win w'(1) by (simp add: startap_stall_using_tsc_def)
  then show ?thesis using w' w1 w2 by (intro exI [of _ w']) (simp add: d)
qed

text \<open>The first delay of all: it calibrates first.\<close>

lemma first_stall_ends:
  assumes st: "steady A P D lo hi base now log" and T0: "startap_tsc_ticks_per_msec g = 0"
    and D: "\<And>T. calibration D lo hi T \<Longrightarrow> D \<le> ticks T usec" and c: "\<And>T. calibration D lo hi T \<Longrightarrow> ticks T usec + 2 * D \<le> c"
    and B: "B mod 2 ^ 32 + S < 2 ^ 32" "B \<le> now w" "now w + (2 * D + 1000 * hi + c) \<le> B + S"
  shows "\<exists>T w'. startap_stall_using_tsc P usec g w = Some (g\<lparr>startap_tsc_ticks_per_msec := T\<rparr>, w') \<and> calibration D lo hi T
    \<and> now w + ticks T usec \<le> now w' \<and> now w' \<le> now w + (2 * D + 1000 * hi + c) \<and> log w' = log w"
proof -
  obtain T w1 where w1: "startap_calibrate_tsc_ticks_per_msec P g w = Some (g\<lparr>startap_tsc_ticks_per_msec := T\<rparr>, w1)"
    "calibration D lo hi T" "now w \<le> now w1" "now w1 \<le> now w + (2 * D + 1000 * hi)" "log w1 = log w"
    using calibrate_ends [OF st B(1,2), of g] B(3) by auto
  have T: "T \<noteq> 0" using w1(2) by (auto simp: calibration_def)
  obtain w2 where w2: "startap_stall_using_tsc P usec (g\<lparr>startap_tsc_ticks_per_msec := T\<rparr>) w1 = Some (g\<lparr>startap_tsc_ticks_per_msec := T\<rparr>, w2)"
    "now w1 + ticks T usec \<le> now w2" "now w2 \<le> now w1 + (ticks T usec + 2 * D)" "log w2 = log w1"
    using stall_ends [OF st _ T D [OF w1(2)] B(1), of "g\<lparr>startap_tsc_ticks_per_msec := T\<rparr>" w1] w1(3,4) c [OF w1(2)] B by auto
  have "startap_stall_using_tsc P usec g w = Some (g\<lparr>startap_tsc_ticks_per_msec := T\<rparr>, w2)"
    using w1(1) w2(1) T0 T by (simp add: startap_stall_using_tsc_def)
  then show ?thesis using w1 w2 c [OF w1(2)] by (intro exI [of _ T] exI [of _ w2]) auto
qed

text \<open>Upper bounds of the delays in terms of the longest calibration.\<close>

lemma ticks_bounds:
  fixes hi D :: nat
  defines "M \<equiv> 1000 * hi + D"
  assumes "calibration D lo hi T"
  shows "100 * ticks T 10 \<le> M" "ticks T 10000 \<le> 10 * M" "ticks T 200000 \<le> 200 * M" "ticks T 150000 \<le> 150 * M"
proof -
  have "unat T \<le> M" using assms by (simp add: calibration_def)
  then have "unat u * unat T \<le> unat u * M" for u :: u32 by simp
  then have u: "1000 * ticks T u \<le> unat u * M" for u using ticks_le [of u T] by (meson le_trans)
  show "100 * ticks T 10 \<le> M" "ticks T 10000 \<le> 10 * M" "ticks T 200000 \<le> 200 * M" "ticks T 150000 \<le> 150 * M"
    using u [of 10] u [of 10000] u [of 200000] u [of 150000] by simp_all
qed

section \<open>Messages\<close>

text \<open>The addresses of the two halves of the interrupt command register.\<close>

definition icr_addr :: "apic_env \<Rightarrow> u64 \<Rightarrow> u32" where
  "icr_addr A base = ucast ((base AND LOCAL_APIC_BASE_MSR_MASK A) + LOCAL_APIC_ICR_OFFSET A)"

definition icr_high_addr :: "apic_env \<Rightarrow> u64 \<Rightarrow> u32" where
  "icr_high_addr A base = ucast ((base AND LOCAL_APIC_BASE_MSR_MASK A) + LOCAL_APIC_ICR_OFFSET_HIGH A)"

text \<open>The two register writes of a message to all other processors, and a list of writes made at one time.\<close>

definition broadcast_message :: "apic_env \<Rightarrow> u64 \<Rightarrow> u32 \<Rightarrow> u32 \<Rightarrow> (u32 \<times> u32) list" where
  "broadcast_message A base vector mode = [(icr_high_addr A base, 0),
     (icr_addr A base, icr_low_word A vector mode (BROADCAST_ALL_EXCLUDING_SELF A))]"

definition stamped :: "nat \<Rightarrow> (u32 \<times> u32) list \<Rightarrow> (nat \<times> u32 \<times> u32) list" where
  "stamped t ws = map (\<lambda>(a, v). (t, a, v)) ws"

text \<open>Sending a message: the two writes, then a delay (the first one may calibrate) and one look at the status.\<close>

lemma send_broadcast_run:
  assumes st: "steady A P D lo hi base now log"
  obtains w2 where "now w2 = now w" "log w2 = log w @ stamped (now w) (broadcast_message A base v mode)"
    and "\<And>g g' w3. startap_stall_using_tsc P 10 g w2 = Some (g', w3)
      \<Longrightarrow> \<exists>w'. send_ipi_to_all_excluding_self A P v mode g w = Some (g', w') \<and> now w' = now w3 \<and> log w' = log w3"
proof -
  have ops: "fst (p_rdmsr P i v) = base" "now (snd (p_rdmsr P i v)) = now v" "log (snd (p_rdmsr P i v)) = log v"
    "icr_idle A (fst (p_read P a v))" "now (snd (p_read P a v)) = now v" "log (snd (p_read P a v)) = log v"
    "now (p_write P a b v) = now v" "log (p_write P a b v) = log v @ [(now v, a, b)]" for i a b v
    using st by (simp_all add: steady_def)
  let ?lo = "icr_low_word A v mode (BROADCAST_ALL_EXCLUDING_SELF A)"
  define w1 where "w1 = snd (p_read P (icr_addr A base) (snd (p_rdmsr P (IA32_MSR_APIC_BASE A) w)))"
  define w2 where "w2 = p_write P (icr_addr A base) ?lo (p_write P (icr_high_addr A base) 0 w1)"
  have idle: "ipi_wait_idle A P a v = Some (snd (p_read P a v))" for a v
    by (subst ipi_wait_idle.simps) (simp add: case_prod_beta ops)
  have run: "send_ipi_to_all_excluding_self A P v mode g w = ipi_wait_sent A P (icr_addr A base) g w2" for g
    by (simp add: send_ipi_to_all_excluding_self_def send_ipi_def case_prod_beta ops idle w1_def w2_def icr_addr_def icr_high_addr_def Let_def)
  show ?thesis
  proof (rule that [of w2])
    show "now w2 = now w" "log w2 = log w @ stamped (now w) (broadcast_message A base v mode)"
      by (simp_all add: w2_def w1_def ops stamped_def broadcast_message_def)
    show "\<exists>w'. send_ipi_to_all_excluding_self A P v mode g w = Some (g', w') \<and> now w' = now w3 \<and> log w' = log w3"
      if "startap_stall_using_tsc P 10 g w2 = Some (g', w3)" for g g' w3
      unfolding run using that by (subst ipi_wait_sent.simps) (simp add: case_prod_beta ops)
  qed
qed

lemma send_broadcast_ends:
  assumes st: "steady A P D lo hi base now log" and T: "startap_tsc_ticks_per_msec g = T" "T \<noteq> 0" and D: "D \<le> ticks T 10"
    and B: "B mod 2 ^ 32 + S < 2 ^ 32" "B \<le> now w" "now w + (ticks T 10 + 2 * D) \<le> B + S"
  shows "\<exists>w'. send_ipi_to_all_excluding_self A P v mode g w = Some (g, w') \<and> now w + ticks T 10 \<le> now w'
    \<and> now w' \<le> now w + (ticks T 10 + 2 * D) \<and> log w' = log w @ stamped (now w) (broadcast_message A base v mode)"
proof -
  obtain w2 where w2: "now w2 = now w" "log w2 = log w @ stamped (now w) (broadcast_message A base v mode)"
    and run: "\<And>g g' w3. startap_stall_using_tsc P 10 g w2 = Some (g', w3)
      \<Longrightarrow> \<exists>w'. send_ipi_to_all_excluding_self A P v mode g w = Some (g', w') \<and> now w' = now w3 \<and> log w' = log w3"
    by (rule send_broadcast_run [OF st, of w v mode]) blast
  show ?thesis using stall_ends [OF st T D B(1), of w2] run B w2 by fastforce
qed

lemma first_broadcast_ends:
  assumes st: "steady A P D lo hi base now log" and T0: "startap_tsc_ticks_per_msec g = 0"
    and D: "\<And>T. calibration D lo hi T \<Longrightarrow> D \<le> ticks T 10" and c: "\<And>T. calibration D lo hi T \<Longrightarrow> ticks T 10 + 2 * D \<le> c"
    and B: "B mod 2 ^ 32 + S < 2 ^ 32" "B \<le> now w" "now w + (2 * D + 1000 * hi + c) \<le> B + S"
  shows "\<exists>T w'. send_ipi_to_all_excluding_self A P v mode g w = Some (g\<lparr>startap_tsc_ticks_per_msec := T\<rparr>, w') \<and> calibration D lo hi T
    \<and> now w + ticks T 10 \<le> now w' \<and> now w' \<le> now w + (2 * D + 1000 * hi + c)
    \<and> log w' = log w @ stamped (now w) (broadcast_message A base v mode)"
proof -
  obtain w2 where w2: "now w2 = now w" "log w2 = log w @ stamped (now w) (broadcast_message A base v mode)"
    and run: "\<And>g g' w3. startap_stall_using_tsc P 10 g w2 = Some (g', w3)
      \<Longrightarrow> \<exists>w'. send_ipi_to_all_excluding_self A P v mode g w = Some (g', w') \<and> now w' = now w3 \<and> log w' = log w3"
    by (rule send_broadcast_run [OF st, of w v mode]) blast
  show ?thesis using first_stall_ends [OF st T0 D c B(1), of w2] run B w2 by fastforce
qed

text \<open>
  The messages of the whole sequence for start-up code at \<open>page\<close>: one INIT, then the start-up message twice; and what is asked of their
  times: the delays between them, as computed from the calibration \<open>T\<close>.
\<close>

definition wakeup_messages :: "apic_env \<Rightarrow> u64 \<Rightarrow> u32 \<Rightarrow> nat \<Rightarrow> nat \<Rightarrow> nat \<Rightarrow> (nat \<times> u32 \<times> u32) list" where
  "wakeup_messages A base page t0 t1 t2 = stamped t0 (broadcast_message A base 0 (DELIVERY_MODE_INIT A))
     @ stamped t1 (broadcast_message A base (drop_bit 12 page) (DELIVERY_MODE_SIPI A))
     @ stamped t2 (broadcast_message A base (drop_bit 12 page) (DELIVERY_MODE_SIPI A))"

definition paced :: "u32 \<Rightarrow> nat \<Rightarrow> nat \<Rightarrow> nat \<Rightarrow> nat \<Rightarrow> bool" where
  "paced T t0 t1 t2 t3 \<longleftrightarrow> t0 + (ticks T 10 + ticks T 10000) \<le> t1 \<and> t1 + (ticks T 10 + ticks T 200000) \<le> t2
     \<and> t2 + (ticks T 10 + ticks T 200000) \<le> t3"

lemma broadcast_ends:
  fixes hi D :: nat
  defines "M \<equiv> 1000 * hi + D"
  assumes st: "steady A P D lo hi base now log" and T0: "startap_tsc_ticks_per_msec g = 0"
    and D: "fine_clock D lo hi [10, 10000, 200000]"
    and B: "B mod 2 ^ 32 + S < 2 ^ 32" "B \<le> now w" "now w + (412 * M + 13 * D) \<le> B + S"
  shows "\<exists>T w' t1 t2. send_broadcast_init_sipi A P m p g w = Some (g\<lparr>startap_tsc_ticks_per_msec := T\<rparr>, w') \<and> calibration D lo hi T
    \<and> paced T (now w) t1 t2 (now w') \<and> now w' \<le> now w + (412 * M + 13 * D)
    \<and> log w' = log w @ wakeup_messages A base (i32_low_memory_page m p) (now w) t1 t2"
proof -
  let ?page = "i32_low_memory_page m p"
  have fine: "D \<le> ticks T 10" "D \<le> ticks T 10000" "D \<le> ticks T 200000" if "calibration D lo hi T" for T
    using D that by (simp_all add: fine_clock_def)
  have tb: "100 * ticks T 10 \<le> M" "ticks T 10000 \<le> 10 * M" "ticks T 200000 \<le> 200 * M" if "calibration D lo hi T" for T
    using ticks_bounds(1,2,3) [OF that] by (simp_all add: M_def)
  define c where "c = M div 100"
  have c0: "100 * c \<le> M" by (simp add: c_def)
  have c: "ticks T 10 + 2 * D \<le> c + 2 * D" if "calibration D lo hi T" for T
    using tb(1) [OF that] by (simp add: c_def)
  have "now w + (2 * D + 1000 * hi + (c + 2 * D)) \<le> B + S" using B(3) c0 by (simp add: M_def)
  from first_broadcast_ends [OF st T0 fine(1) c B(1,2) this, of 0 "DELIVERY_MODE_INIT A"]
  obtain T w1 where w1: "send_init_ipi A P g w = Some (g\<lparr>startap_tsc_ticks_per_msec := T\<rparr>, w1)" and T: "calibration D lo hi T"
    and n1: "now w + ticks T 10 \<le> now w1" "now w1 \<le> now w + (2 * D + 1000 * hi + (c + 2 * D))"
    and l1: "log w1 = log w @ stamped (now w) (broadcast_message A base 0 (DELIVERY_MODE_INIT A))"
    unfolding send_init_ipi_def by blast
  define g1 where "g1 = g\<lparr>startap_tsc_ticks_per_msec := T\<rparr>"
  have g1: "startap_tsc_ticks_per_msec g1 = T" "T \<noteq> 0" using T by (auto simp: g1_def calibration_def)
  note tT = tb [OF T]
  have stall: "\<exists>w'. startap_stall_using_tsc P u g1 v = Some (g1, w') \<and> now v + ticks T u \<le> now w'
      \<and> now w' \<le> now v + (ticks T u + 2 * D) \<and> log w' = log v"
    if "D \<le> ticks T u" "now w \<le> now v" "now v + (ticks T u + 2 * D) \<le> now w + (412 * M + 13 * D)" for u v
    by (rule stall_ends [OF st g1 that(1) B(1)]) (use that B in simp_all)
  have sipi: "\<exists>w'. send_sipi_ipi A P ?page g1 v = Some (g1, w') \<and> now v + ticks T 10 \<le> now w' \<and> now w' \<le> now v + (ticks T 10 + 2 * D)
      \<and> log w' = log v @ stamped (now v) (broadcast_message A base (drop_bit 12 ?page) (DELIVERY_MODE_SIPI A))"
    if "now w \<le> now v" "now v + (ticks T 10 + 2 * D) \<le> now w + (412 * M + 13 * D)" for v
    unfolding send_sipi_ipi_def
    by (rule send_broadcast_ends [OF st g1 fine(1) [OF T] B(1)]) (use that B in simp_all)
  have n1': "now w1 \<le> now w + (M + D + (c + 2 * D))" using n1(2) by (simp add: M_def)
  obtain w2 where w2: "startap_stall_using_tsc P 10000 g1 w1 = Some (g1, w2)" "now w1 + ticks T 10000 \<le> now w2"
    "now w2 \<le> now w1 + (ticks T 10000 + 2 * D)" "log w2 = log w1"
    using stall [OF fine(2) [OF T], of w1] n1(1) n1' tT c0 by fastforce
  obtain w3 where w3: "send_sipi_ipi A P ?page g1 w2 = Some (g1, w3)" "now w2 + ticks T 10 \<le> now w3" "now w3 \<le> now w2 + (ticks T 10 + 2 * D)"
    "log w3 = log w2 @ stamped (now w2) (broadcast_message A base (drop_bit 12 ?page) (DELIVERY_MODE_SIPI A))"
    using sipi [of w2] n1(1) n1' w2(2,3) tT c0 by fastforce
  obtain w4 where w4: "startap_stall_using_tsc P 200000 g1 w3 = Some (g1, w4)" "now w3 + ticks T 200000 \<le> now w4"
    "now w4 \<le> now w3 + (ticks T 200000 + 2 * D)" "log w4 = log w3"
    using stall [OF fine(3) [OF T], of w3] n1(1) n1' w2(2,3) w3(2,3) tT c0 by fastforce
  obtain w5 where w5: "send_sipi_ipi A P ?page g1 w4 = Some (g1, w5)" "now w4 + ticks T 10 \<le> now w5" "now w5 \<le> now w4 + (ticks T 10 + 2 * D)"
    "log w5 = log w4 @ stamped (now w4) (broadcast_message A base (drop_bit 12 ?page) (DELIVERY_MODE_SIPI A))"
    using sipi [of w4] n1(1) n1' w2(2,3) w3(2,3) w4(2,3) tT c0 by fastforce
  obtain w6 where w6: "startap_stall_using_tsc P 200000 g1 w5 = Some (g1, w6)" "now w5 + ticks T 200000 \<le> now w6"
    "now w6 \<le> now w5 + (ticks T 200000 + 2 * D)" "log w6 = log w5"
    using stall [OF fine(3) [OF T], of w5] n1(1) n1' w2(2,3) w3(2,3) w4(2,3) w5(2,3) tT c0 by fastforce
  have "send_broadcast_init_sipi A P m p g w = Some (g1, w6)"
    using w1 w2(1) w3(1) w4(1) w5(1) w6(1) by (simp add: send_broadcast_init_sipi_def g1_def)
  moreover have "paced T (now w) (now w2) (now w4) (now w6)" using n1(1) w2(2) w3(2) w4(2) w5(2) w6(2) unfolding paced_def by linarith
  moreover have "now w6 \<le> now w + (412 * M + 13 * D)" using n1' w2(3) w3(3) w4(3) w5(3) w6(3) tT c0 by linarith
  moreover have "log w6 = log w @ wakeup_messages A base ?page (now w) (now w2) (now w4)"
    using l1 w2(4) w3(4) w4(4) w5(4) w6(4) by (simp add: wakeup_messages_def)
  ultimately show ?thesis using T unfolding g1_def by blast
qed

section \<open>Properties\<close>

text \<open>
  C20. Waking all processors from the state in which the image starts, with the clock not yet calibrated, on a platform as described above whose
  counter's low half does not wrap around meanwhile (\<open>M\<close> is the longest possible calibration; 412 times that, and 13 more reads of the
  counter, fit) and which reads the counter at least once in every delay: the sequence calibrates the clock and ends; the local APIC has
  received exactly one INIT and two start-up messages to all other processors, the latter with the page number of the start-up code as vector.
  The first start-up message follows the INIT, and the second one the first, no earlier than the delay between them that the code computes
  from the calibration \<open>T\<close>. Where that computation does not overflow 32 bits, these are the 10 and 200 milliseconds that the code's
  comments ask for.
\<close>

theorem broadcast_init_sipi_sequence:
  fixes hi D :: nat and g :: ap_globals
  defines "M \<equiv> 1000 * hi + D"
  assumes st: "steady A P D lo hi base now log" and boot: "startap_tsc_ticks_per_msec g = 0"
    and fine: "fine_clock D lo hi [10, 10000, 200000]" and room: "now w mod 2 ^ 32 + (412 * M + 13 * D) < 2 ^ 32"
  shows "\<exists>T w' t1 t2. send_broadcast_init_sipi A P m p g w = Some (g\<lparr>startap_tsc_ticks_per_msec := T\<rparr>, w')
    \<and> 1000 * lo < unat T \<and> unat T \<le> M \<and> now w' \<le> now w + (412 * M + 13 * D)
    \<and> log w' = log w @ stamped (now w) (broadcast_message A base 0 (DELIVERY_MODE_INIT A))
        @ stamped t1 (broadcast_message A base (drop_bit 12 (i32_low_memory_page m p)) (DELIVERY_MODE_SIPI A))
        @ stamped t2 (broadcast_message A base (drop_bit 12 (i32_low_memory_page m p)) (DELIVERY_MODE_SIPI A))
    \<and> now w + unat (stall_ticks 10000 T) \<le> t1 \<and> t1 + unat (stall_ticks 200000 T) \<le> t2 \<and> t2 + unat (stall_ticks 200000 T) \<le> now w'
    \<and> (10000 * unat T < 2 ^ 32 \<longrightarrow> now w + 10 * unat T \<le> t1)
    \<and> (200000 * unat T < 2 ^ 32 \<longrightarrow> t1 + 200 * unat T \<le> t2)"
proof -
  obtain T w' t1 t2 where r: "send_broadcast_init_sipi A P m p g w = Some (g\<lparr>startap_tsc_ticks_per_msec := T\<rparr>, w')"
    and T: "calibration D lo hi T" and pc: "paced T (now w) t1 t2 (now w')" and up: "now w' \<le> now w + (412 * M + 13 * D)"
    and l: "log w' = log w @ wakeup_messages A base (i32_low_memory_page m p) (now w) t1 t2"
    using broadcast_ends [OF st boot fine room, of w m p] unfolding M_def by auto
  have "10000 * unat T < 2 ^ 32 \<Longrightarrow> ticks T 10000 = 10 * unat T" "200000 * unat T < 2 ^ 32 \<Longrightarrow> ticks T 200000 = 200 * unat T"
    using ticks_exact [of 10000 T] ticks_exact [of 200000 T] by simp_all
  then show ?thesis
    using r T pc up l unfolding calibration_def paced_def wakeup_messages_def M_def
    by (intro exI [of _ T] exI [of _ w'] exI [of _ t1] exI [of _ t2]) auto
qed

text \<open>
  A platform: the world is the time of the last read and the log; every read of the counter takes one tick, a read of the
  delay port takes 100.
\<close>

definition demo_platform :: "(nat \<times> (nat \<times> u32 \<times> u32) list) platform" where
  "demo_platform = \<lparr>p_rdtsc = (\<lambda>(t, l). (of_nat (t + 1), (t + 1, l))), p_in8 = (\<lambda>_ (t, l). (0, (t + 100, l))), p_rdmsr = (\<lambda>_ w. (0xFEE00900, w)),
     p_read = (\<lambda>_ w. (0, w)), p_write = (\<lambda>a v (t, l). (t, l @ [(t, a, v)])), p_pause = id, p_presence = (\<lambda>_. []),
     p_put_presence = (\<lambda>_ w. w), p_ready = (\<lambda>_. 0), p_put_ready = (\<lambda>_ w. w)\<rparr>"

definition std_apic :: apic_env where
  "std_apic = \<lparr>icr_vector = (0, 8), icr_delivery_mode = (8, 3), icr_delivery_status = (12, 1), icr_level = (14, 1),
     icr_trigger_mode = (15, 1), icr_destination_shorthand = (18, 2), icr_destination = (24, 8), DELIVERY_MODE_INIT = 5,
     DELIVERY_MODE_SIPI = 6, BROADCAST_ALL_EXCLUDING_SELF = 3, BROADCAST_SPECIFY_CPU = 0, IA32_MSR_APIC_BASE = 0x1B,
     LOCAL_APIC_BASE_MSR_MASK = 0xFFFFF000, LOCAL_APIC_ICR_OFFSET = 0x300, LOCAL_APIC_ICR_OFFSET_HIGH = 0x310,
     st_post_os_launch = (\<lambda>_ _. False), st_number_of_processors = (\<lambda>_ _. 1), st_put_number_of_processors = (\<lambda>_ _ m. m),
     st_cpu_local_apic_id = (\<lambda>_ _ _. 0)\<rparr>"

text \<open>The variables of the image as it starts.\<close>

definition demo_globals :: ap_globals where
  "demo_globals = \<lparr>startap_tsc_ticks_per_msec = 0, mp_bootstrap_state = MP_BOOTSTRAP_STATE_INIT, gp_init32_data = 0,
     g_aps_counter = 0, gp_GDT = \<lparr>g_limit = 0, g_base = 0\<rparr>, gp_IDT = \<lparr>g_limit = 0, g_base = 0\<rparr>, g_user_func = 0,
     g_any_data_for_user_func = 0\<rparr>"

lemma demo_steady: "steady std_apic demo_platform 1 100 100 0xFEE00900 fst snd"
  by (auto simp: steady_def demo_platform_def icr_idle_def)

lemma demo_fine: "fine_clock 1 100 100 [10, 10000, 200000, 150000]"
proof -
  have "list_all (\<lambda>u. 1 \<le> ticks T u) [10, 10000, 200000, 150000]" if "calibration 1 100 100 T" for T
  proof -
    have T: "T = 100001" using that by (simp add: calibration_def word_unat_eq_iff)
    show ?thesis by (simp add: T stall_ticks_def)
  qed
  then show ?thesis unfolding fine_clock_def by blast
qed

lemma demo_fine3: "fine_clock 1 100 100 [10, 10000, 200000]"
  using demo_fine by (simp add: fine_clock_def)

theorem broadcast_init_sipi_sequence_witness:
  "\<exists>g' t t1 t2. send_broadcast_init_sipi std_apic demo_platform ((\<lambda>_. 0)(0x5001 := 0x80)) 0x5000 demo_globals (0, [])
      = Some (g', (t, [(0, 0xFEE00310, 0), (0, 0xFEE00300, 0xC4500), (t1, 0xFEE00310, 0), (t1, 0xFEE00300, 0xC4608),
          (t2, 0xFEE00310, 0), (t2, 0xFEE00300, 0xC4608)])) \<and> 1000000 \<le> t1"
proof -
  let ?m = "(\<lambda>_. 0)(0x5001 := 0x80) :: mem" and ?A = std_apic and ?msg = "broadcast_message std_apic 0xFEE00900"
  have page: "drop_bit 12 (i32_low_memory_page ?m 0x5000) = 8"
    by (simp add: i32_low_memory_page_def mem_eval)
  have msg: "?msg 0 (DELIVERY_MODE_INIT ?A) = [(0xFEE00310, 0), (0xFEE00300, 0xC4500)]"
    "?msg 8 (DELIVERY_MODE_SIPI ?A) = [(0xFEE00310, 0), (0xFEE00300, 0xC4608)]"
    by (simp_all add: broadcast_message_def icr_high_addr_def icr_addr_def icr_low_word_def std_apic_def put_field_def mask_numeral)
  obtain T w' t1 t2 where "send_broadcast_init_sipi ?A demo_platform ?m 0x5000 demo_globals (0, []) = Some (demo_globals\<lparr>startap_tsc_ticks_per_msec := T\<rparr>, w')"
    and T: "1000 * 100 < unat T" "unat T \<le> 100001" and l: "snd w' = [] @ stamped 0 (?msg 0 (DELIVERY_MODE_INIT ?A))
        @ stamped t1 (?msg 8 (DELIVERY_MODE_SIPI ?A)) @ stamped t2 (?msg 8 (DELIVERY_MODE_SIPI ?A))"
    and gap: "10000 * unat T < 2 ^ 32 \<longrightarrow> 0 + 10 * unat T \<le> t1"
    using broadcast_init_sipi_sequence [OF demo_steady _ demo_fine3, of demo_globals "(0, [])" ?m "0x5000"] unfolding page
    by (auto simp: demo_globals_def)
  then show ?thesis
    using msg by (intro exI [of _ "demo_globals\<lparr>startap_tsc_ticks_per_msec := T\<rparr>"] exI [of _ "fst w'"] exI [of _ t1] exI [of _ t2])
      (cases w', simp add: stamped_def)
qed

end
