(* ===== verification/Startap.thy ===== *)
theory Startap
  imports Ap_Ipi
begin

text \<open>
  The program \<^verbatim>\<open>startap\<close>: \<^verbatim>\<open>startap.c\<close> starts the application processors and then the monitor on every processor,
  \<^verbatim>\<open>x32_init64.c\<close> and \<^verbatim>\<open>start_64bit_mode\<close> of \<^verbatim>\<open>wakeup_init64.S\<close> take one processor to 64-bit mode.
\<close>

section \<open>One processor\<close>

text \<open>The fields of \<^verbatim>\<open>init64_struct_t\<close> (\<^verbatim>\<open>startap/x32_init64.h\<close>).\<close>

record init64_struct =
  i64_cs :: u16
  i64_gdtr :: gdtr
  i64_efer :: u64
  i64_cr3 :: u32

text \<open>The registers of a processor that this code sets.\<close>

record cpu =
  c_gdtr :: gdtr
  c_cr0 :: u32
  c_cr3 :: u32
  c_cr4 :: u32
  c_efer :: u64
  c_esp :: u32

text \<open>
  What a processor does next: call a 32-bit function with arguments on the stack, or run at a 64-bit address, with a code
  segment and the four argument registers and the stack pointer at the call.
\<close>

datatype launch =
    Call32 (callee: u32) (args: "u32 list")
  | Call64 (rip: u64) (seg: u32) (rcx: u64) (rdx: u64) (r8: u64) (r9: u64) (rsp: u64)

definition push32 :: "u32 \<Rightarrow> mem \<times> u32 \<Rightarrow> mem \<times> u32" where
  "push32 v = (\<lambda>(m, esp). (store32 (esp - 4) v m, esp - 4))"

text \<open>
  \<open>esp\<close> is the stack pointer at the entry and \<open>START64\<close> the address of the label. The far return takes the two words that
  were pushed last, the four pops read 64-bit words.
\<close>

definition start_64bit_mode ::
    "u32 \<Rightarrow> u32 \<Rightarrow> u32 \<Rightarrow> u32 \<Rightarrow> u32 \<Rightarrow> u32 \<Rightarrow> u32 \<Rightarrow> cpu \<Rightarrow> mem \<Rightarrow> launch \<times> cpu \<times> mem" where
  "start_64bit_mode START64 address segment arg1 arg2 arg3 arg4 c m =
     (let s = (m, c_esp c AND NOT 7);
          s = push32 arg1 (push32 0 (push32 arg2 (push32 0 (push32 arg3 (push32 0 (push32 arg4 (push32 0 s)))))));
          (m, esp) = push32 START64 (push32 segment s);
          c = c\<lparr>c_efer := set_bit 8 (c_efer c), c_cr0 := set_bit 31 (c_cr0 c)\<rparr>;
          cs = load32 m (esp + 4); esp = esp + 8;
          rcx = load64 m esp; rdx = load64 m (esp + 8); r8 = load64 m (esp + 16); r9 = load64 m (esp + 24);
          esp = esp + 32 - 0x18
      in (Call64 (ucast address) cs rcx rdx r8 r9 (ucast esp), c\<lparr>c_esp := esp\<rparr>, m))"

definition PSE_BIT :: u32 where "PSE_BIT = 0x10"
definition PAE_BIT :: u32 where "PAE_BIT = 0x20"

text \<open>\<open>bitmap_set\<close> stands for the macro \<^verbatim>\<open>BITMAP_SET\<close> of the core.\<close>

definition x32_init64_start ::
    "(u32 \<Rightarrow> u32 \<Rightarrow> u32) \<Rightarrow> u32 \<Rightarrow> init64_struct \<Rightarrow> u32 \<Rightarrow> u32 \<Rightarrow> u32 \<Rightarrow> u32 \<Rightarrow> u32 \<Rightarrow> cpu \<Rightarrow> mem \<Rightarrow> launch \<times> cpu \<times> mem" where
  "x32_init64_start bitmap_set START64 p_init64_data address_of_64bit_code arg1 arg2 arg3 arg4 c m =
     (let c = c\<lparr>c_gdtr := i64_gdtr p_init64_data\<rparr>;
          c = c\<lparr>c_cr3 := i64_cr3 p_init64_data\<rparr>;
          cr4 = c_cr4 c;
          cr4 = bitmap_set cr4 (PAE_BIT OR PSE_BIT);
          c = c\<lparr>c_cr4 := cr4\<rparr>;
          c = c\<lparr>c_efer := i64_efer p_init64_data\<rparr>
      in start_64bit_mode START64 address_of_64bit_code (ucast (i64_cs p_init64_data)) arg1 arg2 arg3 arg4 c m)"

section \<open>The program\<close>

record application_params_struct =
  any_data1 :: u32
  any_data2 :: u32
  any_data3 :: u32
  ep :: u64

record startap_globals =
  ap_g :: ap_globals
  application_params :: application_params_struct
  gp_init64 :: "init64_struct option"

text \<open>
  The links of the image: the processor's environment for \<^verbatim>\<open>ap_procs_init.c\<close>, the addresses of the function and the structure
  that the APs are given, of the label \<^verbatim>\<open>START64\<close>, and the macro \<^verbatim>\<open>BITMAP_SET\<close>.
\<close>

record startap_env =
  e_bsp :: bsp_env
  e_start_application :: u32
  e_application_params :: u32
  e_START64 :: u32
  BITMAP_SET :: "u32 \<Rightarrow> u32 \<Rightarrow> u32"

definition start_application ::
    "startap_env \<Rightarrow> startap_globals \<Rightarrow> u32 \<Rightarrow> application_params_struct \<Rightarrow> cpu \<Rightarrow> mem \<Rightarrow> launch \<times> cpu \<times> mem" where
  "start_application E g cpu_id params c m =
     (case gp_init64 g of
        None \<Rightarrow> (Call32 (ucast (ep params)) [cpu_id, any_data1 params, any_data2 params, any_data3 params], c, m)
      | Some init64 \<Rightarrow> x32_init64_start (BITMAP_SET E) (e_START64 E) init64 (ucast (ep params)) cpu_id (any_data1 params)
          (any_data2 params) (any_data3 params) c m)"

text \<open>The macro \<^verbatim>\<open>UNIPROC\<close> is not defined. The result is what the boot processor does next, with the state it leaves.\<close>

definition startap_main ::
    "apic_env \<Rightarrow> 'w platform \<Rightarrow> startap_env \<Rightarrow> u32 \<Rightarrow> init64_struct option \<Rightarrow> u32 \<Rightarrow> u32 \<Rightarrow> startap_globals \<Rightarrow> cpu \<Rightarrow> mem \<Rightarrow> 'w
      \<Rightarrow> ((launch \<times> cpu \<times> mem) \<times> startap_globals \<times> 'w) option" where
  "startap_main A P E p_init32 p_init64 p_startup entry_point g c m w =
     do {
       (n, apg, m, w) \<leftarrow> (if p_init32 \<noteq> 0 then ap_procs_startup A P (e_bsp E) p_init32 p_startup (ap_g g) m w
                          else Some (0, ap_g g, m, w));
       let g = g\<lparr>ap_g := apg, gp_init64 := p_init64\<rparr>;
       let m = (if \<not> st_post_os_launch A m p_startup then st_put_number_of_processors A p_startup (n + 1) m else m);
       let g = g\<lparr>application_params := \<lparr>any_data1 = p_startup, any_data2 = 0, any_data3 = 0, ep = ucast entry_point\<rparr>\<rparr>;
       (apg, w) \<leftarrow> (if n > 0 then ap_procs_run P (e_start_application E) (e_application_params E) (ap_g g) w
                     else Some (ap_g g, w));
       let g = g\<lparr>ap_g := apg\<rparr>;
       Some (start_application E g 0 (application_params g) c m, g, w) }"

section \<open>Entering 64-bit mode\<close>

text \<open>The stack after the pushes: five 64-bit words, the lower half of each as pushed.\<close>

lemma pushed_words:
  fixes t :: u32
  assumes "m' = store32 (t - 40) v0 (store32 (t - 36) sg (store32 (t - 32) a1 (store32 (t - 28) 0 (store32 (t - 24) a2
    (store32 (t - 20) 0 (store32 (t - 16) a3 (store32 (t - 12) 0 (store32 (t - 8) a4 (store32 (t - 4) 0 m)))))))))"
  shows "load32 m' (t - 36) = sg" "load64 m' (t - 32) = ucast a1" "load64 m' (t - 24) = ucast a2" "load64 m' (t - 16) = ucast a3"
    "load64 m' (t - 8) = ucast a4" and "\<not> in_range (t - 40) 40 x \<Longrightarrow> m' x = m x"
proof -
  show "load32 m' (t - 36) = sg" "load64 m' (t - 32) = ucast a1" "load64 m' (t - 24) = ucast a2" "load64 m' (t - 16) = ucast a3"
    "load64 m' (t - 8) = ucast a4"
    by (simp_all add: assms load64_parts load_after_store sep_def)
  assume "\<not> in_range (t - 40) 40 x"
  then have "\<not> in_range (t - 40 + k) 4 x" if "unat k + 4 \<le> 40" for k
    using that inside_in_range [of "t - 40 + k" 4 "t - 40" 40 x] by (auto simp: inside_def)
  from this [of 0] this [of 4] this [of 8] this [of 12] this [of 16] this [of 20] this [of 24] this [of 28] this [of 32]
    this [of 36]
  show "m' x = m x" by (simp add: assms store_other)
qed

lemma start_64bit_mode_eq:
  fixes c :: cpu
  defines "t \<equiv> c_esp c AND NOT 7"
  shows "\<exists>m'. start_64bit_mode START64 address segment arg1 arg2 arg3 arg4 c m
      = (Call64 (ucast address) segment (ucast arg1) (ucast arg2) (ucast arg3) (ucast arg4) (ucast (t - 0x18)),
         c\<lparr>c_efer := set_bit 8 (c_efer c), c_cr0 := set_bit 31 (c_cr0 c), c_esp := t - 0x18\<rparr>, m')
    \<and> (\<forall>x. \<not> in_range (t - 40) 40 x \<longrightarrow> m' x = m x)"
proof -
  define m' where "m' = store32 (t - 40) START64 (store32 (t - 36) segment (store32 (t - 32) arg1 (store32 (t - 28) 0
    (store32 (t - 24) arg2 (store32 (t - 20) 0 (store32 (t - 16) arg3 (store32 (t - 12) 0 (store32 (t - 8) arg4
    (store32 (t - 4) 0 m)))))))))"
  have t: "c_esp c AND - 8 = t" by (simp add: t_def)
  show ?thesis
    using pushed_words [OF m'_def]
    by (intro exI [of _ m']) (simp add: start_64bit_mode_def push32_def t m'_def [symmetric] Let_def)
qed

section \<open>Properties\<close>

text \<open>
  C23. One processor enters 64-bit mode: \<^verbatim>\<open>x32_init64_start\<close> ends at the given address in the 64-bit code segment, with the four
  32-bit arguments zero-extended in the registers of the calling convention, long mode and paging enabled, physical-address
  extension on, the prepared descriptor and page tables loaded, every other bit of the control registers as it was, and no
  memory changed but the 40 bytes below the aligned stack pointer.
\<close>

theorem x32_init64_start_enters:
  assumes macro: "\<And>v k. bitmap_set v k = v OR k" and t: "t = c_esp c AND NOT 7"
    and run: "x32_init64_start bitmap_set START64 d address a1 a2 a3 a4 c m = (l, c', m')"
  shows "l = Call64 (ucast address) (ucast (i64_cs d)) (ucast a1) (ucast a2) (ucast a3) (ucast a4) (ucast (t - 0x18))
    \<and> c' = \<lparr>c_gdtr = i64_gdtr d, c_cr0 = set_bit 31 (c_cr0 c), c_cr3 = i64_cr3 d, c_cr4 = c_cr4 c OR 0x30,
         c_efer = set_bit 8 (i64_efer d), c_esp = t - 0x18\<rparr>
    \<and> (\<forall>x. \<not> in_range (t - 40) 40 x \<longrightarrow> m' x = m x)"
proof -
  let ?c = "c\<lparr>c_gdtr := i64_gdtr d, c_cr3 := i64_cr3 d, c_cr4 := c_cr4 c OR 0x30, c_efer := i64_efer d\<rparr>"
  have "x32_init64_start bitmap_set START64 d address a1 a2 a3 a4 c m
      = start_64bit_mode START64 address (ucast (i64_cs d)) a1 a2 a3 a4 ?c m"
    by (simp add: x32_init64_start_def macro PAE_BIT_def PSE_BIT_def Let_def)
  then show ?thesis
    using start_64bit_mode_eq [of START64 address "ucast (i64_cs d)" a1 a2 a3 a4 ?c m] run t by auto
qed

theorem x32_init64_start_enters_witness:
  "\<exists>c' m'. x32_init64_start (OR) 0x1000 \<lparr>i64_cs = 8, i64_gdtr = \<lparr>g_limit = 23, g_base = 0x7000\<rparr>, i64_efer = 0, i64_cr3 = 0x9000\<rparr>
      0x200000 3 0x5000 0 0 \<lparr>c_gdtr = \<lparr>g_limit = 0, g_base = 0\<rparr>, c_cr0 = 1, c_cr3 = 0, c_cr4 = 1, c_efer = 0, c_esp = 0x8004\<rparr> (\<lambda>_. 0)
    = (Call64 0x200000 8 3 0x5000 0 0 0x7FE8, c', m') \<and> c_cr0 c' = 0x80000001 \<and> c_cr4 c' = 0x31 \<and> c_efer c' = 0x100"
proof -
  let ?d = "\<lparr>i64_cs = 8, i64_gdtr = \<lparr>g_limit = 23, g_base = 0x7000\<rparr>, i64_efer = 0, i64_cr3 = 0x9000\<rparr>"
  let ?c = "\<lparr>c_gdtr = \<lparr>g_limit = 0, g_base = 0\<rparr>, c_cr0 = 1, c_cr3 = 0, c_cr4 = 1, c_efer = 0, c_esp = 0x8004\<rparr>"
  obtain l c' m' where r: "x32_init64_start (OR) 0x1000 ?d 0x200000 3 0x5000 0 0 ?c (\<lambda>_. 0) = (l, c', m')"
    by (metis surj_pair)
  show ?thesis
    using r x32_init64_start_enters [OF refl refl r] by (simp add: set_bit_eq_or)
qed

text \<open>The rest of the program once the start-up has found \<open>n\<close> APs and these have counted themselves.\<close>

lemma startap_main_after:
  assumes up: "p_init32 \<noteq> 0" "ap_procs_startup A P (e_bsp E) p_init32 p_startup (ap_g g) m w = Some (n, g1, m1, w1)"
    and ready: "n \<noteq> 0 \<Longrightarrow> ready_wait P (g_aps_counter g1) w1 = Some w2" "n = 0 \<Longrightarrow> w2 = w1"
    and pre_os: "\<not> st_post_os_launch A m1 p_startup" and m2: "m2 = st_put_number_of_processors A p_startup (n + 1) m1"
  shows "\<exists>g'. startap_main A P E p_init32 (Some d) p_startup entry_point g c m w
      = Some (x32_init64_start (BITMAP_SET E) (e_START64 E) d entry_point 0 p_startup 0 0 c m2, g', w2)
    \<and> (n \<noteq> 0 \<longrightarrow> mp_bootstrap_state (ap_g g') = MP_BOOTSTRAP_STATE_APS_ENUMERATED
         \<and> g_user_func (ap_g g') = e_start_application E \<and> g_any_data_for_user_func (ap_g g') = e_application_params E)
    \<and> start_application E g' k (application_params g') c_ap m2
        = x32_init64_start (BITMAP_SET E) (e_START64 E) d entry_point k p_startup 0 0 c_ap m2"
proof -
  show ?thesis
  proof (cases "n = 0")
    case True
    then show ?thesis
      using up ready pre_os m2
      by (simp add: startap_main_def start_application_def ucast_up_down)
  next
    case False
    then show ?thesis
      using up ready pre_os m2
      by (simp add: startap_main_def start_application_def ucast_up_down ap_procs_run_def mp_set_bootstrap_state_def Let_def word_neq_0_conv)
  qed
qed

text \<open>The boot processor waits for the APs by looking at the counter between pauses.\<close>

lemma ready_wait_ends:
  "p_ready P ((p_pause P ^^ j) v) = n \<Longrightarrow> \<exists>i. ready_wait P n v = Some ((p_pause P ^^ i) v)"
proof (induction j arbitrary: v)
  case 0
  then show ?case by (intro exI [of _ 0]) (simp add: ready_wait.simps)
next
  case (Suc j)
  then have "p_ready P ((p_pause P ^^ j) (p_pause P v)) = n" by (simp add: funpow_swap1)
  from Suc.IH [OF this] obtain i where i: "ready_wait P n (p_pause P v) = Some ((p_pause P ^^ i) (p_pause P v))" by blast
  show ?case
  proof (cases "p_ready P v = n")
    case True
    then show ?thesis by (intro exI [of _ 0]) (simp add: ready_wait.simps)
  next
    case False
    then show ?thesis using i by (intro exI [of _ "Suc i"], subst ready_wait.simps) (simp add: funpow_swap1)
  qed
qed

text \<open>
  The start-up in a pre-OS launch, on a platform as in \<open>Ap_Ipi\<close> on which resetting the counter takes no time, with the clock not yet
  calibrated: it ends, and returns the number of cells that are marked when the last delay is over.
\<close>

lemma ap_procs_startup_counts:
  fixes hi D :: nat and g :: ap_globals
  defines "M \<equiv> 1000 * hi + D"
  assumes st: "steady A P D lo hi base now log" and boot: "startap_tsc_ticks_per_msec g = 0"
    and fine: "fine_clock D lo hi [10, 10000, 200000, 150000]" and room: "now w mod 2 ^ 32 + (562 * M + 15 * D) < 2 ^ 32"
    and quiet: "\<And>r v. now (p_put_ready P r v) = now v \<and> log (p_put_ready P r v) = log v"
    and size: "\<And>v. p_presence P v \<noteq> [] \<and> length (p_presence P v) \<le> 256"
    and init: "p \<noteq> 0" "i32_low_memory_page m p \<noteq> 0"
    and m1: "m1 = setup_low_memory_ap_code (b_o_limit B) (b_o_base B) (b_ap_continue_wakeup_code B) (b_segments B) (b_gdtr B)
      (i32_low_memory_page m p) m" "\<not> st_post_os_launch A m1 p_startup"
  shows "\<exists>w1 k arr g1 T t1 t2. ap_procs_startup A P B p p_startup g m w = Some (ucast k, g1, m1, p_put_presence P arr w1)
    \<and> g_aps_counter g1 = ucast k \<and> startap_tsc_ticks_per_msec g1 = T
    \<and> bsp_enumerate_aps (p_presence P w1) = (k, arr) \<and> unat k = marked (tl (p_presence P w1))
    \<and> calibration D lo hi T \<and> paced T (now w) t1 t2 (now w1)
    \<and> log w1 = log w @ wakeup_messages A base (i32_low_memory_page m1 p) (now w) t1 t2"
proof -
  define g0 where "g0 = (fst (ap_intialize_environment P g w))\<lparr>gp_init32_data := p, gp_GDT := b_gdtr B, gp_IDT := b_idtr B\<rparr>"
  define w0 where "w0 = p_put_ready P 0 w"
  have g0: "startap_tsc_ticks_per_msec g0 = 0" using boot by (simp add: g0_def ap_intialize_environment_def)
  have w0: "now w0 = now w" "log w0 = log w" using quiet by (simp_all add: w0_def)
  have fine3: "fine_clock D lo hi [10, 10000, 200000]" using fine by (simp add: fine_clock_def)
  have fits: "now w0 + (412 * (1000 * hi + D) + 13 * D) \<le> now w + (562 * M + 15 * D)" "now w \<le> now w0"
    by (simp_all add: w0 M_def)
  obtain T wa t1 t2 where send: "send_broadcast_init_sipi A P m1 p g0 w0 = Some (g0\<lparr>startap_tsc_ticks_per_msec := T\<rparr>, wa)"
    and T: "calibration D lo hi T" and pc: "paced T (now w) t1 t2 (now wa)" and up: "now wa \<le> now w + (412 * M + 13 * D)"
    and l: "log wa = log w @ wakeup_messages A base (i32_low_memory_page m1 p) (now w) t1 t2"
    using broadcast_ends [OF st g0 fine3 room fits(2,1), of m1 p] unfolding w0 M_def by blast
  define g1 where "g1 = g0\<lparr>startap_tsc_ticks_per_msec := T\<rparr>"
  have g1: "startap_tsc_ticks_per_msec g1 = T" "T \<noteq> 0" using T by (auto simp: g1_def calibration_def)
  have D: "D \<le> ticks T 150000" using fine T by (simp add: fine_clock_def)
  have later: "now w \<le> now wa" using pc by (simp add: paced_def)
  have t: "INITIAL_WAIT_FOR_APS_TIMEOUT_IN_MILIS = 150000" by (simp add: INITIAL_WAIT_FOR_APS_TIMEOUT_IN_MILIS_def)
  obtain w1 where w1: "startap_stall_using_tsc P INITIAL_WAIT_FOR_APS_TIMEOUT_IN_MILIS g1 wa = Some (g1, w1)" "now wa \<le> now w1" "log w1 = log wa"
    using stall_ends [OF st g1 D room later] up ticks_bounds(4) [OF T] unfolding t M_def by fastforce
  obtain k arr where e: "bsp_enumerate_aps (p_presence P w1) = (k, arr)" by fastforce
  have k: "unat k = marked (tl (p_presence P w1))"
    using bsp_enumerate_aps_numbers [of "tl (p_presence P w1)" "hd (p_presence P w1)" k arr] e size [of w1]
    by (cases "p_presence P w1") auto
  have "ap_procs_startup A P B p p_startup g m w = Some (ucast k, g1\<lparr>g_aps_counter := ucast k\<rparr>, m1, p_put_presence P arr w1)"
    using init m1 e send w1(1) by (simp add: ap_procs_startup_def ap_intialize_environment_def g0_def w0_def g1_def Let_def)
  moreover have "paced T (now w) t1 t2 (now w1)" using pc w1(2) by (simp add: paced_def)
  moreover have "log w1 = log w @ wakeup_messages A base (i32_low_memory_page m1 p) (now w) t1 t2" using l w1(3) by simp
  moreover have "startap_tsc_ticks_per_msec (g1\<lparr>g_aps_counter := ucast k\<rparr>) = T" using g1(1) by simp
  ultimately show ?thesis using e k T by fastforce
qed

text \<open>
  C11. The program on all processors, for the pre-OS launch, from the state in which the image starts. On a platform as in \<open>Ap_Ipi\<close> (the clock
  not yet calibrated, the low half of its counter not wrapping around meanwhile, a local APIC that accepts every message), on which
  the APs that are numbered count themselves within some number of pauses once the messages have been sent: \<^verbatim>\<open>startap_main\<close> ends, in a world
  in which the local APIC has received INIT and the start-up message twice, with the computed delays between them; it has recorded one processor
  more than the \<open>n\<close> cells that were marked when its start-up (\<^verbatim>\<open>ap_procs_startup\<close>, which ends in the world \<open>w1\<close> but for the
  numbering of the cells) looked at them; it has the APs (when there are any) released with \<^verbatim>\<open>start_application\<close> as their function, and the
  boot processor and an AP with number \<open>k\<close> enter 64-bit mode at the monitor's entry point with the same arguments but for the number,
  which is 0 on the boot processor.
\<close>

theorem startap_main_launches:
  fixes hi D :: nat and g :: startap_globals and E :: startap_env
  defines "M \<equiv> 1000 * hi + D" and "B \<equiv> e_bsp E"
  assumes st: "steady A P D lo hi base now log" and boot: "startap_tsc_ticks_per_msec (ap_g g) = 0"
    and fine: "fine_clock D lo hi [10, 10000, 200000, 150000]" and room: "now w mod 2 ^ 32 + (562 * M + 15 * D) < 2 ^ 32"
    and quiet: "\<And>r v. now (p_put_ready P r v) = now v \<and> log (p_put_ready P r v) = log v" "\<And>cs v. log (p_put_presence P cs v) = log v"
    and size: "\<And>v. p_presence P v \<noteq> [] \<and> length (p_presence P v) \<le> 256"
    and arrive: "\<And>v i arr. length (log v) = length (log w) + 6 \<Longrightarrow> bsp_enumerate_aps (p_presence P v) = (i, arr) \<Longrightarrow> i \<noteq> 0
      \<Longrightarrow> \<exists>j. p_ready P ((p_pause P ^^ j) (p_put_presence P arr v)) = ucast i"
    and init: "p_init32 \<noteq> 0" "i32_low_memory_page m p_init32 \<noteq> 0"
    and m1: "m1 = setup_low_memory_ap_code (b_o_limit B) (b_o_base B) (b_ap_continue_wakeup_code B) (b_segments B) (b_gdtr B)
      (i32_low_memory_page m p_init32) m" "\<not> st_post_os_launch A m1 p_startup"
  shows "\<exists>w1 w2 n arr g1 g' m2 T t1 t2.
      ap_procs_startup A P B p_init32 p_startup (ap_g g) m w = Some (of_nat n, g1, m1, p_put_presence P arr w1)
    \<and> n = marked (tl (p_presence P w1)) \<and> m2 = st_put_number_of_processors A p_startup (of_nat (n + 1)) m1
    \<and> startap_main A P E p_init32 (Some d) p_startup entry_point g c m w
      = Some (x32_init64_start (BITMAP_SET E) (e_START64 E) d entry_point 0 p_startup 0 0 c m2, g', w2)
    \<and> log w2 = log w @ stamped (now w) (broadcast_message A base 0 (DELIVERY_MODE_INIT A))
        @ stamped t1 (broadcast_message A base (drop_bit 12 (i32_low_memory_page m1 p_init32)) (DELIVERY_MODE_SIPI A))
        @ stamped t2 (broadcast_message A base (drop_bit 12 (i32_low_memory_page m1 p_init32)) (DELIVERY_MODE_SIPI A))
    \<and> 1000 * lo < unat T \<and> unat T \<le> M \<and> now w + unat (stall_ticks 10000 T) \<le> t1 \<and> t1 + unat (stall_ticks 200000 T) \<le> t2
    \<and> (n \<noteq> 0 \<longrightarrow> mp_bootstrap_state (ap_g g') = MP_BOOTSTRAP_STATE_APS_ENUMERATED
         \<and> g_user_func (ap_g g') = e_start_application E \<and> g_any_data_for_user_func (ap_g g') = e_application_params E)
    \<and> start_application E g' k (application_params g') c_ap m2
        = x32_init64_start (BITMAP_SET E) (e_START64 E) d entry_point k p_startup 0 0 c_ap m2"
proof -
  obtain w1 j arr g1 T t1 t2 where up: "ap_procs_startup A P B p_init32 p_startup (ap_g g) m w = Some (ucast j, g1, m1, p_put_presence P arr w1)"
    and c1: "g_aps_counter g1 = ucast j" and e: "bsp_enumerate_aps (p_presence P w1) = (j, arr)" and n: "unat j = marked (tl (p_presence P w1))"
    and T: "calibration D lo hi T" and pc: "paced T (now w) t1 t2 (now w1)"
    and l: "log w1 = log w @ wakeup_messages A base (i32_low_memory_page m1 p_init32) (now w) t1 t2"
    using ap_procs_startup_counts [OF st boot fine room [unfolded M_def] quiet(1) size init m1] by blast
  have j: "ucast j = (of_nat (marked (tl (p_presence P w1))) :: u32)" unfolding n [symmetric] by (rule of_nat_unat [symmetric])
  have j0: "(ucast j :: u32) = 0 \<longleftrightarrow> marked (tl (p_presence P w1)) = 0"
    unfolding n [symmetric] using unat_bound(1) [of j] by (simp add: word_unat_eq_iff unsigned_ucast_eq take_bit_nat_eq_self)
  have six: "length (log w1) = length (log w) + 6" by (simp add: l wakeup_messages_def stamped_def broadcast_message_def)
  have pauses: "log ((p_pause P ^^ i) v) = log v" for i v
    using st by (induction i) (simp_all add: steady_def)
  have "\<exists>w2. ((ucast j :: u32) \<noteq> 0 \<longrightarrow> ready_wait P (g_aps_counter g1) (p_put_presence P arr w1) = Some w2)
    \<and> ((ucast j :: u32) = 0 \<longrightarrow> w2 = p_put_presence P arr w1) \<and> log w2 = log w1"
  proof (cases "j = 0")
    case True
    then show ?thesis using quiet(2) by simp
  next
    case False
    then have "(ucast j :: u32) \<noteq> 0" using j0 n by (metis unat_eq_zero)
    then show ?thesis
      using arrive [OF six e False] ready_wait_ends [of P _ "p_put_presence P arr w1" "ucast j"] c1 pauses quiet(2) by fastforce
  qed
  then obtain w2 where w2: "(ucast j :: u32) \<noteq> 0 \<Longrightarrow> ready_wait P (g_aps_counter g1) (p_put_presence P arr w1) = Some w2"
    "(ucast j :: u32) = 0 \<Longrightarrow> w2 = p_put_presence P arr w1" "log w2 = log w1"
    by blast
  let ?n = "marked (tl (p_presence P w1))"
  from startap_main_after [OF init(1) up [unfolded B_def] w2(1,2) m1(2) refl, of d entry_point c k c_ap] obtain g' where
    run: "startap_main A P E p_init32 (Some d) p_startup entry_point g c m w
      = Some (x32_init64_start (BITMAP_SET E) (e_START64 E) d entry_point 0 p_startup 0 0 c
          (st_put_number_of_processors A p_startup (ucast j + 1) m1), g', w2)"
    "(ucast j :: u32) \<noteq> 0 \<longrightarrow> mp_bootstrap_state (ap_g g') = MP_BOOTSTRAP_STATE_APS_ENUMERATED
         \<and> g_user_func (ap_g g') = e_start_application E \<and> g_any_data_for_user_func (ap_g g') = e_application_params E"
    "start_application E g' k (application_params g') c_ap (st_put_number_of_processors A p_startup (ucast j + 1) m1)
        = x32_init64_start (BITMAP_SET E) (e_START64 E) d entry_point k p_startup 0 0 c_ap
            (st_put_number_of_processors A p_startup (ucast j + 1) m1)"
    by blast
  note out = this [unfolded j0, unfolded j]
  have m2: "(of_nat ?n + 1 :: u32) = of_nat (?n + 1)" by simp
  show ?thesis
  proof (intro exI conjI)
    show "ap_procs_startup A P B p_init32 p_startup (ap_g g) m w = Some (of_nat ?n, g1, m1, p_put_presence P arr w1)"
      using up unfolding j .
    show "startap_main A P E p_init32 (Some d) p_startup entry_point g c m w
      = Some (x32_init64_start (BITMAP_SET E) (e_START64 E) d entry_point 0 p_startup 0 0 c
          (st_put_number_of_processors A p_startup (of_nat (?n + 1)) m1), g', w2)"
      using out(1) unfolding m2 .
    show "log w2 = log w @ stamped (now w) (broadcast_message A base 0 (DELIVERY_MODE_INIT A))
        @ stamped t1 (broadcast_message A base (drop_bit 12 (i32_low_memory_page m1 p_init32)) (DELIVERY_MODE_SIPI A))
        @ stamped t2 (broadcast_message A base (drop_bit 12 (i32_low_memory_page m1 p_init32)) (DELIVERY_MODE_SIPI A))"
      using l w2(3) by (simp add: wakeup_messages_def)
    show "1000 * lo < unat T" "unat T \<le> M" using T by (simp_all add: calibration_def M_def)
    show "now w + unat (stall_ticks 10000 T) \<le> t1" "t1 + unat (stall_ticks 200000 T) \<le> t2" using pc by (simp_all add: paced_def)
    show "?n \<noteq> 0 \<longrightarrow> mp_bootstrap_state (ap_g g') = MP_BOOTSTRAP_STATE_APS_ENUMERATED
         \<and> g_user_func (ap_g g') = e_start_application E \<and> g_any_data_for_user_func (ap_g g') = e_application_params E"
      using out(2) .
    show "start_application E g' k (application_params g') c_ap (st_put_number_of_processors A p_startup (of_nat (?n + 1)) m1)
        = x32_init64_start (BITMAP_SET E) (e_START64 E) d entry_point k p_startup 0 0 c_ap
            (st_put_number_of_processors A p_startup (of_nat (?n + 1)) m1)"
      using out(3) unfolding m2 .
  qed (rule refl)+
qed

text \<open>
  An error that is not handled: when the low-memory page is missing, \<^verbatim>\<open>ap_procs_startup\<close> returns \<open>- 1\<close>, which
  \<^verbatim>\<open>startap_main\<close> takes for a number of APs. In a pre-OS launch it records 0 processors, and it waits for the APs: with the
  counters as they are at the start of the image (both 0) it goes on and starts the monitor with that record.
\<close>

theorem startap_main_ignores_error:
  assumes "p_init32 \<noteq> 0" "i32_low_memory_page m p_init32 = 0"
    and "g_aps_counter (ap_g g) = 0" "p_ready P w = 0" "\<not> st_post_os_launch A m p_startup"
  shows "\<exists>g'. startap_main A P E p_init32 (Some d) p_startup entry_point g c m w
      = Some (x32_init64_start (BITMAP_SET E) (e_START64 E) d entry_point 0 p_startup 0 0 c
          (st_put_number_of_processors A p_startup 0 m), g', w)"
proof -
  have wait: "ready_wait P 0 w = Some w" using assms(4) by (subst ready_wait.simps) simp
  show ?thesis
    using assms wait
    by (simp add: startap_main_def ap_procs_startup_def ap_procs_run_def mp_set_bootstrap_state_def start_application_def ucast_up_down
        Let_def word_neq_0_conv)
qed

section \<open>A run\<close>

definition demo_bsp :: bsp_env where
  "demo_bsp = \<lparr>b_segments = \<lparr>cs_value = 0x10, ds_value = 0x18, es_value = 0x18, gs_value = 0x18, fs_value = 0x18, ss_value = 0x18\<rparr>,
     b_gdtr = \<lparr>g_limit = 15, g_base = 0x30000\<rparr>, b_idtr = \<lparr>g_limit = 0, g_base = 0\<rparr>, b_o_limit = 0, b_o_base = 2,
     b_ap_continue_wakeup_code = 0x12345678\<rparr>"

definition demo_env :: startap_env where
  "demo_env = \<lparr>e_bsp = demo_bsp, e_start_application = 0x2100, e_application_params = 0x3000, e_START64 = 0x2200, BITMAP_SET = (OR)\<rparr>"

definition demo_startap :: startap_globals where
  "demo_startap = \<lparr>ap_g = demo_globals, application_params = \<lparr>any_data1 = 0, any_data2 = 0, any_data3 = 0, ep = 0\<rparr>, gp_init64 = None\<rparr>"

definition demo_init64 :: init64_struct where
  "demo_init64 = \<lparr>i64_cs = 8, i64_gdtr = \<lparr>g_limit = 23, g_base = 0x7000\<rparr>, i64_efer = 0, i64_cr3 = 0x9000\<rparr>"

definition demo_cpu :: cpu where
  "demo_cpu = \<lparr>c_gdtr = \<lparr>g_limit = 0, g_base = 0\<rparr>, c_cr0 = 1, c_cr3 = 0, c_cr4 = 0, c_efer = 0, c_esp = 0xA000\<rparr>"

text \<open>The platform of \<open>Ap_Ipi\<close> with one AP, which has counted itself in time.\<close>

definition one_ap_platform :: "(nat \<times> (nat \<times> u32 \<times> u32) list) platform" where
  "one_ap_platform = demo_platform\<lparr>p_presence := (\<lambda>_. [0, 1]), p_ready := (\<lambda>_. 1)\<rparr>"

theorem startap_main_launches_witness:
  "\<exists>l g' w2. startap_main std_apic one_ap_platform demo_env 0x5000 (Some demo_init64) 0x6000 0x200000 demo_startap demo_cpu
        ((\<lambda>_. 0)(0x5001 := 0x80)) (0, []) = Some (l, g', w2) \<and> g_user_func (ap_g g') = 0x2100 \<and> length (snd w2) = 6"
proof -
  let ?m = "(\<lambda>_. 0)(0x5001 := 0x80) :: mem" and ?P = one_ap_platform
  have st: "steady std_apic ?P 1 100 100 0xFEE00900 fst snd"
    using demo_steady by (simp add: steady_def one_ap_platform_def)
  have pr: "p_presence ?P v = [0, 1]" "p_put_ready ?P r v = v" "p_put_presence ?P a v = v" "p_ready ?P v = 1" for v r a
    by (simp_all add: one_ap_platform_def demo_platform_def)
  have en: "bsp_enumerate_aps [0, 1] = (1, [0, 1])" by (simp add: bsp_enumerate_aps_def enumerate_cell_def)
  have page: "i32_low_memory_page ?m 0x5000 = 0x8000" by (simp add: i32_low_memory_page_def mem_eval)
  have env: "e_bsp demo_env = demo_bsp" "e_start_application demo_env = 0x2100" "ap_g demo_startap = demo_globals"
    "startap_tsc_ticks_per_msec demo_globals = 0" "\<not> st_post_os_launch std_apic m' a" for m' a
    by (simp_all add: demo_env_def demo_startap_def demo_globals_def std_apic_def)
  show ?thesis
    using startap_main_launches [OF st, where g = demo_startap and E = demo_env and w = "(0, [])" and m = ?m and ?p_init32.0 = "0x5000"
        and p_startup = "0x6000" and d = demo_init64 and entry_point = "0x200000" and c = demo_cpu and k = 0 and c_ap = demo_cpu and ?m1.0 = "setup_low_memory_ap_code
          (b_o_limit demo_bsp) (b_o_base demo_bsp) (b_ap_continue_wakeup_code demo_bsp) (b_segments demo_bsp) (b_gdtr demo_bsp) 0x8000 ?m"]
      demo_fine
    by (auto simp: env pr en page stamped_def broadcast_message_def simp del: split_paired_Ex)
qed

theorem startap_main_ignores_error_witness:
  "\<exists>l g'. startap_main std_apic demo_platform demo_env 0x5000 (Some demo_init64) 0x6000 0x200000 demo_startap demo_cpu
        (\<lambda>_. 0) (0, []) = Some (l, g', (0, []))"
proof -
  have "\<exists>g'. startap_main std_apic demo_platform demo_env 0x5000 (Some demo_init64) 0x6000 0x200000 demo_startap demo_cpu
        (\<lambda>_. 0) (0, [])
      = Some (x32_init64_start (BITMAP_SET demo_env) (e_START64 demo_env) demo_init64 0x200000 0 0x6000 0 0 demo_cpu
          (st_put_number_of_processors std_apic 0x6000 0 (\<lambda>_. 0)), g', (0, []))"
    by (rule startap_main_ignores_error)
      (simp_all add: i32_low_memory_page_def mem_eval demo_startap_def demo_globals_def std_apic_def demo_platform_def)
  then show ?thesis by blast
qed

end
