(* ===== verification/Xmon_Loader.thy ===== *)
theory Xmon_Loader
  imports Elf_Ld Linux_Loader Idt Gdt64 Paging Startap
begin

text \<open>
  \<^verbatim>\<open>pre_os/xmon_loader/xmon_loader.c\<close>: the loader proper. It composes the heap, the interrupt table, the memory map, the image
  loader, the guest environment and the tables for 64-bit mode, and then calls the entry point of \<^verbatim>\<open>startap\<close>.
\<close>

section \<open>Environment\<close>

text \<open>
  The addresses of the locals and statics that are accessed through pointers; the layout of the structures of the core
  (\<^verbatim>\<open>mon_startup_struct_t\<close> with its array of \<^verbatim>\<open>mon_memory_layout_t\<close>, \<^verbatim>\<open>mon_guest_startup_t\<close>, the register block of the guest), each
  field by its assignment; the macros of the core; the parameters of the parts that are composed; and the processor: the
  GDTR and the instruction \<^verbatim>\<open>cpuid\<close>.
\<close>

record xmon_env =
  a_heap_base :: u32
  a_heap_size :: u32
  a_e820_addr :: u32
  a_call_xmon :: u32
  a_call_startap :: u32
  a_env :: u32
  a_g0 :: u32
  a_init32 :: u32
  a_xmon_idt :: u32
  a_idt_descriptor :: u32
  sizeof_g0 :: u32
  sizeof_env :: u32
  put_cpu_states_array :: "u32 \<Rightarrow> u32 \<Rightarrow> mem \<Rightarrow> mem"
  put_cpu_states_count :: "u32 \<Rightarrow> u32 \<Rightarrow> mem \<Rightarrow> mem"
  put_devices_array :: "u32 \<Rightarrow> u32 \<Rightarrow> mem \<Rightarrow> mem"
  put_primary_guest :: "u32 \<Rightarrow> u64 \<Rightarrow> mem \<Rightarrow> mem"
  put_physical_memory_layout_E820 :: "u32 \<Rightarrow> u64 \<Rightarrow> mem \<Rightarrow> mem"
  vmem_of :: "u32 \<Rightarrow> u32"
  thunk_image :: nat
  mon_image :: nat
  put_base_address :: "u32 \<Rightarrow> nat \<Rightarrow> u32 \<Rightarrow> mem \<Rightarrow> mem"
  put_total_size :: "u32 \<Rightarrow> nat \<Rightarrow> u32 \<Rightarrow> mem \<Rightarrow> mem"
  put_image_size :: "u32 \<Rightarrow> nat \<Rightarrow> u64 \<Rightarrow> mem \<Rightarrow> mem"
  put_entry_point :: "u32 \<Rightarrow> nat \<Rightarrow> u64 \<Rightarrow> mem \<Rightarrow> mem"
  MON_PAGE_ALIGN_4K :: "u64 \<Rightarrow> u64"
  ALIGN_FORWARD :: "u32 \<Rightarrow> u32 \<Rightarrow> u32"
  x_e820 :: e820_env
  x_elf :: elf_env
  x_load_info :: elf_load_info
  x_image_info :: image_info
  x_load_size :: "u64 \<Rightarrow> u64"
  x_desc :: desc_env
  x_em64t :: em64t_env
  x_o_rip :: u32
  x_o_rcx :: u32
  x_primary_guest_entry :: u32
  x_code :: "handler \<Rightarrow> u32"
  x_debug :: bool
  x_gdtr :: gdtr
  x_cpuid :: "u32 \<Rightarrow> u32 \<times> u32 \<times> u32 \<times> u32"

section \<open>Operations\<close>

definition setup_env :: "xmon_env \<Rightarrow> u32 \<Rightarrow> image_info \<Rightarrow> image_info \<Rightarrow> u64 \<Rightarrow> mem \<Rightarrow> u32 \<times> mem" where
  "setup_env X td startap xmon call_startap m =
     (let g0 = a_g0 X; env = a_env X;
          m = mon_memcpy g0 (td + guest1_start m td * 512) (sizeof_g0 X) m;
          m = put_cpu_states_array X g0 (GUEST1_BASE m td) m;
          m = put_cpu_states_count X g0 1 m;
          m = put_devices_array X g0 0 m;
          m = mon_memcpy env (td + startup_start m td * 512) (sizeof_env X) m;
          m = put_primary_guest X env (ucast g0) m;
          vmem = vmem_of X env;
          m = put_base_address X vmem (thunk_image X) (STARTAP_BASE m td) m;
          m = put_total_size X vmem (thunk_image X) STARTAP_SIZE m;
          m = put_image_size X vmem (thunk_image X) (MON_PAGE_ALIGN_4K X (load_size startap)) m;
          m = put_entry_point X vmem (thunk_image X) call_startap m;
          m = put_base_address X vmem (mon_image X) (XMON_BASE m td) m;
          m = put_total_size X vmem (mon_image X) (XMON_SIZE m td) m;
          m = put_image_size X vmem (mon_image X) (MON_PAGE_ALIGN_4K X (load_size xmon)) m
      in (env, m))"

text \<open>The number of logical processors less one, from bits 16 to 23 of \<^verbatim>\<open>ebx\<close>, but not below zero.\<close>

definition max_aps :: "xmon_env \<Rightarrow> nat" where
  "max_aps X = nat (int (unat (drop_bit 16 (cpuid (x_cpuid X) 1 ! 1) AND 0xff)) - 1)"

text \<open>The stacks of the APs \<open>i\<close>, \<dots>, \<open>i + n - 1\<close>; false when the heap is exhausted, upon which the loader returns.\<close>

fun esp_loop :: "xmon_env \<Rightarrow> nat \<Rightarrow> nat \<Rightarrow> loader_state \<Rightarrow> bool \<times> loader_state" where
  "esp_loop X i 0 s = (True, s)"
| "esp_loop X i (Suc n) s =
     (let (buf, s) = mon_page_alloc (ALIGN_FORWARD X) 2 s
      in if buf = 0 then (False, s)
         else esp_loop X (Suc i) n (s\<lparr>mem := store32 (a_init32 X + 8 + of_nat (4 * i)) (buf + PAGE_4KB_SIZE (x_em64t X) * 2) (mem s)\<rparr>))"

text \<open>
  What the loader ends with: it returns to the starter (with its state), or it calls \<^verbatim>\<open>startap\<close> with the four arguments. The
  remaining outcome, a loop without end in an assertion, is \<open>None\<close>.
\<close>

datatype loader_outcome =
    Returned loader_state
  | Calls_startap (entry: u32) (init32_arg: u32) (init64_arg: init64_struct) (env_arg: u32) (xmon_entry: u32) (final: x64_state)

text \<open>The last part, from the number of processors to the call.\<close>

definition setup_and_call :: "xmon_env \<Rightarrow> u64 \<Rightarrow> u64 \<Rightarrow> u32 \<Rightarrow> x64_state \<Rightarrow> loader_outcome option" where
  "setup_and_call X call_startap call_xmon mon_env x =
     (let s = ld x; num_of_aps = max_aps X;
          m = store32 (a_init32 X) 0x8000 (mem s);
          m = store16 (a_init32 X + 4) (of_nat num_of_aps) m
      in case esp_loop X 0 num_of_aps (s\<lparr>mem := m\<rparr>) of
           (False, s) \<Rightarrow> Some (Returned s)
         | (True, s) \<Rightarrow> do {
             x \<leftarrow> x32_gdt64_setup (x_desc X) (ALIGN_FORWARD X) (x_gdtr X) (x\<lparr>ld := s\<rparr>);
             let i64_gdtr' = x32_gdt64_get_gdtr x;
             x \<leftarrow> x32_pt64_setup_paging (x_em64t X) (ALIGN_FORWARD X) (1024 * 4 * 0x100000) x;
             let init64 = \<lparr>i64_cs = x32_gdt64_get_cs x, i64_gdtr = i64_gdtr', i64_efer = 0, i64_cr3 = x32_pt64_get_cr3 x\<rparr>;
             Some (Calls_startap (ucast call_startap) (if num_of_aps \<noteq> 0 then a_init32 X else 0) init64 mon_env (ucast call_xmon) x) })"

text \<open>The image at \<open>p\<close>: its description is checked for the machine and a size, then it is loaded.\<close>

definition image_acceptable :: "image_machine \<Rightarrow> image_info_status \<times> image_info \<Rightarrow> bool" where
  "image_acceptable machine = (\<lambda>(status, hdr). \<not> (status \<noteq> IMAGE_INFO_OK \<or> info_machine hdr \<noteq> machine \<or> load_size hdr = 0))"

text \<open>The first component of the result is the IDT register that \<^verbatim>\<open>setup_idt\<close> loads.\<close>

definition xmon_loader :: "xmon_env \<Rightarrow> u32 \<Rightarrow> x64_state \<Rightarrow> (gdtr \<times> loader_outcome) option" where
  "xmon_loader X td x =
     (let s = ld x;
          s = s\<lparr>mem := store32 (a_heap_base X) (XMON_LOADER_HEAP_BASE (mem s) td) (mem s)\<rparr>;
          s = s\<lparr>mem := store32 (a_heap_size X) XMON_LOADER_HEAP_SIZE (mem s)\<rparr>;
          s = initialize_memory_manager (a_heap_base X) (a_heap_size X) s;
          (s, idtr) = setup_idt (x_debug X) (a_xmon_idt X) (a_idt_descriptor X) (x_code X) s
      in do {
        (r, s) \<leftarrow> get_e820_table_from_multiboot (x_e820 X) (ALIGN_FORWARD X) td (a_e820_addr X) s;
        if r \<noteq> 0 then Some (idtr, Returned s)
        else do {
          let p_xmon = td + xmon_start (mem s) td * 512;
          info \<leftarrow> get_image_info (x_elf X) (x_load_info X) (x_load_size X) p_xmon (XMON_SIZE (mem s) td) (x_image_info X) (mem s);
          if \<not> image_acceptable IMAGE_MACHINE_EM64T info then Some (idtr, Returned s)
          else do {
            let xmon_hdr = snd info;
            (ok, s) \<leftarrow> load_image (x_elf X) (x_load_info X) p_xmon (XMON_BASE (mem s) td) (XMON_SIZE (mem s) td) (a_call_xmon X) s;
            if \<not> ok then Some (idtr, Returned s)
            else do {
              let p_startap = td + startap_start (mem s) td * 512;
              info \<leftarrow> get_image_info (x_elf X) (x_load_info X) (x_load_size X) p_startap STARTAP_SIZE (x_image_info X) (mem s);
              if \<not> image_acceptable IMAGE_MACHINE_X86 info then Some (idtr, Returned s)
              else do {
                let startap_hdr = snd info;
                (ok, s) \<leftarrow> load_image (x_elf X) (x_load_info X) p_startap (STARTAP_BASE (mem s) td) STARTAP_SIZE (a_call_startap X) s;
                if \<not> ok then Some (idtr, Returned s)
                else
                  let s = s\<lparr>mem := setup_primary_guest_env (x_o_rip X) (x_o_rcx X) (x_primary_guest_entry X) td (mem s)\<rparr>;
                      (mon_env, m) = setup_env X td startap_hdr xmon_hdr (load64 (mem s) (a_call_startap X)) (mem s);
                      m = put_physical_memory_layout_E820 X mon_env (load64 m (a_e820_addr X)) m
                  in do {
                    out \<leftarrow> setup_and_call X (load64 m (a_call_startap X)) (load64 m (a_call_xmon X)) mon_env
                      (x\<lparr>ld := s\<lparr>mem := m\<rparr>\<rparr>);
                    Some (idtr, out) } }}}}})"

section \<open>Stacks\<close>

lemma two_pages_step:
  assumes af: "ALIGN_FORWARD_ok af" and room: "page_room (2 + k) s" and top: "unat (heap_tops s) + 12287 < 2 ^ 32"
  obtains s' where "mon_page_alloc af 2 s = (page_base s, s')" and "page_base s \<noteq> 0" and "4096 dvd unat (page_base s)"
    and "unat (page_base s) + 4096 * (2 + k) \<le> unat (heap_tops s)"
    and "page_room k s'" and "page_base s' = page_base s + 8192" and "heap_tops s' = heap_tops s"
    and "\<And>x. mem s' x = (if in_range (page_base s) 8192 x then 0 else mem s x)"
proof -
  let ?p = "page_base s"
  obtain p s' where a: "mon_page_alloc af 2 s = (p, s')" by fastforce
  have h: "heap_inv s" "unat (heap_tops s) + 4096 * unat (2 :: u32) + 4095 < 2 ^ 32"
    "round_page (unat (heap_current s)) + 4096 * unat (2 :: u32) \<le> unat (heap_tops s)"
    using room top by (auto simp: page_room_def)
  have g: "granted (round_page (unat (heap_current s))) 8192 s p s'"
    using page_alloc.room [OF af h(1,2,3) a] by simp
  have up: "unat ?p = round_page (unat (heap_current s))" by (rule page_base_unat [OF room])
  then have p: "p = ?p" using g by (simp add: granted_def word_unat_eq_iff)
  have hc: "unat (heap_current s') = unat ?p + 8192" using g up by (simp add: granted_def)
  have dv: "4096 dvd unat ?p" using up round_page_bounds(3) by simp
  have "4096 dvd unat ?p + 8192" by (rule dvd_add [OF dv]) simp
  then have ri: "round_page (unat (heap_current s')) = unat ?p + 8192" unfolding hc by (rule round_page_idem)
  have tops: "heap_tops s' = heap_tops s" using g by (simp add: granted_def)
  show thesis
  proof (rule that)
    show "mon_page_alloc af 2 s = (?p, s')" using a p by simp
    show "?p \<noteq> 0" using up heap_inv_unat [OF h(1)] round_page_bounds(1) [of "unat (heap_current s)"] by auto
    show "page_room k s'" using room page_alloc.alloc_inv(1) [OF af h(1,2) a] ri tops up by (simp add: page_room_def)
    show "page_base s' = ?p + 8192" using ri by (simp add: page_base_def up)
    show "mem s' x = (if in_range ?p 8192 x then 0 else mem s x)" for x
      using g by (simp add: granted_def fill_bytes_apply p)
    show "unat ?p + 4096 * (2 + k) \<le> unat (heap_tops s)" using room up by (simp add: page_room_def)
  qed (use dv tops in simp_all)
qed

text \<open>
  With room for the stacks and the table of stack pointers (at \<open>t\<close>, of \<open>M\<close> words) elsewhere, the loop succeeds: the stacks are
  consecutive blocks of two pages.
\<close>

lemma esp_loop_ok:
  fixes X :: xmon_env
  defines "t \<equiv> a_init32 X + 8"
  assumes af: "ALIGN_FORWARD_ok (ALIGN_FORWARD X)" and pg: "PAGE_4KB_SIZE (x_em64t X) = 4096" and M: "4 * M < 2 ^ 32"
  shows "page_room (2 * n + k) s \<Longrightarrow> unat (heap_tops s) + 12287 < 2 ^ 32 \<Longrightarrow> i + n \<le> M \<Longrightarrow>
    (\<And>x. in_range (page_base s) (8192 * n) x \<Longrightarrow> \<not> in_range t (4 * M) x) \<Longrightarrow>
    \<exists>s'. esp_loop X i n s = (True, s') \<and> page_room k s' \<and> page_base s' = page_base s + of_nat (8192 * n)
      \<and> (\<forall>j < n. load32 (mem s') (t + of_nat (4 * (i + j))) = page_base s + of_nat (8192 * Suc j))
      \<and> (\<forall>x. \<not> in_range (page_base s) (8192 * n) x \<longrightarrow> \<not> in_range (t + of_nat (4 * i)) (4 * n) x \<longrightarrow> mem s' x = mem s x)"
proof (induction n arbitrary: i s)
  case 0
  then show ?case by simp
next
  case (Suc n)
  let ?p = "page_base s" and ?w = "t + of_nat (4 * i)"
  have room: "page_room (2 + (2 * n + k)) s" using Suc.prems(1) by simp
  obtain s1 where s1: "mon_page_alloc (ALIGN_FORWARD X) 2 s = (?p, s1)" "?p \<noteq> 0"
    and lim: "unat ?p + 4096 * (2 + (2 * n + k)) \<le> unat (heap_tops s)"
    and r1: "page_room (2 * n + k) s1" "page_base s1 = ?p + 8192" "heap_tops s1 = heap_tops s"
    and m1: "\<And>x. mem s1 x = (if in_range ?p 8192 x then 0 else mem s x)"
    using two_pages_step [OF af room Suc.prems(2)] by metis
  define s2 where "s2 = s1\<lparr>mem := store32 ?w (?p + 8192) (mem s1)\<rparr>"
  have bnd: "8192 * Suc n < 2 ^ 32" using lim unat_bound(3) [of "heap_tops s"] by simp
  have sub: "in_range ?p (8192 * Suc n) x" if "in_range (?p + 8192) (8192 * n) x" for x
    using inside_in_range [OF _ that, of ?p "8192 * Suc n"] by (simp add: inside_def)
  have e: "esp_loop X i (Suc n) s = esp_loop X (Suc i) n s2"
    using s1 pg by (simp add: s2_def t_def)
  have "\<exists>s'. esp_loop X (Suc i) n s2 = (True, s') \<and> page_room k s' \<and> page_base s' = page_base s2 + of_nat (8192 * n)
      \<and> (\<forall>j < n. load32 (mem s') (t + of_nat (4 * (Suc i + j))) = page_base s2 + of_nat (8192 * Suc j))
      \<and> (\<forall>x. \<not> in_range (page_base s2) (8192 * n) x \<longrightarrow> \<not> in_range (t + of_nat (4 * Suc i)) (4 * n) x \<longrightarrow> mem s' x = mem s2 x)"
  proof (rule Suc.IH)
    show "page_room (2 * n + k) s2" using r1(1) by (simp add: s2_def page_room_def heap_inv_def)
    show "\<not> in_range t (4 * M) x" if "in_range (page_base s2) (8192 * n) x" for x
      using Suc.prems(4) [OF sub] that r1(2) by (simp add: s2_def page_base_def)
  qed (use Suc.prems r1 in \<open>simp_all add: s2_def\<close>)
  moreover have pb: "page_base s2 = ?p + 8192" using r1(2) by (simp add: s2_def page_base_def)
  ultimately obtain s' where s': "esp_loop X (Suc i) n s2 = (True, s')" "page_room k s'" "page_base s' = ?p + 8192 + of_nat (8192 * n)"
    and words: "\<And>j. j < n \<Longrightarrow> load32 (mem s') (t + of_nat (4 * (Suc i + j))) = ?p + 8192 + of_nat (8192 * Suc j)"
    and fr: "\<And>x. \<not> in_range (?p + 8192) (8192 * n) x \<Longrightarrow> \<not> in_range (t + of_nat (4 * Suc i)) (4 * n) x \<Longrightarrow> mem s' x = mem s2 x"
    by auto
  have u: "unat (of_nat (4 * i) :: u32) = 4 * i" using M Suc.prems(3) by (intro unat_of_nat32) simp
  have tab: "in_range t (4 * M) x" if "in_range ?w 4 x" for x
    by (rule inside_in_range [OF _ that]) (use Suc.prems(3) u in \<open>simp add: inside_def del: of_nat_mult\<close>)
  have first: "load32 (mem s') ?w = ?p + 8192"
  proof -
    have "mem s' x = mem s2 x" if "in_range ?w 4 x" for x
    proof (rule fr)
      show "\<not> in_range (?p + 8192) (8192 * n) x" using sub Suc.prems(4) tab [OF that] by blast
      show "\<not> in_range (t + of_nat (4 * Suc i)) (4 * n) x"
        by (rule table_words_apart [OF that]) (use M Suc.prems(3) in simp_all)
    qed
    then have "load32 (mem s') ?w = load32 (mem s2) ?w" by (rule load_cong(2))
    then show ?thesis by (simp add: s2_def)
  qed
  have "load32 (mem s') (t + of_nat (4 * (i + j))) = ?p + of_nat (8192 * Suc j)" if "j < Suc n" for j
    using that first words [of "j - 1"] by (cases j) (simp_all add: algebra_simps)
  moreover have "mem s' x = mem s x"
    if out: "\<not> in_range ?p (8192 * Suc n) x" "\<not> in_range ?w (4 * Suc n) x" for x
  proof -
    have "\<not> in_range ?p 8192 x" using out(1) in_range_mono [of ?p 8192 x "8192 * Suc n"] by auto
    moreover have "\<not> in_range ?w 4 x" using out(2) in_range_mono [of ?w 4 x "4 * Suc n"] by auto
    moreover have "\<not> in_range (t + of_nat (4 * Suc i)) (4 * n) x"
      using out(2) inside_in_range [of "t + of_nat (4 * Suc i)" "4 * n" ?w "4 * Suc n" x] by (auto simp: inside_def)
    moreover have "\<not> in_range (?p + 8192) (8192 * n) x" using sub out(1) by blast
    ultimately show ?thesis using fr [of x] m1 [of x] by (simp add: s2_def store_other)
  qed
  ultimately show ?case using e s' by (auto simp: algebra_simps)
qed

section \<open>The tables of the last part\<close>

lemma sep_sub:
  fixes a b d :: u32
  assumes "sep a n b k" and "unat d + n' \<le> n" "0 < n'"
  shows "sep (a + d) n' b k"
proof -
  have "a \<noteq> b" using assms by (auto simp: sep_def)
  then have "unat (a - b) + unat (b - a) = 2 ^ 32"
    using unat_sub_if' [of a b] unat_sub_if' [of b a] unat_bound(3) [of a] unat_bound(3) [of b]
    by (auto simp: word_unat_eq_iff split: if_splits)
  moreover have "n \<le> unat (b - a)" "k \<le> unat (a - b)" using assms(1) by (simp_all add: sep_def)
  moreover have "unat (b - a - d) = unat (b - a) - unat d"
    using calculation assms by (intro unat_sub) (simp add: word_le_nat_alt)
  moreover have "unat (a - b + d) = unat (a - b) + unat d"
    using calculation assms by (intro unat_add_lem [THEN iffD1]) simp
  ultimately show ?thesis using assms by (simp add: sep_def algebra_simps)
qed

lemma max_aps_bound: "max_aps X \<le> 254"
proof -
  have "drop_bit 16 (cpuid (x_cpuid X) 1 ! 1) AND 0xff \<le> 0xff" by (rule word_and_le1)
  then have "unat (drop_bit 16 (cpuid (x_cpuid X) 1 ! 1) AND 0xff) \<le> 255" by (simp add: word_le_nat_alt)
  then show ?thesis by (simp only: max_aps_def)
qed

text \<open>The fields of \<^verbatim>\<open>init32\<close> depend on its first \<open>8 + 4 * n\<close> bytes.\<close>

lemma init32_cong:
  assumes "\<And>y. in_range I (8 + 4 * n) y \<Longrightarrow> m' y = m y" and "n \<le> 254"
  shows "i32_low_memory_page m' I = i32_low_memory_page m I" "i32_num_of_aps m' I = i32_num_of_aps m I"
    and "j < n \<Longrightarrow> i32_esp m' I j = i32_esp m I j"
proof -
  have sub: "m' y = m y" if "in_range (I + d) l y" "unat d + l \<le> 8 + 4 * n" for d l y
    by (rule assms(1), rule inside_in_range [OF _ that(1)]) (use that(2) in \<open>simp add: inside_def\<close>)
  show "i32_low_memory_page m' I = i32_low_memory_page m I"
    unfolding i32_low_memory_page_def by (rule load_cong(2)) (use sub [of 0 4] in simp)
  show "i32_num_of_aps m' I = i32_num_of_aps m I"
    unfolding i32_num_of_aps_def by (rule load_cong(1)) (use sub [of 4 2] in simp)
  assume j: "j < n"
  have "unat (8 + of_nat (4 * j) :: u32) = 8 + 4 * j"
    using j assms(2) by (simp add: unat_word_ariths(1) unat_of_nat32 del: of_nat_mult)
  then show "i32_esp m' I j = i32_esp m I j"
    unfolding i32_esp_def
    by (intro load_cong(2)) (use j sub [of "8 + of_nat (4 * j)" 4] in \<open>simp add: add.assoc del: of_nat_mult\<close>)
qed

lemma load32_store16_apart: "load32 (store16 (a + 4) v m) a = load32 m a" for a :: u32
proof (rule load_cong(2), rule store_other(2))
  show "\<not> in_range (a + 4) 2 y" if "in_range a 4 y" for y
    using in_range_split(2) [of 4 2 a y] that by auto
qed

lemma stacks_ready:
  fixes X :: xmon_env and s :: loader_state
  defines "n \<equiv> max_aps X" and "B \<equiv> page_base s" and "I \<equiv> a_init32 X"
  assumes af: "ALIGN_FORWARD_ok (ALIGN_FORWARD X)" and pg: "PAGE_4KB_SIZE (x_em64t X) = 4096"
    and room: "page_room (2 * n + k) s" "unat (heap_tops s) + 12287 < 2 ^ 32" and apart: "sep B (8192 * n) I (8 + 4 * n)"
    and m0: "m0 = store16 (I + 4) (of_nat n) (store32 I 0x8000 (mem s))"
  obtains s' where "esp_loop X 0 n (s\<lparr>mem := m0\<rparr>) = (True, s')" "page_room k s'" "page_base s' = B + of_nat (8192 * n)"
    and "\<forall>j < n. i32_esp (mem s') I j = B + of_nat (8192 * Suc j)"
    and "i32_low_memory_page (mem s') I = 0x8000" "unat (i32_num_of_aps (mem s') I) = n"
    and "\<forall>y. \<not> in_range B (8192 * n) y \<longrightarrow> \<not> in_range I (8 + 4 * n) y \<longrightarrow> mem s' y = mem s y"
proof -
  have n: "n \<le> 254" unfolding n_def by (rule max_aps_bound)
  let ?s = "s\<lparr>mem := m0\<rparr>"
  have b0: "page_base ?s = B" "page_room (2 * n + k) ?s"
    using room by (simp_all add: B_def page_base_def page_room_def heap_inv_def)
  have tab: "in_range I (8 + 4 * n) y" if "in_range (I + d) l y" "unat d + l \<le> 8 + 4 * n" for d l y
    by (rule inside_in_range [OF _ that(1)]) (use that(2) in \<open>simp add: inside_def\<close>)
  have hI: "\<not> in_range I (8 + 4 * n) y" if "in_range B (8192 * n) y" for y
    using sep_in_range [OF apart, of y] that by blast
  have "\<exists>s'. esp_loop X 0 n ?s = (True, s') \<and> page_room k s' \<and> page_base s' = page_base ?s + of_nat (8192 * n)
      \<and> (\<forall>j < n. load32 (mem s') (a_init32 X + 8 + of_nat (4 * (0 + j))) = page_base ?s + of_nat (8192 * Suc j))
      \<and> (\<forall>y. \<not> in_range (page_base ?s) (8192 * n) y \<longrightarrow> \<not> in_range (a_init32 X + 8 + of_nat (4 * 0)) (4 * n) y \<longrightarrow> mem s' y = mem ?s y)"
  proof (rule esp_loop_ok [OF af pg])
    show "\<not> in_range (a_init32 X + 8) (4 * n) y" if "in_range (page_base ?s) (8192 * n) y" for y
      using hI [of y] tab [of 8 "4 * n" y] that b0 by (auto simp: I_def)
  qed (use b0 room(2) n in simp_all)
  then obtain s' where s': "esp_loop X 0 n ?s = (True, s')" "page_room k s'" "page_base s' = B + of_nat (8192 * n)"
    and esp: "\<And>j. j < n \<Longrightarrow> load32 (mem s') (I + 8 + of_nat (4 * j)) = B + of_nat (8192 * Suc j)"
    and fr: "\<And>y. \<not> in_range B (8192 * n) y \<Longrightarrow> \<not> in_range (I + 8) (4 * n) y \<Longrightarrow> mem s' y = m0 y"
    using b0 by (auto simp: I_def)
  have hd: "mem s' y = m0 y" if "in_range (I + d) l y" "unat d + l \<le> 8" for d l y
  proof (rule fr)
    show "\<not> in_range B (8192 * n) y" using hI [of y] tab [OF that(1)] that(2) by auto
    show "\<not> in_range (I + 8) (4 * n) y" using blocks_apart [of I 8 "4 * n" y d l] that n by auto
  qed
  show thesis
  proof (rule that [OF s'])
    show "i32_low_memory_page (mem s') I = 0x8000"
      using load_cong(2) [of I "mem s'" m0] hd [of 0 4] by (simp add: i32_low_memory_page_def m0 load32_store16_apart)
    have "load16 (mem s') (I + 4) = load16 m0 (I + 4)" using load_cong(1) [of "I + 4" "mem s'" m0] hd [of 4 2] by simp
    then show "unat (i32_num_of_aps (mem s') I) = n"
      using n by (simp add: i32_num_of_aps_def m0 unsigned_of_nat take_bit_nat_eq_self)
    show "\<forall>y. \<not> in_range B (8192 * n) y \<longrightarrow> \<not> in_range I (8 + 4 * n) y \<longrightarrow> mem s' y = mem s y"
    proof (intro allI impI)
      fix y
      assume y: "\<not> in_range B (8192 * n) y" "\<not> in_range I (8 + 4 * n) y"
      have "\<not> in_range (I + 8) (4 * n) y" "\<not> in_range (I + 4) 2 y" "\<not> in_range I 4 y"
        using y(2) tab [of 8 "4 * n" y] tab [of 4 2 y] tab [of 0 4 y] by auto
      then show "mem s' y = mem s y" using fr [OF y(1)] by (simp add: m0 store_other)
    qed
  qed (use esp in \<open>simp add: i32_esp_def\<close>)
qed

lemma tables_ready:
  fixes X :: xmon_env and x :: x64_state and s :: loader_state
  defines "B \<equiv> page_base s"
  assumes core: "desc_ok (x_desc X)" "em64t_ok (x_em64t X)" "ALIGN_FORWARD_ok (ALIGN_FORWARD X)" and room: "page_room 7 s"
    and gdt: "0 < g" "g + 2 \<le> 512" "unat (g_limit (x_gdtr X)) = 8 * g - 1" and apart: "sep B 4096 (g_base (x_gdtr X)) (8 * g)"
  obtains x2 x3 where "x32_gdt64_setup (x_desc X) (ALIGN_FORWARD X) (x_gdtr X) (x\<lparr>ld := s\<rparr>) = Some x2"
    and "x32_pt64_setup_paging (x_em64t X) (ALIGN_FORWARD X) (1024 * 4 * 0x100000) x2 = Some x3"
    and "\<forall>va < 2 ^ 48. walk (mem (ld x3)) (x32_pt64_get_cr3 x3) va = (if va < 2 ^ 32 then Some va else None)"
    and "load64 (mem (ld x3)) (B + ucast (x32_gdt64_get_cs x3)) = 0x00A09E0000000000"
    and "unat (x32_gdt64_get_cs x3) + 15 \<le> unat (g_limit (x32_gdt64_get_gdtr x2))" "g_base (x32_gdt64_get_gdtr x2) = B"
    and "\<forall>y. \<not> in_range B (7 * 4096) y \<longrightarrow> mem (ld x3) y = mem s y"
proof -
  define k where "k = (if load64 (mem s) (g_base (x_gdtr X) + of_nat (8 * (g - 1))) = 0 then g - 1 else g)"
  have r7: "page_room (Suc 6) (ld (x\<lparr>ld := s\<rparr>))" using room by simp
  have "sep (page_base (ld (x\<lparr>ld := s\<rparr>))) 4096 (g_base (x_gdtr X)) (8 * g)" using apart by (simp add: B_def)
  from gdt64_setup [OF core(1,3) r7 gdt this, of k] k_def
  obtain x2 where x2: "x32_gdt64_setup (x_desc X) (ALIGN_FORWARD X) (x_gdtr X) (x\<lparr>ld := s\<rparr>) = Some x2" "g_base (x32_gdt64_get_gdtr x2) = B"
    "page_room 6 (ld x2)" "page_base (ld x2) = B + 4096"
    and cs: "unat (x32_gdt64_get_cs x2) = 8 * k" "8 * (k + 1) + 7 \<le> unat (g_limit (x32_gdt64_get_gdtr x2))"
    and tab: "map (\<lambda>i. load64 (mem (ld x2)) (B + of_nat (8 * i))) [0..<k + 2]
      = map (\<lambda>i. load64 (mem s) (g_base (x_gdtr X) + of_nat (8 * i))) [0..<k] @ [0x00A09E0000000000, 0x00A0920000000000]"
    and fr2: "\<And>y. \<not> in_range B 4096 y \<Longrightarrow> mem (ld x2) y = mem s y"
    unfolding B_def by auto
  have k: "k + 2 \<le> 512" using gdt by (auto simp: k_def)
  have code: "load64 (mem (ld x2)) (B + of_nat (8 * k)) = 0x00A09E0000000000"
    using arg_cong [OF tab, of "\<lambda>l. l ! k"] by (simp add: nth_append del: of_nat_mult upt_Suc)
  from pt64_setup [OF core(2,3) x2(3), of "1024 * 4 * 0x100000"]
  obtain x3 where x3: "x32_pt64_setup_paging (x_em64t X) (ALIGN_FORWARD X) (1024 * 4 * 0x100000) x2 = Some x3"
    "cs_64 x3 = cs_64 x2"
    and map: "\<forall>va < 2 ^ 48. walk (mem (ld x3)) (x32_pt64_get_cr3 x3) va = (if va < 2 ^ 32 then Some va else None)"
    and fr3: "\<And>y. \<not> in_range (B + 4096) (6 * 4096) y \<Longrightarrow> mem (ld x3) y = mem (ld x2) y"
    unfolding x2(4) by auto
  have c3: "x32_gdt64_get_cs x3 = x32_gdt64_get_cs x2" using x3(2) by (simp add: x32_gdt64_get_cs_def)
  have uc: "ucast (x32_gdt64_get_cs x2) = (of_nat (8 * k) :: u32)"
    using cs(1) k by (simp add: word_unat_eq_iff unsigned_ucast_eq take_bit_nat_eq_self unat_of_nat32 del: of_nat_mult)
  show thesis
  proof (rule that [OF x2(1) x3(1) map])
    have "load64 (mem (ld x3)) (B + of_nat (8 * k)) = load64 (mem (ld x2)) (B + of_nat (8 * k))"
    proof (rule load_cong(3), rule fr3)
      fix y
      assume y: "in_range (B + of_nat (8 * k)) 8 y"
      show "\<not> in_range (B + 4096) (6 * 4096) y"
        using table_words_apart [OF y, of 4096 "6 * 4096"] k by simp
    qed
    then show "load64 (mem (ld x3)) (B + ucast (x32_gdt64_get_cs x3)) = 0x00A09E0000000000" using code uc c3 by simp
    show "\<forall>y. \<not> in_range B (7 * 4096) y \<longrightarrow> mem (ld x3) y = mem s y"
    proof (intro allI impI)
      fix y
      assume y: "\<not> in_range B (7 * 4096) y"
      have "\<not> in_range B 4096 y" "\<not> in_range (B + 4096) (6 * 4096) y"
        using not_sub_block [OF y] by simp_all
      then show "mem (ld x3) y = mem s y" using fr2 fr3 by simp
    qed
  qed (use cs c3 x2(2) in simp_all)
qed

text \<open>The whole last part of the loader.\<close>

lemma setup_and_call_eq:
  fixes X :: xmon_env and x :: x64_state
  defines "n \<equiv> max_aps X" and "B \<equiv> page_base (ld x)" and "I \<equiv> a_init32 X" and "G \<equiv> g_base (x_gdtr X)"
  assumes core: "desc_ok (x_desc X)" "em64t_ok (x_em64t X)" "ALIGN_FORWARD_ok (ALIGN_FORWARD X)"
    and room: "page_room (2 * n + 7) (ld x)" "unat (heap_tops (ld x)) + 12287 < 2 ^ 32"
    and gdt: "0 < g" "g + 2 \<le> 512" "unat (g_limit (x_gdtr X)) = 8 * g - 1"
    and apart: "sep B (4096 * (2 * n + 7)) I (8 + 4 * n)" "sep B (4096 * (2 * n + 7)) G (8 * g)"
  shows "\<exists>i64 x'. setup_and_call X call_startap call_xmon env x
      = Some (Calls_startap (ucast call_startap) (if n \<noteq> 0 then I else 0) i64 env (ucast call_xmon) x')
    \<and> (\<forall>va < 2 ^ 48. walk (mem (ld x')) (i64_cr3 i64) va = (if va < 2 ^ 32 then Some va else None))
    \<and> load64 (mem (ld x')) (g_base (i64_gdtr i64) + ucast (i64_cs i64)) = 0x00A09E0000000000
    \<and> unat (i64_cs i64) + 15 \<le> unat (g_limit (i64_gdtr i64)) \<and> i64_efer i64 = 0
    \<and> i32_low_memory_page (mem (ld x')) I = 0x8000 \<and> unat (i32_num_of_aps (mem (ld x')) I) = n
    \<and> (\<forall>j < n. i32_esp (mem (ld x')) I j = B + of_nat (8192 * Suc j))
    \<and> g_base (i64_gdtr i64) = B + of_nat (8192 * n)"
proof -
  define m0 where "m0 = store16 (I + 4) (of_nat n) (store32 I 0x8000 (mem (ld x)))"
  let ?d = "of_nat (8192 * n) :: u32"
  have n: "n \<le> 254" unfolding n_def by (rule max_aps_bound)
  have ud: "unat ?d = 8192 * n" using n by (intro unat_of_nat32) simp
  have pg: "PAGE_4KB_SIZE (x_em64t X) = 4096" using core(2) by (simp add: em64t_ok_def)
  have sepI: "sep B (8192 * n) I (8 + 4 * n)" using apart(1) by (simp add: sep_def)
  obtain s1 where s1: "esp_loop X 0 n ((ld x)\<lparr>mem := m0\<rparr>) = (True, s1)" "page_room 7 s1" "page_base s1 = B + ?d"
    and esp: "\<forall>j < n. i32_esp (mem s1) I j = B + of_nat (8192 * Suc j)"
    and hdr: "i32_low_memory_page (mem s1) I = 0x8000" "unat (i32_num_of_aps (mem s1) I) = n"
    and frame: "\<forall>y. \<not> in_range B (8192 * n) y \<longrightarrow> \<not> in_range I (8 + 4 * n) y \<longrightarrow> mem s1 y = mem (ld x) y"
    by (rule stacks_ready [OF core(3) pg room [unfolded n_def] sepI [unfolded n_def B_def I_def] m0_def [unfolded n_def I_def],
          folded n_def B_def I_def])
  have sepG: "sep (B + ?d) 4096 G (8 * g)" by (rule sep_sub [OF apart(2)]) (use ud in simp_all)
  obtain x2 x3 where x2: "x32_gdt64_setup (x_desc X) (ALIGN_FORWARD X) (x_gdtr X) (x\<lparr>ld := s1\<rparr>) = Some x2"
    and x3: "x32_pt64_setup_paging (x_em64t X) (ALIGN_FORWARD X) (1024 * 4 * 0x100000) x2 = Some x3"
    and t: "\<forall>va < 2 ^ 48. walk (mem (ld x3)) (x32_pt64_get_cr3 x3) va = (if va < 2 ^ 32 then Some va else None)"
      "load64 (mem (ld x3)) (B + ?d + ucast (x32_gdt64_get_cs x3)) = 0x00A09E0000000000"
      "unat (x32_gdt64_get_cs x3) + 15 \<le> unat (g_limit (x32_gdt64_get_gdtr x2))" "g_base (x32_gdt64_get_gdtr x2) = B + ?d"
    and fr: "\<forall>y. \<not> in_range (B + ?d) (7 * 4096) y \<longrightarrow> mem (ld x3) y = mem s1 y"
    by (rule tables_ready [OF core s1(2) gdt, unfolded s1(3), OF sepG [unfolded G_def]])
  have same: "mem (ld x3) y = mem s1 y" if "in_range I (8 + 4 * n) y" for y
  proof (rule fr [rule_format])
    have "sep (B + ?d) (7 * 4096) I (8 + 4 * n)" by (rule sep_sub [OF apart(1)]) (use ud in simp_all)
    then show "\<not> in_range (B + ?d) (7 * 4096) y" using sep_in_range that by blast
  qed
  have init: "i32_low_memory_page (mem (ld x3)) I = 0x8000" "unat (i32_num_of_aps (mem (ld x3)) I) = n"
    "\<And>j. j < n \<Longrightarrow> i32_esp (mem (ld x3)) I j = B + of_nat (8192 * Suc j)"
    using init32_cong [OF same] hdr esp n by simp_all
  define i64 where "i64 = \<lparr>i64_cs = x32_gdt64_get_cs x3, i64_gdtr = x32_gdt64_get_gdtr x2, i64_efer = 0, i64_cr3 = x32_pt64_get_cr3 x3\<rparr>"
  have "setup_and_call X call_startap call_xmon env x
      = Some (Calls_startap (ucast call_startap) (if n \<noteq> 0 then I else 0) i64 env (ucast call_xmon) x3)"
    using s1(1) x2 x3 by (simp add: setup_and_call_def n_def [symmetric] I_def [symmetric] m0_def [symmetric] i64_def Let_def)
  then show ?thesis
    using t init by (intro exI [of _ i64] exI [of _ x3]) (simp add: i64_def)
qed

section \<open>Properties\<close>

text \<open>
  C8. What \<^verbatim>\<open>startap\<close> is called with. For \<open>n\<close> possible APs, a heap with room for \<open>2 * n + 7\<close> pages and a current GDT of \<open>g\<close>
  descriptors, those pages apart from \<^verbatim>\<open>init32\<close> and from the current GDT: the call is made; its page tables map the low 4 GB onto itself, its code
  segment is a present 64-bit ring-0 code segment inside the limit of the new GDT, and \<^verbatim>\<open>init32\<close> holds the low-memory page, the
  number \<open>n\<close>, and the tops of \<open>n\<close> stacks of two pages each that lie one after the other below the tables.
\<close>

theorem setup_and_call_prepares:
  fixes X :: xmon_env and x :: x64_state
  defines "n \<equiv> max_aps X" and "B \<equiv> page_base (ld x)" and "I \<equiv> a_init32 X" and "G \<equiv> g_base (x_gdtr X)"
  assumes core: "desc_ok (x_desc X)" "em64t_ok (x_em64t X)" "ALIGN_FORWARD_ok (ALIGN_FORWARD X)"
    and room: "page_room (2 * n + 7) (ld x)" "unat (heap_tops (ld x)) + 12287 < 2 ^ 32"
    and gdt: "0 < g" "g + 2 \<le> 512" "unat (g_limit (x_gdtr X)) = 8 * g - 1"
    and apart: "sep B (4096 * (2 * n + 7)) I (8 + 4 * n)" "sep B (4096 * (2 * n + 7)) G (8 * g)"
  shows "\<exists>i64 x'. setup_and_call X call_startap call_xmon env x
      = Some (Calls_startap (ucast call_startap) (if n \<noteq> 0 then I else 0) i64 env (ucast call_xmon) x')
    \<and> (\<forall>va < 2 ^ 48. walk (mem (ld x')) (i64_cr3 i64) va = (if va < 2 ^ 32 then Some va else None))
    \<and> load64 (mem (ld x')) (g_base (i64_gdtr i64) + ucast (i64_cs i64)) = 0x00A09E0000000000
    \<and> unat (i64_cs i64) + 15 \<le> unat (g_limit (i64_gdtr i64)) \<and> i64_efer i64 = 0
    \<and> i32_low_memory_page (mem (ld x')) I = 0x8000 \<and> unat (i32_num_of_aps (mem (ld x')) I) = n
    \<and> (\<forall>j < n. i32_esp (mem (ld x')) I j = B + of_nat (8192 * Suc j))
    \<and> g_base (i64_gdtr i64) = B + of_nat (8192 * n)"
  unfolding n_def B_def I_def
  by (rule setup_and_call_eq [OF core room [unfolded n_def] gdt apart [unfolded n_def B_def I_def G_def]])

definition demo_cpuid :: "u32 \<Rightarrow> u32 \<Rightarrow> u32 \<times> u32 \<times> u32 \<times> u32" where
  [simp]: "demo_cpuid ebx leaf = (0, if leaf = 1 then ebx else 0, 0, 0)"

definition demo_xmon :: xmon_env where
  "demo_xmon = \<lparr>a_heap_base = 0x500, a_heap_size = 0x508, a_e820_addr = 0x510, a_call_xmon = 0x518, a_call_startap = 0x520,
     a_env = 0x600, a_g0 = 0x700, a_init32 = 0x800, a_xmon_idt = 0x4000, a_idt_descriptor = 0x4800, sizeof_g0 = 16, sizeof_env = 64,
     put_cpu_states_array = (\<lambda>p v. store32 p v), put_cpu_states_count = (\<lambda>p v. store32 (p + 4) v),
     put_devices_array = (\<lambda>p v. store32 (p + 8) v), put_primary_guest = (\<lambda>p v. store64 p v),
     put_physical_memory_layout_E820 = (\<lambda>p v. store64 (p + 8) v), vmem_of = (\<lambda>p. p + 16), thunk_image = 0, mon_image = 1,
     put_base_address = (\<lambda>p i v. store32 (p + of_nat (24 * i)) v), put_total_size = (\<lambda>p i v. store32 (p + of_nat (24 * i) + 4) v),
     put_image_size = (\<lambda>p i v. store64 (p + of_nat (24 * i) + 8) v), put_entry_point = (\<lambda>p i v. store64 (p + of_nat (24 * i) + 16) v),
     MON_PAGE_ALIGN_4K = (\<lambda>v. (v + 0xFFF) AND NOT 0xFFF), ALIGN_FORWARD = page_round_up, x_e820 = std_e820, x_elf = std_elf,
     x_load_info = no_info, x_image_info = \<lparr>info_machine = IMAGE_MACHINE_OTHER, load_size = 0\<rparr>, x_load_size = id, x_desc = std_desc,
     x_em64t = std_em64t, x_o_rip = 0, x_o_rcx = 8, x_primary_guest_entry = 0x9000, x_code = (\<lambda>_. 0x9000), x_debug = False,
     x_gdtr = \<lparr>g_limit = 15, g_base = 0x900\<rparr>, x_cpuid = demo_cpuid 0x20000\<rparr>"

definition demo_x64 :: x64_state where
  "demo_x64 = \<lparr>ld = small_heap\<lparr>heap_base := 0x10000, heap_current := 0x10010, heap_tops := 0x20000\<rparr>, cr3_for_x64 = 0,
     gdtr_32 = \<lparr>g_limit = 0, g_base = 0\<rparr>, gdtr_64 = \<lparr>g_limit = 0, g_base = 0\<rparr>, cs_64 = 0\<rparr>"

lemma demo_core: "desc_ok (x_desc demo_xmon)" "em64t_ok (x_em64t demo_xmon)" "ALIGN_FORWARD_ok (ALIGN_FORWARD demo_xmon)"
  "max_aps demo_xmon = 1"
  using page_round_up_ok
  by (simp_all add: demo_xmon_def desc_ok_def std_desc_def em64t_ok_def std_em64t_def max_aps_def cpuid_def)

theorem setup_and_call_prepares_witness:
  "\<exists>i64 x'. setup_and_call demo_xmon 0x30000 0x40000 0x600 demo_x64 = Some (Calls_startap 0x30000 0x800 i64 0x600 0x40000 x')
    \<and> i32_esp (mem (ld x')) 0x800 0 = 0x13000 \<and> g_base (i64_gdtr i64) = 0x13000"
proof -
  have b: "page_base (ld demo_x64) = 0x11000"
    by (simp add: page_base_def demo_x64_def small_heap_def round_page_def)
  have a: "a_init32 demo_xmon = 0x800" "g_base (x_gdtr demo_xmon) = 0x900" "unat (g_limit (x_gdtr demo_xmon)) = 8 * 2 - 1"
    by (simp_all add: demo_xmon_def)
  have "page_room (2 * max_aps demo_xmon + 7) (ld demo_x64)" "unat (heap_tops (ld demo_x64)) + 12287 < 2 ^ 32"
    by (simp_all add: demo_core page_room_def heap_inv_def demo_x64_def small_heap_def round_page_def)
  from setup_and_call_prepares [OF demo_core(1-3) this, of 2 "0x30000" "0x40000" "0x600"] show ?thesis
    by (auto simp: a b demo_core sep_def)
qed

text \<open>A stack needs two pages: a heap that is too small for the stacks of all possible APs ends the loop.\<close>

lemma esp_loop_room:
  assumes af: "ALIGN_FORWARD_ok (ALIGN_FORWARD X)"
  shows "heap_inv s \<Longrightarrow> unat (heap_tops s) + 12287 < 2 ^ 32 \<Longrightarrow> esp_loop X i n s = (True, s') \<Longrightarrow>
    unat (heap_current s) + 8192 * n \<le> unat (heap_tops s)"
proof (induction n arbitrary: i s)
  case 0
  then show ?case using heap_inv_unat by simp
next
  case (Suc n)
  obtain p s1 where a: "mon_page_alloc (ALIGN_FORWARD X) 2 s = (p, s1)" by fastforce
  have top: "unat (heap_tops s) + 4096 * unat (2 :: u32) + 4095 < 2 ^ 32" using Suc.prems(2) by simp
  define s2 where "s2 = s1\<lparr>mem := store32 (a_init32 X + 8 + of_nat (4 * i)) (p + PAGE_4KB_SIZE (x_em64t X) * 2) (mem s1)\<rparr>"
  have p: "p \<noteq> 0" "esp_loop X (Suc i) n s2 = (True, s')"
    using Suc.prems(3) a by (auto simp: s2_def split: if_splits)
  have inv: "heap_inv s2" "heap_tops s2 = heap_tops s"
    using page_alloc.alloc_inv(1,2) [OF af Suc.prems(1) top a] by (simp_all add: s2_def heap_inv_def)
  have "unat (heap_current s) + 8192 \<le> unat (heap_current s1)"
    by (rule page_alloc.alloc_cases [OF af Suc.prems(1) top a]) (use p in \<open>auto simp: granted_def\<close>)
  moreover have "unat (heap_current s2) + 8192 * n \<le> unat (heap_tops s2)"
    by (rule Suc.IH [OF inv(1) _ p(2)]) (use Suc.prems(2) inv in simp)
  ultimately show ?case using inv(2) by (simp add: s2_def)
qed

text \<open>
  C37. The limit on processors: when the heap has less room than 8 KB for every possible AP, the loader does not call \<^verbatim>\<open>startap\<close>
  but returns. As the whole heap has 640 KB, this is so whenever \<^verbatim>\<open>cpuid\<close> reports room for 82 logical processors or more,
  however many there are.
\<close>

theorem too_many_aps_returns:
  assumes "ALIGN_FORWARD_ok (ALIGN_FORWARD X)" "heap_inv (ld x)" "unat (heap_tops (ld x)) + 12287 < 2 ^ 32"
    and "unat (heap_tops (ld x)) < unat (heap_current (ld x)) + 8192 * max_aps X"
  shows "\<exists>s. setup_and_call X call_startap call_xmon env x = Some (Returned s)"
proof -
  define s0 where "s0 = (ld x)\<lparr>mem := store16 (a_init32 X + 4) (of_nat (max_aps X)) (store32 (a_init32 X) 0x8000 (mem (ld x)))\<rparr>"
  obtain ok s' where e: "esp_loop X 0 (max_aps X) s0 = (ok, s')" by fastforce
  have "\<not> ok"
  proof
    assume ok
    with e have "esp_loop X 0 (max_aps X) s0 = (True, s')" by simp
    moreover have "heap_inv s0" "unat (heap_tops s0) + 12287 < 2 ^ 32" using assms(2,3) by (simp_all add: s0_def heap_inv_def)
    ultimately show False using esp_loop_room [OF assms(1)] assms(4) by (force simp: s0_def)
  qed
  then show ?thesis using e by (simp add: setup_and_call_def s0_def [symmetric] Let_def)
qed

theorem too_many_aps_returns_witness:
  "\<exists>s. setup_and_call (demo_xmon\<lparr>x_cpuid := demo_cpuid 0x520000\<rparr>) 0x30000 0x40000 0x600
     (demo_x64\<lparr>ld := small_heap\<lparr>heap_base := 0x10000, heap_current := 0x10000, heap_tops := 0xB0000\<rparr>\<rparr>) = Some (Returned s)"
  by (rule too_many_aps_returns)
    (simp_all add: demo_core [unfolded demo_xmon_def] page_round_up_ok demo_xmon_def demo_x64_def small_heap_def heap_inv_def max_aps_def cpuid_def)

text \<open>
  The monitor is not started without its images: if the loader calls \<^verbatim>\<open>startap\<close>, then it has found a memory map, the monitor's
  image has been recognised as a 64-bit image of non-zero size and been loaded at the monitor's base, after which the
  image of \<^verbatim>\<open>startap\<close> has been recognised as a 32-bit image of non-zero size and been loaded at its base.
\<close>

lemma startap_called_only_after_checks:
  assumes "xmon_loader X td x = Some (idtr, Calls_startap e i32 i64 env xe x')"
  shows "\<exists>s0 s1 s2 s3 h1 h2. get_e820_table_from_multiboot (x_e820 X) (ALIGN_FORWARD X) td (a_e820_addr X) s0 = Some (0, s1)
    \<and> get_image_info (x_elf X) (x_load_info X) (x_load_size X) (td + xmon_start (mem s1) td * 512) (XMON_SIZE (mem s1) td)
        (x_image_info X) (mem s1) = Some (IMAGE_INFO_OK, h1)
    \<and> info_machine h1 = IMAGE_MACHINE_EM64T \<and> load_size h1 \<noteq> 0
    \<and> load_image (x_elf X) (x_load_info X) (td + xmon_start (mem s1) td * 512) (XMON_BASE (mem s1) td) (XMON_SIZE (mem s1) td)
        (a_call_xmon X) s1 = Some (True, s2)
    \<and> get_image_info (x_elf X) (x_load_info X) (x_load_size X) (td + startap_start (mem s2) td * 512) STARTAP_SIZE
        (x_image_info X) (mem s2) = Some (IMAGE_INFO_OK, h2)
    \<and> info_machine h2 = IMAGE_MACHINE_X86 \<and> load_size h2 \<noteq> 0
    \<and> load_image (x_elf X) (x_load_info X) (td + startap_start (mem s2) td * 512) (STARTAP_BASE (mem s2) td) STARTAP_SIZE
        (a_call_startap X) s2 = Some (True, s3)"
  using assms
  by (fastforce simp: xmon_loader_def image_acceptable_def Let_def split: prod.splits if_splits bind_splits)

subsection \<open>No usable memory information\<close>

text \<open>The memory that the loader has written when it looks for the memory map, in a release build.\<close>

definition touched :: "xmon_env \<Rightarrow> u32 \<Rightarrow> bool" where
  "touched X y \<longleftrightarrow> in_range (a_xmon_idt X) 2048 y \<or> in_range (a_idt_descriptor X) 8 y
     \<or> in_range (a_heap_base X) 4 y \<or> in_range (a_heap_size X) 4 y"

lemma install_frame: "\<not> in_range t 2048 y \<Longrightarrow> i < 256 \<Longrightarrow> install_exception_handler t i h m y = m y"
  using not_sub_block(1) [of t 2048 y "of_nat (8 * i)" 4] not_sub_block(1) [of t 2048 y "of_nat (8 * i + 4)" 4]
  by (simp add: install_exception_handler_def gate_lo_def gate_hi_def set_fields_other unat_of_nat32
      del: of_nat_mult of_nat_add set_fields.simps)

lemma idt_loop_frame: "\<not> in_range t 2048 y \<Longrightarrow> idt_loop t code i m y = m y"
proof (induction t code i m rule: idt_loop.induct)
  case (1 t code i m)
  have "\<not> in_range (gate_lo t i) 4 y" "\<not> in_range (gate_hi t i) 4 y" if "i < 32"
    using not_sub_block(1) [OF 1(2), of "of_nat (8 * i)" 4] not_sub_block(1) [OF 1(2), of "of_nat (8 * i + 4)" 4] that
    by (simp_all add: gate_lo_def gate_hi_def unat_of_nat32 del: of_nat_mult of_nat_add)
  then show ?case using 1 by (subst idt_loop.simps) (simp add: Let_def install_frame set_fields_other del: set_fields.simps)
qed

lemma setup_idt_frame:
  assumes "\<not> in_range t 2048 y" "\<not> in_range d 8 y"
  shows "mem (fst (setup_idt False t d code s)) y = mem s y"
  using assms
  by (simp add: setup_idt_def PRINT_STRING_def Let_def lidt_unpacked(3) installs_def install_frame idt_loop_frame zero_mem_apply
      IDT_VECTOR_COUNT_def)

lemma no_map_returns:
  fixes X :: xmon_env and x :: x64_state and td :: u32
  defines "m \<equiv> mem (ld x)"
  defines "rbx \<equiv> GUEST1_BASE m td + o_reg_rbx (x_e820 X)" and "mbi \<equiv> saved_mbi (x_e820 X) m td"
  assumes "\<not> x_debug X" and bad: "mbi_flags m mbi AND 3 = 0 \<or> 4096 < mmap_length m mbi"
    and apart: "\<And>y. in_range td 80 y \<or> in_range rbx 8 y \<or> in_range mbi 48 y \<Longrightarrow> \<not> touched X y"
  shows "\<exists>idtr s. xmon_loader X td x = Some (idtr, Returned s) \<and> (\<forall>y. \<not> touched X y \<longrightarrow> mem s y = m y)"
proof -
  define s1 where "s1 = initialize_memory_manager (a_heap_base X) (a_heap_size X) ((ld x)\<lparr>mem := store32 (a_heap_size X) XMON_LOADER_HEAP_SIZE
    (store32 (a_heap_base X) (XMON_LOADER_HEAP_BASE m td) m)\<rparr>)"
  obtain s idtr where s: "setup_idt (x_debug X) (a_xmon_idt X) (a_idt_descriptor X) (x_code X) s1 = (s, idtr)" by fastforce
  have same: "mem s y = m y" if "\<not> touched X y" for y
    using setup_idt_frame [of "a_xmon_idt X" y "a_idt_descriptor X" "x_code X" s1] s assms(4) that
    by (simp add: touched_def s1_def initialize_memory_manager_def Let_def store_other)
  have td: "load32 (mem s) (td + k) = load32 m (td + k)" if "unat k + 4 \<le> 80" for k
    by (rule load_cong(2), rule same, rule apart) (use sub_block [of td k 4 _ 80] that in blast)
  have "GUEST1_BASE (mem s) td = GUEST1_BASE m td"
    by (simp add: GUEST1_BASE_def XMON_PKG_SIZE_def guest1_start_def guest1_count_def td)
  then have "saved_mbi (x_e820 X) (mem s) td = mbi"
    using load_cong(3) [of rbx "mem s" m] same apart by (simp add: saved_mbi_def rbx_def mbi_def)
  moreover have "load32 (mem s) (mbi + k) = load32 m (mbi + k)" if "unat k + 4 \<le> 48" for k
    by (rule load_cong(2), rule same, rule apart) (use sub_block [of mbi k 4 _ 48] that in blast)
  from this [of 0] this [of 44] have "mbi_flags (mem s) mbi = mbi_flags m mbi" "mmap_length (mem s) mbi = mmap_length m mbi"
    by (simp_all add: mbi_flags_def mmap_length_def)
  ultimately have "get_e820_table_from_multiboot (x_e820 X) (ALIGN_FORWARD X) td (a_e820_addr X) s = Some (- 1, s)"
    using bad by (auto simp: get_e820_table_from_multiboot_def)
  then show ?thesis
    using s same by (simp add: xmon_loader_def s1_def m_def Let_def)
qed

text \<open>
  C36. When the saved multiboot information fails the loader's test, because its flags have neither memory sizes nor a boot device
  (bits 0 and 1, which the code tests instead of the memory map's bit 6) or because its memory map is longer than 4096 bytes, the
  loader returns to the starter before it loads an image: of all memory, only the interrupt table, its descriptor and
  the two heap parameters have changed. The package header, the saved register and the multiboot structure are
  supposed to be apart from these.
\<close>

theorem memory_info_rejected_returns:
  fixes X :: xmon_env and x :: x64_state and td :: u32
  defines "m \<equiv> mem (ld x)"
  defines "rbx \<equiv> GUEST1_BASE m td + o_reg_rbx (x_e820 X)" and "mbi \<equiv> saved_mbi (x_e820 X) m td"
  assumes "\<not> x_debug X" and "mbi_flags m mbi AND 3 = 0 \<or> 4096 < mmap_length m mbi"
    and "\<And>y. in_range td 80 y \<or> in_range rbx 8 y \<or> in_range mbi 48 y \<Longrightarrow> \<not> touched X y"
  shows "\<exists>idtr s. xmon_loader X td x = Some (idtr, Returned s) \<and> (\<forall>y. \<not> touched X y \<longrightarrow> mem s y = m y)"
  using no_map_returns [OF assms(4-6) [unfolded m_def rbx_def mbi_def]] unfolding m_def .

lemma demo_no_map:
  "x_e820 demo_xmon = std_e820" "\<not> x_debug demo_xmon"
  "GUEST1_BASE (\<lambda>_. 0) 0x100000 + o_reg_rbx std_e820 = 0x100018"
  "saved_mbi std_e820 (\<lambda>_. 0) 0x100000 = 0" "mbi_flags (\<lambda>_. 0) 0 = 0"
  "in_range 0x100000 80 y \<or> in_range 0x100018 8 y \<or> in_range 0 48 y \<Longrightarrow> \<not> touched demo_xmon y"
  "\<not> touched demo_xmon 0x30000"
proof -
  show "GUEST1_BASE (\<lambda>_. 0) 0x100000 + o_reg_rbx std_e820 = 0x100018"
    by (simp add: GUEST1_BASE_def XMON_PKG_SIZE_def guest1_start_def guest1_count_def std_e820_def mem_eval)
  then show "saved_mbi std_e820 (\<lambda>_. 0) 0x100000 = 0" "mbi_flags (\<lambda>_. 0) 0 = 0"
    by (simp_all add: saved_mbi_def mbi_flags_def mem_eval)
  show "in_range 0x100000 80 y \<or> in_range 0x100018 8 y \<or> in_range 0 48 y \<Longrightarrow> \<not> touched demo_xmon y"
    by (auto simp: touched_def demo_xmon_def in_range_linear)
  show "\<not> touched demo_xmon 0x30000" by (simp add: touched_def demo_xmon_def in_range_def)
qed (simp_all add: demo_xmon_def)

theorem memory_info_rejected_returns_witness:
  "\<exists>idtr s. xmon_loader demo_xmon 0x100000 (demo_x64\<lparr>ld := small_heap\<lparr>mem := (\<lambda>_. 0)\<rparr>\<rparr>) = Some (idtr, Returned s)
     \<and> mem s 0x30000 = 0"
proof -
  let ?x = "demo_x64\<lparr>ld := small_heap\<lparr>mem := (\<lambda>_. 0)\<rparr>\<rparr>"
  have "\<exists>idtr s. xmon_loader demo_xmon 0x100000 ?x = Some (idtr, Returned s) \<and> (\<forall>y. \<not> touched demo_xmon y \<longrightarrow> mem s y = mem (ld ?x) y)"
    by (rule memory_info_rejected_returns) (simp_all add: demo_no_map)
  then show ?thesis using demo_no_map(7) by auto
qed

end
