(* ===== verification/Heap_Typing.thy ===== *)
theory Heap_Typing
  imports Xmon_Loader
begin

text \<open>
  The typing of the loader's state: whatever the memory map, the images and the processors report, the heap pointer stays
  between the base and the top that the loader has set. Each operation of the loader that allocates keeps this, and so the whole
  of \<^verbatim>\<open>xmon_loader\<close> does. The margin at the top excludes a wrap-around of the largest request, two pages.
\<close>

definition heap_typed :: "loader_state \<Rightarrow> bool" where
  "heap_typed s \<longleftrightarrow> heap_inv s \<and> unat (heap_tops s) + 12287 < 2 ^ 32"

definition heap_kept :: "loader_state \<Rightarrow> loader_state \<Rightarrow> bool" where
  "heap_kept s s' \<longleftrightarrow> heap_typed s' \<and> heap_base s' = heap_base s \<and> heap_tops s' = heap_tops s"

lemma heap_kept_typed: "heap_kept s s' \<Longrightarrow> heap_typed s'"
  by (simp add: heap_kept_def)

lemma heap_kept_trans [trans]: "heap_kept s t \<Longrightarrow> heap_kept t u \<Longrightarrow> heap_kept s u"
  by (simp add: heap_kept_def)

lemma heap_kept_same: "heap_typed s \<Longrightarrow> same_heap s s' \<Longrightarrow> heap_kept s s'"
  by (simp add: heap_kept_def heap_typed_def same_heap_def heap_inv_def)

lemma heap_mem [simp]:
  "heap_typed (s\<lparr>mem := m\<rparr>) = heap_typed s" "heap_kept (s\<lparr>mem := m\<rparr>) t = heap_kept s t" "heap_kept s (t\<lparr>mem := m\<rparr>) = heap_kept s t"
  by (simp_all add: heap_kept_def heap_typed_def heap_inv_def)

lemma heap_kept_refl [simp]: "heap_kept s s = heap_typed s"
  by (simp add: heap_kept_def)

section \<open>The allocating operations\<close>

lemma page_alloc_kept:
  assumes "ALIGN_FORWARD_ok af" "heap_typed s" "unat pages \<le> 2" "mon_page_alloc af pages s = (p, s')"
  shows "heap_kept s s'"
proof -
  have h: "heap_inv s" "unat (heap_tops s) + 4096 * unat pages + 4095 < 2 ^ 32"
    using assms(2,3) by (simp_all add: heap_typed_def)
  show ?thesis
    using page_alloc.alloc_inv [OF assms(1) h assms(4)] assms(2) by (simp add: heap_kept_def heap_typed_def)
qed

lemma zeroed_page_kept:
  assumes "ALIGN_FORWARD_ok af" "heap_typed s" "zeroed_page af k s = Some (p, s')"
  shows "heap_kept s s'"
  using assms(3) page_alloc_kept [OF assms(1,2), of 1] by (auto simp: zeroed_page_def split: prod.splits if_splits)

lemma pdpt_loop_kept:
  assumes "ALIGN_FORWARD_ok af"
  shows "heap_typed s \<Longrightarrow> pdpt_loop E af pdp i a s = Some s' \<Longrightarrow> heap_kept s s'"
proof (induction "4 - i" arbitrary: i a s)
  case 0
  then show ?case by (simp add: pdpt_loop.simps)
next
  case (Suc k)
  then have "i < 4" "k = 4 - Suc i" by simp_all
  with Suc.prems(2) obtain pd s1 m a' where z: "zeroed_page af (PAGE_4KB_SIZE E)
      (s\<lparr>mem := set_fields (pte_at E pdp i) (dir_entry (pdpe E)) (mem s)\<rparr>) = Some (pd, s1)"
    and rest: "pdpt_loop E af pdp (Suc i) a' (s1\<lparr>mem := m\<rparr>) = Some s'"
    by (subst (asm) pdpt_loop.simps) (auto simp: Let_def split: Option.bind_splits prod.splits)
  have "heap_kept s s1" using zeroed_page_kept [OF assms _ z] Suc.prems(1) by simp
  moreover have "heap_kept s1 s'"
    using Suc.hyps(1) [OF \<open>k = 4 - Suc i\<close> _ rest] heap_kept_typed [OF calculation] by simp
  ultimately show ?case by (rule heap_kept_trans)
qed

lemma setup_paging_kept:
  assumes "ALIGN_FORWARD_ok af" "heap_typed (ld x)" "x32_pt64_setup_paging E af sz x = Some x'"
  shows "heap_kept (ld x) (ld x')"
proof -
  from assms(3) obtain p1 s1 p2 s2 s3 m where z: "zeroed_page af (PAGE_4KB_SIZE E) (ld x) = Some (p1, s1)"
      "zeroed_page af (PAGE_4KB_SIZE E) s1 = Some (p2, s2)" "pdpt_loop E af p2 0 0 (s2\<lparr>mem := m\<rparr>) = Some s3" "ld x' = s3"
    by (auto simp: x32_pt64_setup_paging_def Let_def split: Option.bind_splits prod.splits)
  have k1: "heap_kept (ld x) s1" by (rule zeroed_page_kept [OF assms(1,2) z(1)])
  have k2: "heap_kept s1 s2" by (rule zeroed_page_kept [OF assms(1) heap_kept_typed [OF k1] z(2)])
  have "heap_kept s2 s3" using pdpt_loop_kept [OF assms(1) _ z(3)] heap_kept_typed [OF k2] by simp
  with heap_kept_trans [OF k1 k2] show ?thesis unfolding z(4) by (rule heap_kept_trans)
qed

lemma gdt64_setup_kept:
  assumes "ALIGN_FORWARD_ok af" "heap_typed (ld x)" "x32_gdt64_setup E af hw x = Some x'"
  shows "heap_kept (ld x) (ld x')"
  using assms(3) zeroed_page_kept [OF assms(1,2)]
  by (auto simp: x32_gdt64_setup_def Let_def split: Option.bind_splits prod.splits)

lemma esp_loop_kept:
  assumes "ALIGN_FORWARD_ok (ALIGN_FORWARD X)"
  shows "heap_typed s \<Longrightarrow> esp_loop X i n s = (ok, s') \<Longrightarrow> heap_kept s s'"
proof (induction n arbitrary: i s)
  case 0
  then show ?case by simp
next
  case (Suc n)
  obtain buf s1 where a: "mon_page_alloc (ALIGN_FORWARD X) 2 s = (buf, s1)" by fastforce
  have k: "heap_kept s s1" by (rule page_alloc_kept [OF assms Suc.prems(1) _ a]) simp
  show ?case
  proof (cases "buf = 0")
    case True
    with Suc.prems(2) a k show ?thesis by simp
  next
    case False
    with Suc.prems(2) a have "heap_kept s1 s'"
      using Suc.IH [of "s1\<lparr>mem := store32 (a_init32 X + 8 + of_nat (4 * i)) (buf + PAGE_4KB_SIZE (x_em64t X) * 2) (mem s1)\<rparr>" "Suc i"]
        heap_kept_typed [OF k] by simp
    with k show ?thesis by (rule heap_kept_trans)
  qed
qed

section \<open>The loader\<close>

definition outcome_state :: "loader_outcome \<Rightarrow> loader_state" where
  "outcome_state out = (case out of Returned s \<Rightarrow> s | Calls_startap e i32 i64 env xe x \<Rightarrow> ld x)"

lemma setup_and_call_kept:
  assumes af: "ALIGN_FORWARD_ok (ALIGN_FORWARD X)" and t: "heap_typed (ld x)" and run: "setup_and_call X cs cx env x = Some out"
  shows "heap_kept (ld x) (outcome_state out)"
proof -
  define s0 where "s0 = (ld x)\<lparr>mem := store16 (a_init32 X + 4) (of_nat (max_aps X)) (store32 (a_init32 X) 0x8000 (mem (ld x)))\<rparr>"
  obtain ok s1 where e: "esp_loop X 0 (max_aps X) s0 = (ok, s1)" by fastforce
  have k1: "heap_kept (ld x) s1" using esp_loop_kept [OF af _ e] t by (simp add: s0_def)
  show ?thesis
  proof (cases ok)
    case False
    with run e k1 show ?thesis by (auto simp: setup_and_call_def Let_def s0_def [symmetric] outcome_state_def)
  next
    case True
    with run e obtain x2 x3 where g: "x32_gdt64_setup (x_desc X) (ALIGN_FORWARD X) (x_gdtr X) (x\<lparr>ld := s1\<rparr>) = Some x2"
      and p: "x32_pt64_setup_paging (x_em64t X) (ALIGN_FORWARD X) (1024 * 4 * 0x100000) x2 = Some x3" and o: "outcome_state out = ld x3"
      by (auto simp: setup_and_call_def Let_def s0_def [symmetric] outcome_state_def split: Option.bind_splits)
    have k2: "heap_kept s1 (ld x2)" using gdt64_setup_kept [OF af _ g] heap_kept_typed [OF k1] by simp
    have "heap_kept (ld x2) (ld x3)" by (rule setup_paging_kept [OF af heap_kept_typed [OF k2] p])
    with heap_kept_trans [OF k1 k2] show ?thesis unfolding o by (rule heap_kept_trans)
  qed
qed

lemma e820_kept:
  assumes "ALIGN_FORWARD_ok af" "heap_typed s" "get_e820_table_from_multiboot V af td dest s = Some (r, s')"
  shows "heap_kept s s'"
  using assms(2,3) page_alloc_kept [OF assms(1,2), of 1]
  by (auto simp: get_e820_table_from_multiboot_def Let_def split: if_splits prod.splits Option.bind_splits)

lemma load_image_kept:
  assumes "heap_typed s" "load_image E junk img base sz p s = Some (ok, s')"
  shows "heap_kept s s'"
proof -
  have "heap_kept s (print_string cs (s\<lparr>mem := m\<rparr>))" for cs m
    using heap_kept_same [OF _ print_string_same_heap [of "s\<lparr>mem := m\<rparr>" cs]] assms(1) by simp
  from this [of _ "mem s"] this show ?thesis using assms
    by (auto simp: load_image_def load_elf_image_def Let_def split: if_splits prod.splits Option.bind_splits)
qed

lemma setup_idt_kept:
  assumes "heap_typed s" "setup_idt dbg idt desc code s = (s', r)"
  shows "heap_kept s s'"
  using assms heap_kept_same [OF assms(1) print_string_same_heap]
  by (auto simp: setup_idt_def PRINT_STRING_def Let_def split: if_splits)

lemma xmon_loader_kept:
  fixes X :: xmon_env and x :: x64_state and td :: u32
  defines "m \<equiv> store32 (a_heap_size X) XMON_LOADER_HEAP_SIZE (store32 (a_heap_base X) (XMON_LOADER_HEAP_BASE (mem (ld x)) td) (mem (ld x)))"
  defines "s0 \<equiv> initialize_memory_manager (a_heap_base X) (a_heap_size X) ((ld x)\<lparr>mem := m\<rparr>)"
  assumes af: "ALIGN_FORWARD_ok (ALIGN_FORWARD X)" and t: "heap_typed s0" and run: "xmon_loader X td x = Some (idtr, out)"
  shows "heap_kept s0 (outcome_state out)"
proof -
  obtain s1 r1 where i: "setup_idt (x_debug X) (a_xmon_idt X) (a_idt_descriptor X) (x_code X) s0 = (s1, r1)" by fastforce
  have k1: "heap_kept s0 s1" by (rule setup_idt_kept [OF t i])
  obtain r s2 where e: "get_e820_table_from_multiboot (x_e820 X) (ALIGN_FORWARD X) td (a_e820_addr X) s1 = Some (r, s2)"
    using run i by (auto simp: xmon_loader_def Let_def s0_def m_def split: Option.bind_splits)
  have k2: "heap_kept s0 s2" using e820_kept [OF af heap_kept_typed [OF k1] e] by (rule heap_kept_trans [OF k1])
  have img: "heap_kept s0 s''" if "load_image E junk p b z q s' = Some (ok, s'')" "heap_kept s0 s'" for E junk p b z q s' ok s''
    using load_image_kept [OF heap_kept_typed that(1)] that(2) heap_kept_trans by blast
  have fin: "heap_kept s0 (outcome_state o')" if "setup_and_call X c1 c2 env (x\<lparr>ld := s'\<lparr>mem := m'\<rparr>\<rparr>) = Some o'" "heap_kept s0 s'" for c1 c2 env s' m' o'
    using setup_and_call_kept [OF af _ that(1)] heap_kept_typed [OF that(2)] heap_kept_trans [OF that(2)] by simp
  have [simp]: "outcome_state (Returned s') = s'" for s' by (simp add: outcome_state_def)
  show ?thesis
    using run i e k2
    by (auto simp: xmon_loader_def Let_def s0_def [symmetric] m_def [symmetric] split: if_splits prod.splits Option.bind_splits
        intro: img fin)
qed

text \<open>
  C27. The heap is well-typed throughout: however \<^verbatim>\<open>xmon_loader\<close> ends, by returning to the starter or by calling startap, its
  heap has the base and the size that the memory map of the package gives it, and the heap pointer lies between
  the base and the top, whatever the memory map, the images and the processors are.
\<close>

theorem xmon_loader_heap_typed:
  fixes X :: xmon_env and x :: x64_state and td :: u32
  defines "B \<equiv> XMON_LOADER_HEAP_BASE (mem (ld x)) td"
  assumes "ALIGN_FORWARD_ok (ALIGN_FORWARD X)" and "sep (a_heap_base X) 4 (a_heap_size X) 4"
    and "0 < B" and fit: "unat B + unat XMON_LOADER_HEAP_SIZE + 12287 < 2 ^ 32"
    and run: "xmon_loader X td x = Some (idtr, out)"
  shows "heap_inv (outcome_state out) \<and> heap_base (outcome_state out) = B
    \<and> heap_tops (outcome_state out) = B + XMON_LOADER_HEAP_SIZE"
proof -
  define m where "m = store32 (a_heap_size X) XMON_LOADER_HEAP_SIZE (store32 (a_heap_base X) B (mem (ld x)))"
  define s0 where "s0 = initialize_memory_manager (a_heap_base X) (a_heap_size X) ((ld x)\<lparr>mem := m\<rparr>)"
  have "load32 m (a_heap_base X) = B" "load32 m (a_heap_size X) = XMON_LOADER_HEAP_SIZE"
    using assms(3) by (simp_all add: m_def load_after_store sep_sym)
  then have s0: "heap_base s0 = B" "heap_current s0 = B" "heap_tops s0 = B + XMON_LOADER_HEAP_SIZE"
    by (simp_all add: s0_def initialize_memory_manager_def Let_def)
  have "unat (B + XMON_LOADER_HEAP_SIZE) = unat B + unat XMON_LOADER_HEAP_SIZE"
    using fit by (simp add: unat_word_ariths(1))
  then have "heap_typed s0" using s0 assms(4) fit by (simp add: heap_typed_def heap_inv_def word_le_nat_alt)
  then have "heap_kept s0 (outcome_state out)"
    using xmon_loader_kept [OF assms(2) _ run] by (simp add: s0_def m_def B_def)
  then show ?thesis using s0 by (simp add: heap_kept_def heap_typed_def)
qed

theorem xmon_loader_heap_typed_witness:
  "\<exists>idtr s. xmon_loader demo_xmon 0x100000 (demo_x64\<lparr>ld := small_heap\<lparr>mem := (\<lambda>_. 0)\<rparr>\<rparr>) = Some (idtr, Returned s)
    \<and> 0x111000 \<le> heap_current s \<and> heap_current s \<le> 0x1B1000"
proof -
  let ?x = "demo_x64\<lparr>ld := small_heap\<lparr>mem := (\<lambda>_. 0)\<rparr>\<rparr>"
  obtain idtr s where run: "xmon_loader demo_xmon 0x100000 ?x = Some (idtr, Returned s)"
    using no_map_returns [of demo_xmon ?x "0x100000"] by (auto simp: demo_no_map)
  have b: "XMON_LOADER_HEAP_BASE (\<lambda>_. 0) 0x100000 = 0x111000"
    by (simp add: xmon_map XMON_PKG_SIZE_def guest1_start_def guest1_count_def mem_eval)
  have "heap_inv s \<and> heap_base s = 0x111000 \<and> heap_tops s = 0x1B1000"
    using xmon_loader_heap_typed [OF _ _ _ _ run] page_round_up_ok
    by (simp add: b demo_xmon_def sep_def XMON_LOADER_HEAP_SIZE_def outcome_state_def)
  then show ?thesis using run by (auto simp: heap_inv_def)
qed

end
