(* ===== verification/Guest_Launch.thy ===== *)
theory Guest_Launch
  imports Linux_Loader
begin

text \<open>
  The hand-over to Linux as a whole: \<^verbatim>\<open>load_primary_guest_kernel\<close> prints its message, hides the monitor's memory from the
  multiboot map, prepares the kernel's setup header and the boot parameters and jumps. The theories \<open>E820\<close> and
  \<open>Linux_Loader\<close> treat these steps one by one; here they are composed, on a multiboot information with one accepted
  kernel module and no initrd, and the theorem at the end says what Linux is told.
\<close>

section \<open>Narrow stores and loads\<close>

lemma load_after_narrow:
  "sep a 1 b 4 \<Longrightarrow> load32 (store8 a v8 m) b = load32 m b"
  "sep a 2 b 4 \<Longrightarrow> load32 (store16 a v16 m) b = load32 m b"
  "sep a 1 b 2 \<Longrightarrow> load16 (store8 a v8 m) b = load16 m b"
  "sep a 2 b 2 \<Longrightarrow> load16 (store16 a v16 m) b = load16 m b"
  "sep a 4 b 2 \<Longrightarrow> load16 (store32 a v32 m) b = load16 m b"
  "sep a 1 b 1 \<Longrightarrow> store8 a v8 m b = m b"
  "sep a 2 b 1 \<Longrightarrow> store16 a v16 m b = m b"
  "sep a 4 b 1 \<Longrightarrow> store32 a v32 m b = m b"
  by (auto intro!: load_cong store_other simp: store_other sep_in_range)

section \<open>Structures that stay the same\<close>

lemma mbi_cong:
  assumes "agree_on mbi 52 m m'"
  shows "mbi_flags m' mbi = mbi_flags m mbi" "mods_count m' mbi = mods_count m mbi" "mods_addr m' mbi = mods_addr m mbi"
    "mmap_length m' mbi = mmap_length m mbi" "mmap_addr m' mbi = mmap_addr m mbi"
  using agree_on_load(2) [OF assms] by (simp_all add: mbi_fields inside_def)

lemma mod_cong:
  assumes "agree_on md 16 m m'"
  shows "mod_start m' md = mod_start m md" "mod_end m' md = mod_end m md" "mod_cmdline m' md = mod_cmdline m md"
  using agree_on_load(2) [OF assms] by (simp_all add: mod_start_def mod_end_def mod_cmdline_def inside_def)

section \<open>expand_linux_image\<close>

text \<open>The checks that the header of a kernel image has to pass, and the entry point of its protected-mode part.\<close>

definition bootable_header :: "mem \<Rightarrow> u32 \<Rightarrow> u32 \<Rightarrow> bool" where
  "bootable_header m img sz \<longleftrightarrow> (let sh = img + o_setup_hdr in
     img \<noteq> 0 \<and> sizeof_linux_kernel_header \<le> sz \<and> m (sh + o_setup_sects) \<le> MAX_SECTOR_NUM
     \<and> load32 m (sh + o_header) = HDRS_MAGIC \<and> m (sh + o_loadflags) AND FLAG_LOAD_HIGH \<noteq> 0
     \<and> 0x020a \<le> load16 m (sh + o_version) \<and> m (sh + o_relocatable_kernel) \<noteq> 0)"

definition kernel_entry :: "mem \<Rightarrow> u32 \<Rightarrow> u32" where
  "kernel_entry m img = (let k = m (img + o_setup_hdr + o_setup_sects) in
     img + (ucast (if k = 0 then DEFAULT_SECTOR_NUM else k) + 1) * SECTOR_SIZE)"

lemma expand_reaches_finish:
  fixes s :: loader_state and img :: u32
  defines "sh \<equiv> img + o_setup_hdr" and "bp \<equiv> heap_current s"
  defines "cs \<equiv> load32 (mem s) (sh + o_cmdline_size)"
  assumes hdr: "bootable_header (mem s) img sz" and noinitrd: "ini = 0 \<or> isz = 0"
    and heap: "bp \<noteq> 0" "unat bp + 4096 + unat cs \<le> unat (heap_tops s)"
    and apart: "sep bp (4096 + unat cs) sh 115"
  obtains prot ib s2 where
    "expand_linux_image pa pmask mbi img sz ini isz s
       = finish_linux_image pa mbi img bp prot (kernel_entry (mem s) img) ini isz ib s2"
    "\<forall>x. \<not> in_range sh 115 x \<longrightarrow> \<not> in_range bp (4096 + unat cs) x \<longrightarrow> mem s2 x = mem s x"
    "load32 (mem s2) (sh + o_cmdline_size) = cs" "load32 (mem s2) (sh + o_cmd_line_ptr) = bp + 4096"
    "heap_current s2 = bp + (4096 + cs)" "heap_tops s2 = heap_tops s"
proof -
  let ?K = "4096 + unat cs"
  let ?k = "if mem s (sh + o_setup_sects) = 0 then DEFAULT_SECTOR_NUM else mem s (sh + o_setup_sects)"
  define m0 where "m0 = (if mem s (sh + o_setup_sects) = 0 then store8 (sh + o_setup_sects) DEFAULT_SECTOR_NUM (mem s) else mem s)"
  have K: "unat (4096 + cs) = ?K" using heap(2) unat_bound(3) [of "heap_tops s"] by (simp add: unat_word_ariths(1))
  have room: "\<not> bp + (4096 + cs) > heap_tops s"
    using heap(2) unat_bound(3) [of "heap_tops s"] K by (simp add: word_less_nat_alt unat_word_ariths(1))
  define m1 where "m1 = zero_mem bp (4096 + cs) m0"
  define s1 where "s1 = s\<lparr>mem := m1, heap_current := bp + (4096 + cs)\<rparr>"
  have al: "allocate_memory (sizeof_boot_params + cs) (s\<lparr>mem := m0\<rparr>) = (bp, s1)"
    using room by (simp add: allocate_memory_def s1_def m1_def sizeof_boot_params_def bp_def Let_def)
  have m0: "m0 (sh + o_setup_sects) = ?k" "load32 m0 (sh + o_header) = load32 (mem s) (sh + o_header)"
    "m0 (sh + o_loadflags) = mem s (sh + o_loadflags)" "load32 m0 (sh + o_cmdline_size) = cs"
    "load16 m0 (sh + o_version) = load16 (mem s) (sh + o_version)"
    "m0 (sh + o_relocatable_kernel) = mem s (sh + o_relocatable_kernel)"
    by (simp_all add: m0_def setup_offsets load_after_narrow sep_def cs_def)
  have ag: "agree_on sh 115 m0 m1"
    by (rule frame_agree [OF _ apart]) (simp add: m1_def zero_mem_apply K)
  have at: "m1 (sh + d) = m0 (sh + d)" if "unat d < 115" for d
    using ag that by (simp add: agree_on_def)
  have m1: "load16 m1 (sh + o_version) = load16 (mem s) (sh + o_version)" "load32 m1 (sh + o_cmdline_size) = cs"
    "m1 (sh + o_relocatable_kernel) = mem s (sh + o_relocatable_kernel)"
    using agree_on_load(1) [OF ag, of "sh + o_version"] agree_on_load(2) [OF ag, of "sh + o_cmdline_size"] m0
      at [of o_relocatable_kernel]
    by (simp_all add: inside_def setup_offsets)
  define m2 where "m2 = store32 (sh + o_cmd_line_ptr) (bp + 4096) m1"
  define m3 where "m3 = store8 (sh + o_type_of_loader) GRUB_LINUX_BOOT_LOADER_TYPE m2"
  define m4 where "m4 = store8 (sh + o_loadflags) (m3 (sh + o_loadflags) AND NOT FLAG_CAN_USE_HEAP) m3"
  note ms = m4_def m3_def m2_def
  have v2: "load16 m2 (sh + o_version) = load16 (mem s) (sh + o_version)"
    using m1 by (simp add: m2_def setup_offsets load_after_narrow sep_def)
  have m4: "m4 (sh + o_relocatable_kernel) = mem s (sh + o_relocatable_kernel)" "load32 m4 (sh + o_cmdline_size) = cs"
    "load32 m4 (sh + o_cmd_line_ptr) = bp + 4096"
    using m1 by (simp_all add: ms setup_offsets load_after_narrow load_after_store sep_def)
  have out: "m4 x = mem s x" if x: "\<not> in_range sh 115 x" "\<not> in_range bp ?K x" for x
  proof -
    have "m4 x = m1 x" using not_sub_block(1) [OF x(1), of 55 4] not_sub_block(1) [OF x(1), of 31 1]
        not_sub_block(1) [OF x(1), of 32 1] by (simp add: ms setup_offsets store_other)
    moreover have "m1 x = m0 x" using x(2) by (simp add: m1_def zero_mem_apply K)
    moreover have "m0 x = mem s x" using not_sub_block(2) [OF x(1), of 1] by (simp add: m0_def store_other o_setup_sects_def)
    ultimately show ?thesis by simp
  qed
  have ok: "img \<noteq> 0" "\<not> sz < sizeof_linux_kernel_header" "sz \<noteq> 0" "\<not> ?k > MAX_SECTOR_NUM"
    "load32 (mem s) (sh + o_header) = HDRS_MAGIC" "mem s (sh + o_loadflags) AND FLAG_LOAD_HIGH \<noteq> 0"
    "\<not> load16 (mem s) (sh + o_version) < 0x020a" "mem s (sh + o_relocatable_kernel) \<noteq> 0"
    using hdr by (auto simp: bootable_header_def sh_def [symmetric] Let_def sizeof_linux_kernel_header_def
        DEFAULT_SECTOR_NUM_def MAX_SECTOR_NUM_def)
  obtain rb rs where r: "get_highest_sized_ram m4 mbi (ucast isz) 0x100000000 = (rb, rs)" by fastforce
  have ptr: "store32 (sh + o_cmd_line_ptr) (bp + sizeof_boot_params) (mem s1) = m2"
    by (simp add: m2_def s1_def sizeof_boot_params_def)
  have no: "(ini \<noteq> 0 \<and> isz \<noteq> 0) = False" using noinitrd by simp
  have ent: "img + (ucast ?k + 1) * SECTOR_SIZE = kernel_entry (mem s) img"
    by (simp add: kernel_entry_def sh_def Let_def)
  have "expand_linux_image pa pmask mbi img sz ini isz s
       = finish_linux_image pa mbi img bp (pa (load32 m2 (sh + o_init_size))) (kernel_entry (mem s) img) ini isz
           (initrd_target pmask m4 sh rb rs isz) (s1\<lparr>mem := m4\<rparr>)"
    unfolding expand_linux_image_def
    by (simp only: Let_def sh_def [symmetric] m0_def [symmetric] m0 al split_conv loader_state.simps ptr
        m3_def [symmetric] m4_def [symmetric] r v2 m4 ok heap(1) no ent if_False de_Morgan_disj simp_thms)
      (simp add: s1_def)
  then show ?thesis by (rule that) (use out m4 in \<open>simp_all add: s1_def\<close>)
qed

text \<open>A string in memory, as the scan finds it.\<close>

definition string_at :: "mem \<Rightarrow> u32 \<Rightarrow> nat \<Rightarrow> bool" where
  "string_at m a len \<longleftrightarrow> (\<forall>i < len. m (a + of_nat i) \<noteq> 0) \<and> m (a + of_nat len) = 0"

lemma string_at_strlen: "string_at m a len \<Longrightarrow> linux_strlen m a = Some (of_nat len)"
  using strlen_loop_zero [of len m a 0] by (simp add: string_at_def linux_strlen_def)

lemma unat_of_nat_le: "unat (of_nat i :: u32) \<le> i"
  by (simp add: unsigned_of_nat take_bit_nat_eq_self_iff take_bit_eq_mod)

lemma string_at_cong:
  assumes "agree_on a (Suc len) m m'"
  shows "string_at m' a len \<longleftrightarrow> string_at m a len"
proof -
  have "m' (a + of_nat i) = m (a + of_nat i)" if "i \<le> len" for i
    using assms that unat_of_nat_le [of i] by (auto simp: agree_on_def)
  then show ?thesis by (simp add: string_at_def)
qed

lemma boot_of_array:
  assumes "agree_on mmap (24 * n) m m'" and "n \<le> E820MAX" and "j < n"
  shows "boot_of m' (mmap + of_nat j * 24) = boot_of m (mmap + of_nat j * 24)"
proof (rule boot_of_cong)
  have "inside (mmap + of_nat j * 24) 24 mmap (24 * n)"
    using unat_of_nat32 [of "24 * j"] assms(2,3) by (simp add: inside_def mult.commute E820MAX_def)
  then show "agree_on (mmap + of_nat j * 24) 24 m m'"
    using assms(1) inside_in_range by (simp add: agree_on_def)
qed

text \<open>The rest of the function, when there is no initrd.\<close>

lemma finish_ok:
  fixes s :: loader_state and img mbi bp cs :: u32
  defines "sh \<equiv> img + o_setup_hdr" and "K \<equiv> 4096 + unat cs" and "md \<equiv> mods_addr (mem s) mbi"
    and "n \<equiv> unat (mmap_length (mem s) mbi div 24)" and "mmap \<equiv> mmap_addr (mem s) mbi"
  defines "cl \<equiv> mod_cmdline (mem s) md"
  assumes noinitrd: "ini = 0 \<or> isz = 0" and mods: "mods_count (mem s) mbi \<noteq> 0"
    and str: "string_at (mem s) cl len" "len \<le> unat cs"
    and hdr: "load32 (mem s) (sh + o_cmdline_size) = cs" "load32 (mem s) (sh + o_cmd_line_ptr) = bp + 4096"
    and map: "mbi_flags (mem s) mbi AND MBI_MEMMAP \<noteq> 0" "n \<le> E820MAX"
    and apart: "\<forall>(b, k) \<in> {(mbi, 52), (md, 16), (mmap, 24 * n), (cl, Suc len)}. sep bp K b k \<and> sep sh 115 b k"
      "sep bp K sh 115"
  obtains s' where "finish_linux_image pa mbi img bp prot base ini isz ib s = Some (Inr (bp, base), s')"
    "mem s' (bp + o_e820_entries) = of_nat n"
    "\<forall>j < n. boot_read (mem s') (boot_entry bp j) = boot_of (mem s) (mmap + of_nat j * 24)"
    "\<forall>i < len. mem s' (bp + 4096 + of_nat i) = mem s (cl + of_nat i)"
    "load32 (mem s') (bp + o_setup_hdr + o_cmd_line_ptr) = bp + 4096"
proof -
  define m1 where "m1 = store16 (sh + o_vid_mode) GRUB_LINUX_VID_MODE_NORMAL (store32 (sh + o_code32_start) base
    (store32 (sh + o_ramdisk_size) 0 (store32 (sh + o_ramdisk_image) 0 (mem s))))"
  have h1: "load32 m1 (sh + o_cmdline_size) = cs" "load32 m1 (sh + o_cmd_line_ptr) = bp + 4096"
    "load32 m1 (sh + o_code32_start) = base"
    using hdr by (simp_all add: m1_def setup_offsets load_after_store load_after_narrow sep_def)
  have out1: "m1 x = mem s x" if "\<not> in_range sh 115 x" for x
    using not_sub_block(1) [OF that, of 9 2] not_sub_block(1) [OF that, of 35 4] not_sub_block(1) [OF that, of 43 4]
      not_sub_block(1) [OF that, of 39 4] by (simp add: m1_def setup_offsets store_other)
  have len: "unat (of_nat len :: u32) = len" using str(2) unat_bound(3) [of cs] by (intro unat_of_nat32) simp
  define m2 where "m2 = mon_memcpy (bp + 4096) cl (of_nat len) m1"
  have out2: "m2 x = m1 x" if "\<not> in_range bp K x" for x
    unfolding m2_def using not_sub_block(1) [OF that, of 4096 len] str(2)
    by (intro mon_memcpy_other) (simp add: len K_def)
  have parts: "sep sh 115 b k" "sep bp K b k" if "(b, k) \<in> {(mbi, 52), (md, 16), (mmap, 24 * n), (cl, Suc len)}" for b k
    using apart(1) that by auto
  have ag1: "agree_on b k (mem s) m1" if "(b, k) \<in> {(mbi, 52), (md, 16), (mmap, 24 * n), (cl, Suc len)}" for b k
    by (rule frame_agree [OF out1 parts(1) [OF that]])
  have ag2: "agree_on b k (mem s) m2" if "(b, k) \<in> {(mbi, 52), (md, 16), (mmap, 24 * n), (cl, Suc len)}" for b k
    using ag1 [OF that] frame_agree [OF out2 parts(2) [OF that]] by (rule agree_on_trans)
  have v1: "mods_count m1 mbi = mods_count (mem s) mbi" "mods_addr m1 mbi = md" "mod_cmdline m1 md = cl"
    using mbi_cong(2,3) [OF ag1, of mbi] mod_cong(3) [OF ag1, of md] by (simp_all add: md_def [symmetric] cl_def [symmetric])
  have v2: "mbi_flags m2 mbi = mbi_flags (mem s) mbi" "mmap_length m2 mbi = mmap_length (mem s) mbi" "mmap_addr m2 mbi = mmap"
    using mbi_cong(1,4,5) [OF ag2, of mbi] by (simp_all add: mmap_def [symmetric])
  have "string_at m1 cl len" using string_at_cong [OF ag1, of cl len] str(1) by simp
  then have sl: "linux_strlen m1 cl = Some (of_nat len)" by (rule string_at_strlen)
  have small: "\<not> of_nat len > cs" using str(2) len by (simp add: word_less_nat_alt)
  have le: "sep bp 4096 b k" if "sep bp K b k" for b k
    using that by (simp add: sep_def K_def)
  have "\<exists>s'. setup_boot_params mbi bp img (s\<lparr>mem := m2\<rparr>) = Some (True, s') \<and> mem s' (bp + o_e820_entries) = of_nat n
    \<and> (\<forall>j < n. boot_read (mem s') (boot_entry bp j) = boot_of m2 (mmap + of_nat j * 24))
    \<and> (\<forall>x. \<not> in_range bp 4096 x \<longrightarrow> mem s' x = m2 x)
    \<and> (\<forall>x. sep bp 4096 sh 115 \<longrightarrow> in_range (bp + o_setup_hdr) 115 x \<longrightarrow> mem s' x = m2 (sh + (x - (bp + o_setup_hdr))))"
    using setup_boot_params_run [of "s\<lparr>mem := m2\<rparr>" mbi bp img] map v2 parts(2) le
    by (simp add: n_def sh_def)
  then obtain s' where run: "setup_boot_params mbi bp img (s\<lparr>mem := m2\<rparr>) = Some (True, s')"
    and ent: "mem s' (bp + o_e820_entries) = of_nat n"
    and tab: "\<And>j. j < n \<Longrightarrow> boot_read (mem s') (boot_entry bp j) = boot_of m2 (mmap + of_nat j * 24)"
    and fr: "\<And>x. \<not> in_range bp 4096 x \<Longrightarrow> mem s' x = m2 x"
    and cp: "\<And>x. in_range (bp + o_setup_hdr) 115 x \<Longrightarrow> mem s' x = m2 (sh + (x - (bp + o_setup_hdr)))"
    using le [OF apart(2)] by auto
  have no: "(ini \<noteq> 0 \<and> isz \<noteq> 0) = False" using noinitrd by simp
  have gm: "get_mbi_module mbi MVMLINUZ (s\<lparr>mem := m1\<rparr>) = (md, s\<lparr>mem := m1\<rparr>)"
    using mods v1 by (simp add: get_mbi_module_def MVMLINUZ_def)
  have hd: "load32 (mem s') (bp + o_setup_hdr + d) = load32 m1 (sh + d)" if d: "unat d + 4 \<le> 115" for d
  proof -
    have "mem s' (bp + o_setup_hdr + (d + e)) = m1 (sh + (d + e))" if "unat e < 4" for e
    proof -
      have "unat (d + e) < 115" using d that by (simp add: unat_word_ariths(1))
      then show ?thesis using cp [of "bp + o_setup_hdr + (d + e)"] out2 sep_in_range [OF apart(2)] by simp
    qed
    from this [of 0] this [of 1] this [of 2] this [of 3] show ?thesis
      by (simp add: load32_def add.assoc)
  qed
  have "finish_linux_image pa mbi img bp prot base ini isz ib s
    = Some (Inr (bp, load32 (mem s') (bp + o_setup_hdr + o_code32_start)), s')"
    unfolding finish_linux_image_def
    by (simp only: Let_def sh_def [symmetric] no if_False simp_thms m1_def [symmetric] gm split_conv)
      (simp add: v1 sl h1 small m2_def [symmetric] run)
  moreover have "boot_of m2 (mmap + of_nat j * 24) = boot_of (mem s) (mmap + of_nat j * 24)" if j: "j < n" for j
    by (rule boot_of_array [OF ag2 map(2) j]) simp
  moreover have "mem s' (bp + 4096 + of_nat i) = mem s (cl + of_nat i)" if i: "i < len" for i
  proof -
    have ui: "unat (of_nat i :: u32) = i" using i str(2) unat_bound(3) [of cs] by (intro unat_of_nat32) simp
    have K: "K < 2 ^ 32" using apart(2) unat_bound(3) [of "sh - bp"] by (simp add: sep_def)
    have far: "sep (bp + 4096) len cl len"
      by (rule sep_inside [OF parts(2) [of cl "Suc len"]]) (use str(2) in \<open>simp_all add: inside_def K_def\<close>)
    have "\<not> in_range bp 4096 (bp + (4096 + of_nat i))"
      using K i str(2) ui unfolding in_range_add by (simp add: unat_word_ariths(1) K_def)
    then have "\<not> in_range bp 4096 (bp + 4096 + of_nat i)" by (simp only: add.assoc not_False_eq_True)
    then have "mem s' (bp + 4096 + of_nat i) = m2 (bp + 4096 + of_nat i)" by (rule fr)
    also have "\<dots> = m1 (cl + of_nat i)" using far i by (simp add: m2_def mon_memcpy_apply len ui)
    also have "\<dots> = mem s (cl + of_nat i)" using ag1 [of cl "Suc len"] i ui by (simp add: agree_on_def)
    finally show ?thesis .
  qed
  ultimately show ?thesis using that [of s'] ent tab hd [of o_code32_start] hd [of o_cmd_line_ptr] h1
    by (simp add: setup_offsets)
qed

section \<open>A kernel that can be launched\<close>

text \<open>Where the first boot module, the setup header of its image and its command line are.\<close>

definition kernel_at :: "mem \<Rightarrow> u32 \<Rightarrow> u32" where
  "kernel_at m mbi = mod_start m (mods_addr m mbi)"

definition setup_at :: "mem \<Rightarrow> u32 \<Rightarrow> u32" where
  "setup_at m mbi = kernel_at m mbi + o_setup_hdr"

definition cmdline_at :: "mem \<Rightarrow> u32 \<Rightarrow> u32" where
  "cmdline_at m mbi = mod_cmdline m (mods_addr m mbi)"

definition cmdline_max :: "mem \<Rightarrow> u32 \<Rightarrow> u32" where
  "cmdline_max m mbi = load32 m (setup_at m mbi + o_cmdline_size)"

text \<open>
  A multiboot information with a memory map and a kernel module whose header the loader accepts, no initrd, and a
  command line of \<open>len\<close> characters that the kernel accepts. (The lookup of the initrd is satisfied with
  one module, and then reads the slot behind it.)
\<close>

definition guest_ready :: "mem \<Rightarrow> u32 \<Rightarrow> nat \<Rightarrow> bool" where
  "guest_ready m mbi len \<longleftrightarrow> (let md = mods_addr m mbi in
     md \<noteq> 0 \<and> mods_count m mbi \<noteq> 0 \<and> mbi_flags m mbi AND MBI_MEMMAP \<noteq> 0
     \<and> bootable_header m (kernel_at m mbi) (mod_end m md - mod_start m md)
     \<and> (mod_start m (md + 16) = 0 \<or> mod_end m (md + 16) = mod_start m (md + 16))
     \<and> string_at m (cmdline_at m mbi) len \<and> len \<le> unat (cmdline_max m mbi))"

text \<open>The memory that all this is read from.\<close>

definition guest_blocks :: "mem \<Rightarrow> u32 \<Rightarrow> nat \<Rightarrow> (u32 \<times> nat) list" where
  "guest_blocks m mbi len = [(mbi, 44), (mods_addr m mbi, 32), (setup_at m mbi, 115), (cmdline_at m mbi, Suc len)]"

lemma header_cong:
  assumes "agree_on (img + o_setup_hdr) 115 m m'"
  shows "bootable_header m' img sz = bootable_header m img sz" "kernel_entry m' img = kernel_entry m img"
    "load32 m' (img + o_setup_hdr + o_cmdline_size) = load32 m (img + o_setup_hdr + o_cmdline_size)"
proof -
  have at: "m' (img + o_setup_hdr + d) = m (img + o_setup_hdr + d)" if "unat d < 115" for d
    using assms that by (simp add: agree_on_def)
  note ld = agree_on_load [OF assms, unfolded inside_def]
  show "bootable_header m' img sz = bootable_header m img sz" "kernel_entry m' img = kernel_entry m img"
    "load32 m' (img + o_setup_hdr + o_cmdline_size) = load32 m (img + o_setup_hdr + o_cmdline_size)"
    using at [of o_setup_sects] at [of o_loadflags] at [of o_relocatable_kernel]
      ld(1) [of "img + o_setup_hdr + o_version"] ld(2) [of "img + o_setup_hdr + o_header"]
      ld(2) [of "img + o_setup_hdr + o_cmdline_size"]
    by (simp_all add: bootable_header_def kernel_entry_def Let_def setup_offsets)
qed

lemma guest_cong:
  assumes "\<And>b k. (b, k) \<in> set (guest_blocks m mbi len) \<Longrightarrow> agree_on b k m m'"
  shows "mods_addr m' mbi = mods_addr m mbi" "kernel_at m' mbi = kernel_at m mbi" "setup_at m' mbi = setup_at m mbi"
    "cmdline_at m' mbi = cmdline_at m mbi" "cmdline_max m' mbi = cmdline_max m mbi"
    "guest_ready m' mbi len = guest_ready m mbi len" "guest_blocks m' mbi len = guest_blocks m mbi len"
    "kernel_entry m' (kernel_at m' mbi) = kernel_entry m (kernel_at m mbi)"
proof -
  let ?md = "mods_addr m mbi"
  note mb = agree_on_load(2) [OF assms, of mbi 44] and ld = agree_on_load(2) [OF assms, of ?md 32]
  have mbi: "mods_addr m' mbi = ?md" "mods_count m' mbi = mods_count m mbi" "mbi_flags m' mbi = mbi_flags m mbi"
    using mb by (simp_all add: guest_blocks_def mbi_fields inside_def)
  have md: "mod_start m' ?md = mod_start m ?md" "mod_end m' ?md = mod_end m ?md" "mod_cmdline m' ?md = mod_cmdline m ?md"
    "mod_start m' (?md + 16) = mod_start m (?md + 16)" "mod_end m' (?md + 16) = mod_end m (?md + 16)"
    using ld by (simp_all add: guest_blocks_def mod_start_def mod_end_def mod_cmdline_def inside_def add.assoc)
  show addrs: "mods_addr m' mbi = ?md" "kernel_at m' mbi = kernel_at m mbi" "setup_at m' mbi = setup_at m mbi"
    "cmdline_at m' mbi = cmdline_at m mbi"
    using mbi md by (simp_all add: kernel_at_def setup_at_def cmdline_at_def)
  note hd = header_cong [OF assms [of "setup_at m mbi" 115, unfolded setup_at_def]]
  show mx: "cmdline_max m' mbi = cmdline_max m mbi"
    using hd(3) addrs by (simp add: cmdline_max_def setup_at_def guest_blocks_def)
  show "guest_ready m' mbi len = guest_ready m mbi len"
    using mbi md addrs mx hd(1) string_at_cong [OF assms, of "cmdline_at m mbi" len]
    by (simp add: guest_ready_def guest_blocks_def setup_at_def)
  show "guest_blocks m' mbi len = guest_blocks m mbi len" using addrs by (simp add: guest_blocks_def)
  show "kernel_entry m' (kernel_at m' mbi) = kernel_entry m (kernel_at m mbi)"
    using hd(2) addrs by (simp add: guest_blocks_def setup_at_def)
qed

section \<open>The launch\<close>

lemma launch_ok:
  fixes s :: loader_state and mbi :: u32
  defines "m \<equiv> mem s" and "bp \<equiv> heap_current s"
  defines "K \<equiv> 4096 + unat (cmdline_max m mbi)" and "n \<equiv> unat (mmap_length m mbi div 24)" and "mmap \<equiv> mmap_addr m mbi"
  assumes ready: "guest_ready m mbi len" and few: "n \<le> E820MAX"
    and heap: "bp \<noteq> 0" "unat bp + K \<le> unat (heap_tops s)"
    and apart: "\<forall>(b, k) \<in> {(mbi, 52), (mods_addr m mbi, 16), (mmap, 24 * n), (cmdline_at m mbi, Suc len)}.
        sep bp K b k \<and> sep (setup_at m mbi) 115 b k" "sep bp K (setup_at m mbi) 115"
  obtains s' where "launch_linux_kernel pa pmask gdt mbi s = Some (Jump_to_kernel 31 gdt bp (kernel_entry m (kernel_at m mbi)), s')"
    "mem s' (bp + o_e820_entries) = of_nat n"
    "\<forall>j < n. boot_read (mem s') (boot_entry bp j) = boot_of m (mmap + of_nat j * 24)"
    "\<forall>i < len. mem s' (bp + 4096 + of_nat i) = m (cmdline_at m mbi + of_nat i)"
    "load32 (mem s') (bp + o_setup_hdr + o_cmd_line_ptr) = bp + 4096"
proof -
  let ?md = "mods_addr m mbi" and ?img = "kernel_at m mbi" and ?sh = "setup_at m mbi"
  let ?R = "{(mbi, 52), (?md, 16), (mmap, 24 * n), (cmdline_at m mbi, Suc len)}"
  define sz where "sz = mod_end m ?md - mod_start m ?md"
  have r: "?md \<noteq> 0" "mods_count m mbi \<noteq> 0" "mbi_flags m mbi AND MBI_MEMMAP \<noteq> 0" "bootable_header m ?img sz"
    "string_at m (cmdline_at m mbi) len" "len \<le> unat (cmdline_max m mbi)"
    "mod_start m (?md + 16) = 0 \<or> mod_end m (?md + 16) = mod_start m (?md + 16)"
    using ready by (simp_all add: guest_ready_def Let_def sz_def)
  obtain ini isz where ini: "(if ?md + 16 = 0 then (0, 0)
      else (mod_start m (?md + 16), mod_end m (?md + 16) - mod_start m (?md + 16))) = (ini, isz)" by fastforce
  then have no: "ini = 0 \<or> isz = 0" using r(7) by (auto split: if_splits)
  obtain prot ib s2 where ex: "expand_linux_image pa pmask mbi ?img sz ini isz s
       = finish_linux_image pa mbi ?img bp prot (kernel_entry m ?img) ini isz ib s2"
    and fr: "\<And>x. \<not> in_range ?sh 115 x \<Longrightarrow> \<not> in_range bp K x \<Longrightarrow> mem s2 x = m x"
    and cs: "load32 (mem s2) (?sh + o_cmdline_size) = cmdline_max m mbi"
    and ptr: "load32 (mem s2) (?sh + o_cmd_line_ptr) = bp + 4096"
    by (rule expand_reaches_finish [of s ?img sz ini isz pa pmask mbi])
      (use r(4) no heap apart(2) in \<open>auto simp: m_def bp_def K_def setup_at_def cmdline_max_def\<close>)
  have parts: "sep bp K b k" "sep ?sh 115 b k" if "(b, k) \<in> ?R" for b k using apart(1) that by auto
  have ag: "agree_on b k m (mem s2)" if "(b, k) \<in> ?R" for b k
    unfolding agree_on_def using fr sep_in_range [OF parts(1) [OF that]] sep_in_range [OF parts(2) [OF that]] by metis
  have mb: "mods_count (mem s2) mbi = mods_count m mbi" "mods_addr (mem s2) mbi = ?md" "mbi_flags (mem s2) mbi = mbi_flags m mbi"
    "mmap_length (mem s2) mbi = mmap_length m mbi" "mmap_addr (mem s2) mbi = mmap"
    using mbi_cong [OF ag, of mbi] by (simp_all add: mmap_def [symmetric])
  have cl: "mod_cmdline (mem s2) ?md = cmdline_at m mbi" using mod_cong(3) [OF ag, of ?md] by (simp add: cmdline_at_def)
  have str: "string_at (mem s2) (cmdline_at m mbi) len" using string_at_cong [OF ag, of "cmdline_at m mbi" len] r(5) by simp
  obtain s' where fin: "finish_linux_image pa mbi ?img bp prot (kernel_entry m ?img) ini isz ib s2
      = Some (Inr (bp, kernel_entry m ?img), s')"
    and e: "mem s' (bp + o_e820_entries) = of_nat n"
    and t: "\<forall>j < n. boot_read (mem s') (boot_entry bp j) = boot_of (mem s2) (mmap + of_nat j * 24)"
    and c: "\<forall>i < len. mem s' (bp + 4096 + of_nat i) = mem s2 (cmdline_at m mbi + of_nat i)"
    and p: "load32 (mem s') (bp + o_setup_hdr + o_cmd_line_ptr) = bp + 4096"
    by (rule finish_ok [where s = s2 and mbi = mbi and img = ?img and bp = bp and cs = "cmdline_max m mbi" and len = len
          and ini = ini and isz = isz and pa = pa and prot = prot and base = "kernel_entry m ?img" and ib = ib, unfolded mb cl])
      (use no r str cs ptr few apart in \<open>simp_all add: setup_at_def [symmetric] n_def [symmetric] K_def [symmetric]\<close>)
  have "boot_of (mem s2) (mmap + of_nat j * 24) = boot_of m (mmap + of_nat j * 24)" if j: "j < n" for j
    by (rule boot_of_array [OF ag few j]) simp
  moreover have "mem s2 (cmdline_at m mbi + of_nat i) = m (cmdline_at m mbi + of_nat i)" if "i < len" for i
    using ag [of "cmdline_at m mbi" "Suc len"] that unat_of_nat_le [of i] by (simp add: agree_on_def)
  moreover have "launch_linux_kernel pa pmask gdt mbi s = Some (Jump_to_kernel 31 gdt bp (kernel_entry m ?img), s')"
  proof -
    have "get_mbi_module mbi MVMLINUZ s = (?md, s)" "get_mbi_module mbi MINITRD s = (?md + 16, s)"
      using r(2) by (simp_all add: get_mbi_module_def MVMLINUZ_def MINITRD_def m_def word_less_nat_alt unsigned_eq_0_iff)
    then show ?thesis using r(1) ex fin ini
      by (cases "?md + 16 = 0") (auto simp: launch_linux_kernel_def kernel_at_def sz_def m_def [symmetric] jump_linux_image_def linux_gdt_def)
  qed
  ultimately show ?thesis using e t c p by (intro that [of s']) simp_all
qed

section \<open>The hand-over\<close>

definition apart_blocks :: "(u32 \<times> nat) list \<Rightarrow> bool" where
  "apart_blocks bs \<longleftrightarrow> sorted_wrt (\<lambda>(a, n) (b, k). sep a n b k) bs"

text \<open>The map that Linux reads from its boot parameters, and the addresses it takes for available.\<close>

definition boot_map :: "mem \<Rightarrow> u32 \<Rightarrow> (u64 \<times> u64 \<times> u32) list" where
  "boot_map m bp = map (\<lambda>j. boot_read m (boot_entry bp j)) [0..<unat (m (bp + o_e820_entries))]"

definition boot_avail :: "(u64 \<times> u64 \<times> u32) list \<Rightarrow> nat \<Rightarrow> bool" where
  "boot_avail es x \<longleftrightarrow>
     list_ex (\<lambda>(a, l, t). t = MULTIBOOT_MEMORY_AVAILABLE \<and> unat a \<le> x \<and> x < unat a + unat l) es"

definition boot_conv :: "mm_entry \<Rightarrow> u64 \<times> u64 \<times> u32" where
  "boot_conv e = (case e of (sz, a, l, t) \<Rightarrow> (a, l, if t = E820_BAD_MEM then E820_RESERVED_MEM else t))"

lemma boot_of_conv: "boot_of m a = boot_conv (mm_read m a)"
  by (simp add: boot_of_def boot_conv_def mm_read_def)

lemma boot_conv_avail: "boot_avail (map boot_conv es) x \<longleftrightarrow> mm_avail es x"
  by (induction es) (auto simp: boot_avail_def mm_avail_def boot_conv_def E820_BAD_MEM_def E820_RESERVED_MEM_def
      MULTIBOOT_MEMORY_AVAILABLE_def split: if_splits)

lemma td_cong:
  assumes "agree_on td 80 m m'"
  shows "STARTAP_BASE m' td = STARTAP_BASE m td" "XMON_SIZE m' td = XMON_SIZE m td"
  using agree_on_load(2) [OF assms, unfolded inside_def]
  by (simp_all add: xmon_map XMON_PKG_SIZE_def guest1_start_def guest1_count_def xmon_mem_in_mb_def)

lemma boot_map_table:
  assumes "table_at m N 0 res" and "length res \<le> E820MAX"
    and "m' (bp + o_e820_entries) = of_nat (length res)"
    and "\<forall>j < length res. boot_read m' (boot_entry bp j) = boot_of m (N + of_nat j * 24)"
  shows "boot_map m' bp = map boot_conv res"
proof -
  have "unat (m' (bp + o_e820_entries)) = length res"
    using assms(2,3) by (simp add: E820MAX_def unsigned_of_nat take_bit_nat_eq_self)
  moreover have "boot_read m' (boot_entry bp j) = boot_conv (res ! j)" if "j < length res" for j
  proof -
    have "mm_read m (N + of_nat j * 24) = res ! j"
      using assms(1) that by (auto simp: table_at_def new_entry_def)
    then show ?thesis using assms(4) that by (simp add: boot_of_conv)
  qed
  ultimately show ?thesis by (intro nth_equalityI) (simp_all add: boot_map_def)
qed

definition banner :: "u8 list" where
  "banner = lit ''LOADER: prepare to load primary os kernel!\<newline>''"

text \<open>
  Where the blocks of the hand-over lie: the frame buffer, the part of the heap that will be used, and what is read.
\<close>

definition guest_layout :: "mem \<Rightarrow> u32 \<Rightarrow> nat \<Rightarrow> u32 \<Rightarrow> nat \<Rightarrow> bool" where
  "guest_layout m mbi len N W \<longleftrightarrow> apart_blocks [(VGA_BASE_ADDRESS, 0x8000), (N, W), (mbi, 52), (setup_at m mbi, 115),
     (mods_addr m mbi, 32), (cmdline_at m mbi, Suc len)]"

lemma sep_shorter: "sep a n b k \<Longrightarrow> n' \<le> n \<Longrightarrow> k' \<le> k \<Longrightarrow> sep a n' b k'"
  by (simp add: sep_def)

lemma guest_layout_sep:
  assumes "guest_layout m mbi len N W" and "(b, k) \<in> set (guest_blocks m mbi len)"
  shows "sep VGA_BASE_ADDRESS 0x8000 b k" "sep N W b k" "sep (mbi + 44) 8 b k"
proof -
  have m8: "sep (mbi + 44) 8 b k" if "sep mbi 52 b k" "0 < k" for b k
    using sep_sym [OF sep_part [OF sep_sym [OF that(1)], of "mbi + 44" 8]] that(2) by (simp add: inside_def)
  have "sep (mbi + 44) 8 mbi 44" by (simp add: sep_def)
  then show "sep VGA_BASE_ADDRESS 0x8000 b k" "sep N W b k" "sep (mbi + 44) 8 b k"
    using assms by (auto simp: guest_layout_def apart_blocks_def guest_blocks_def intro: m8 sep_shorter)
qed

text \<open>
  The message and the hiding, on a multiboot map with the entries \<open>es\<close>, of which hiding leaves \<open>res\<close>: the new table is
  a heap block of \<open>24 * num\<close> bytes.
\<close>

lemma banner_then_hide:
  fixes s :: loader_state and td mbi :: u32
  defines "m \<equiv> mem s" and "N \<equiv> heap_current s" and "num \<equiv> unat (mmap_length (mem s) mbi) div 24 + 2"
  assumes flag: "mbi_flags m mbi AND MBI_MEMMAP \<noteq> 0" and screen: "cursor_off s + 160 * length banner \<le> 0x8000"
    and heap: "N \<noteq> 0" "unat N + W \<le> unat (heap_tops s)" "24 * num \<le> W"
    and walk: "mmap_walk m (mmap_addr m mbi) (mmap_addr m mbi + mmap_length m mbi) es"
    and spec: "hide_all h z (map (mm_read m) es) = Some res" "length res \<le> num"
    and apart: "guest_layout m mbi len N W" "list_all (\<lambda>e. sep VGA_BASE_ADDRESS 0x8000 e 24 \<and> sep N (24 * num) e 24) es"
  obtains s1 where "hide_runtime_memory mbi h z (print_string banner s) = Some (True, s1)"
    "mmap_addr (mem s1) mbi = N" "mmap_length (mem s1) mbi = 24 * of_nat (length res)" "table_at (mem s1) N 0 res"
    "heap_current s1 = N + of_nat (24 * num)" "heap_tops s1 = heap_tops s"
    "\<And>b k. (b, k) \<in> set (guest_blocks m mbi len) \<Longrightarrow> agree_on b k m (mem s1)"
proof -
  define s0 where "s0 = print_string banner s"
  have f0: "mem s0 x = m x" if "\<not> in_range VGA_BASE_ADDRESS 0x8000 x" for x
    unfolding s0_def m_def by (rule print_string_frame [OF screen _ that]) simp
  have ag0: "agree_on b k m (mem s0)" if "sep VGA_BASE_ADDRESS 0x8000 b k" for b k
    by (rule frame_agree [OF f0 that])
  have heap0: "heap_current s0 = N" "heap_tops s0 = heap_tops s"
    using print_string_same_heap [of s banner] by (simp_all add: s0_def same_heap_def N_def)
  have mb: "sep VGA_BASE_ADDRESS 0x8000 mbi 52" "sep N (24 * num) mbi 52"
    using apart(1) heap(3) by (auto simp: guest_layout_def apart_blocks_def intro: sep_shorter)
  note b0 = mbi_cong [OF ag0 [OF mb(1)]]
  have e0: "agree_on e 24 m (mem s0)" if "e \<in> set es" for e
    using apart(2) that by (intro ag0) (simp add: list_all_iff)
  have "map (mm_read (mem s0)) es = map (mm_read m) es" using mm_read_cong(1) [OF e0] by simp
  then have spec0: "hide_all h z (map (mm_read (mem s0)) es) = Some res" using spec(1) by (simp only:)
  have walk0: "mmap_walk (mem s0) (mmap_addr m mbi) (mmap_addr m mbi + mmap_length m mbi) es"
    using walk by (rule mmap_walk_cong) (rule e0)
  obtain s1 where hide: "hide_runtime_memory mbi h z s0 = Some (True, s1)"
    and s1: "mmap_addr (mem s1) mbi = N" "mmap_length (mem s1) mbi = 24 * of_nat (length res)" "table_at (mem s1) N 0 res"
      "heap_current s1 = N + of_nat (24 * num)" "heap_tops s1 = heap_tops s"
    and f1: "\<And>x. \<not> in_range N (24 * num) x \<Longrightarrow> \<not> in_range (mbi + 44) 8 x \<Longrightarrow> mem s1 x = mem s0 x"
    using hide_runtime_memory_table [of s0 mbi es h z res, unfolded b0 heap0, folded m_def, folded num_def [folded m_def]] flag heap
      walk0 spec0 spec(2) apart(2) mb(2)
    by (auto simp: list_all_iff simp del: of_nat_mult)
  have "agree_on b k m (mem s1)" if "(b, k) \<in> set (guest_blocks m mbi len)" for b k
    using guest_layout_sep [OF apart(1) that] heap(3) sep_in_range not_sub_block(2) f0 f1
    by (auto simp: agree_on_def dest!: sep_in_range)
  with hide s1 show ?thesis by (intro that [of s1]) (simp_all add: s0_def)
qed

text \<open>The first block of the heap, and the next one.\<close>

lemma next_block:
  fixes N bp :: u32
  assumes "bp = N + of_nat n" "unat N + (n + K) < 2 ^ 32" "0 < n"
  shows "unat bp = unat N + n" "sep bp K N n" "0 < K \<Longrightarrow> 0 < k \<Longrightarrow> sep N (n + K) b k \<Longrightarrow> sep bp K b k"
proof -
  define d where "d = (of_nat n :: u32)"
  have d: "unat d = n" "bp = N + d" using assms by (simp_all add: unat_of_nat32 d_def)
  show "unat bp = unat N + n" using d assms(2) by (simp add: unat_word_ariths(1))
  have "unat (0 - d) = 2 ^ 32 - n" using d(1) assms(3) by (subst unat_sub_if') simp
  then show "sep bp K N n" using d assms(2) by (simp add: sep_def)
  show "sep bp K b k" if "0 < K" "0 < k" "sep N (n + K) b k"
    using sep_sym [OF sep_part [OF sep_sym [OF that(3)], of bp K]] that d by (simp add: inside_def)
qed

text \<open>
  The launch from a state in which the map is a table of \<open>res\<close> at \<open>T\<close>, and the heap block of \<open>24 * num\<close> bytes has been taken.
\<close>

lemma launch_after_hide:
  fixes s1 :: loader_state and m :: mem and mbi N T :: u32
  defines "K \<equiv> 4096 + unat (cmdline_max m mbi)" and "bp \<equiv> heap_current s1"
  assumes ready: "guest_ready m mbi len" and res: "length res \<le> E820MAX" "0 < num"
    and heap: "bp = N + of_nat (24 * num)" "unat N + (24 * num + K) \<le> unat (heap_tops s1)"
    and table: "mmap_addr (mem s1) mbi = T" "unat (mmap_length (mem s1) mbi div 24) = length res" "table_at (mem s1) T 0 res"
    and away: "sep bp K T (24 * length res)" "sep (setup_at m mbi) 115 T (24 * length res)"
    and same: "\<And>b k. (b, k) \<in> set (guest_blocks m mbi len) \<Longrightarrow> agree_on b k m (mem s1)"
    and apart: "guest_layout m mbi len N (24 * num + K)"
  obtains s' where "launch_linux_kernel pa pmask gdt mbi s1
      = Some (Jump_to_kernel 31 gdt bp (kernel_entry m (kernel_at m mbi)), s')"
    "boot_map (mem s') bp = map boot_conv res"
    "\<forall>i < len. mem s' (bp + 4096 + of_nat i) = m (cmdline_at m mbi + of_nat i)"
    "load32 (mem s') (bp + o_setup_hdr + o_cmd_line_ptr) = bp + 4096"
proof -
  let ?sh = "setup_at m mbi" and ?cl = "cmdline_at m mbi"
  have c1: "mods_addr (mem s1) mbi = mods_addr m mbi" "setup_at (mem s1) mbi = ?sh" "cmdline_at (mem s1) mbi = ?cl"
    "cmdline_max (mem s1) mbi = cmdline_max m mbi" "guest_ready (mem s1) mbi len = guest_ready m mbi len"
    "kernel_entry (mem s1) (kernel_at (mem s1) mbi) = kernel_entry m (kernel_at m mbi)"
    by (rule guest_cong [of m mbi len "mem s1"], erule same)+
  have lt: "unat N + (24 * num + K) < 2 ^ 32" using heap(2) unat_bound(3) [of "heap_tops s1"] by simp
  note nb = next_block [OF heap(1) lt]
  have pos: "0 < 24 * num" "0 < K" using res(2) by (simp_all add: K_def)
  have bp0: "bp \<noteq> 0" using nb(1) [OF pos(1)] pos(1) by (auto simp del: of_nat_mult)
  have w: "sep N (24 * num + K) mbi 52" "sep N (24 * num + K) ?sh 115" "sep N (24 * num + K) (mods_addr m mbi) 32"
      "sep N (24 * num + K) ?cl (Suc len)" "sep mbi 52 ?sh 115" "sep ?sh 115 (mods_addr m mbi) 32" "sep ?sh 115 ?cl (Suc len)"
    using apart by (simp_all add: guest_layout_def apart_blocks_def)
  note bpK = nb(3) [OF pos]
  have "\<forall>(b, k) \<in> {(mbi, 52), (mods_addr m mbi, 16), (T, 24 * length res), (?cl, Suc len)}. sep bp K b k \<and> sep ?sh 115 b k"
    using bpK [OF _ w(1)] bpK [OF _ w(4)] bpK [OF _ w(3)] away w(5-7) by (auto intro: sep_sym sep_shorter)
  then obtain s' where run: "launch_linux_kernel pa pmask gdt mbi s1
      = Some (Jump_to_kernel 31 gdt bp (kernel_entry m (kernel_at m mbi)), s')"
    and e: "mem s' (bp + o_e820_entries) = of_nat (length res)"
    and t: "\<forall>j < length res. boot_read (mem s') (boot_entry bp j) = boot_of (mem s1) (T + of_nat j * 24)"
    and c: "\<forall>i < len. mem s' (bp + 4096 + of_nat i) = mem s1 (?cl + of_nat i)"
    and ptr: "load32 (mem s') (bp + o_setup_hdr + o_cmd_line_ptr) = bp + 4096"
    using launch_ok [where s = s1 and mbi = mbi and len = len and pa = pa and pmask = pmask and gdt = gdt, unfolded c1 table(1,2), folded bp_def K_def]
      ready res(1) bp0 heap(2) nb(1) [OF pos(1)] bpK [OF _ w(2)] by auto
  have "mem s1 (?cl + of_nat i) = m (?cl + of_nat i)" if "i < len" for i
    using same [of ?cl "Suc len"] that unat_of_nat_le [of i] by (simp add: agree_on_def guest_blocks_def)
  with run c ptr boot_map_table [OF table(3) res(1) e t] show ?thesis by (intro that [of s']) simp_all
qed

section \<open>What Linux is told\<close>

text \<open>
  C3. From a multiboot information with an accepted kernel and a well-formed map, \<^verbatim>\<open>load_primary_guest_kernel\<close> jumps to the
  kernel's protected-mode entry point with the boot parameters of the first heap block after the new map, and the map in
  these boot parameters declares exactly that memory available that the boot loader declared available and that is not
  the run-time memory of \<^verbatim>\<open>startap\<close> and the monitor; the command line is passed unchanged.
\<close>

theorem guest_not_told_of_monitor:
  fixes s :: loader_state and V :: e820_env and td :: u32
  defines "m \<equiv> mem s" and "mbi \<equiv> saved_mbi V (mem s) td" and "N \<equiv> heap_current s"
  defines "h \<equiv> STARTAP_BASE m td" and "z \<equiv> STARTAP_SIZE + XMON_SIZE m td"
    and "num \<equiv> unat (mmap_length m mbi) div 24 + 2" and "K \<equiv> 4096 + unat (cmdline_max m mbi)"
  defines "bp \<equiv> N + of_nat (24 * num)"
  assumes ready: "guest_ready m mbi len" and screen: "cursor_off s + 160 * length banner \<le> 0x8000"
    and heap: "N \<noteq> 0" "unat N + (24 * num + K) \<le> unat (heap_tops s)"
    and walk: "mmap_walk m (mmap_addr m mbi) (mmap_addr m mbi + mmap_length m mbi) es"
    and spec: "hide_all h z (map (mm_read m) es) = Some res" "length res \<le> num" "length res \<le> E820MAX"
    and clean: "list_all (mm_clean h z) (map (mm_read m) es)" "unat h + unat z < 2 ^ 32"
    and apart: "guest_layout m mbi len N (24 * num + K)" "sep VGA_BASE_ADDRESS 0x8000 td 80"
      "list_all (\<lambda>e. sep VGA_BASE_ADDRESS 0x8000 e 24 \<and> sep N (24 * num) e 24) es"
  shows "\<exists>s'. load_primary_guest_kernel V pa pmask gdt td s
        = Some (Jump_to_kernel 31 gdt bp (kernel_entry m (kernel_at m mbi)), s')
    \<and> (\<forall>x. boot_avail (boot_map (mem s') bp) x
         \<longleftrightarrow> mm_avail (map (mm_read m) es) x \<and> (x < unat h \<or> unat h + unat z \<le> x))
    \<and> (\<forall>i < len. mem s' (bp + 4096 + of_nat i) = m (cmdline_at m mbi + of_nat i))
    \<and> load32 (mem s') (bp + o_setup_hdr + o_cmd_line_ptr) = bp + 4096"
proof -
  have flag: "mbi_flags m mbi AND MBI_MEMMAP \<noteq> 0" using ready by (simp add: guest_ready_def Let_def)
  obtain s1 where hide: "hide_runtime_memory mbi h z (print_string banner s) = Some (True, s1)"
    and table: "mmap_addr (mem s1) mbi = N" "mmap_length (mem s1) mbi = 24 * of_nat (length res)" "table_at (mem s1) N 0 res"
    and heap1: "heap_current s1 = bp" "heap_tops s1 = heap_tops s"
    and same: "\<And>b k. (b, k) \<in> set (guest_blocks m mbi len) \<Longrightarrow> agree_on b k m (mem s1)"
    by (rule banner_then_hide [OF flag [unfolded m_def] screen, of "24 * num + K" es h z res len])
      (use heap walk spec apart in \<open>auto simp: m_def N_def num_def bp_def\<close>)
  have lt: "unat N + (24 * num + K) < 2 ^ 32" using heap(2) unat_bound(3) [of "heap_tops s"] by simp
  have n0: "0 < num" by (simp add: num_def)
  have "unat (24 * of_nat (length res) :: u32) = 24 * length res"
    using spec(3) unat_of_nat32 [of "24 * length res"] by (simp add: E820MAX_def)
  then have len: "unat (mmap_length (mem s1) mbi div 24) = length res" by (simp add: table(2) unat_div)
  have "sep bp K N (24 * num)" by (rule next_block [OF bp_def [THEN meta_eq_to_obj_eq] lt]) (use n0 in simp)
  then have new: "sep bp K N (24 * length res)" using spec(2) by (auto intro: sep_shorter)
  have "sep N (24 * num + K) (setup_at m mbi) 115" using apart(1) by (simp add: guest_layout_def apart_blocks_def)
  then have old: "sep (setup_at m mbi) 115 N (24 * length res)" using spec(2) by (auto intro: sep_sym sep_shorter)
  obtain s' where run: "launch_linux_kernel pa pmask gdt mbi s1
      = Some (Jump_to_kernel 31 gdt bp (kernel_entry m (kernel_at m mbi)), s')"
    and out: "boot_map (mem s') bp = map boot_conv res"
      "\<forall>i < len. mem s' (bp + 4096 + of_nat i) = m (cmdline_at m mbi + of_nat i)"
      "load32 (mem s') (bp + o_setup_hdr + o_cmd_line_ptr) = bp + 4096"
    by (rule launch_after_hide [OF ready spec(3) n0 _ _ table(1) len table(3) _ old same apart(1) [unfolded K_def],
          where gdt = gdt and pa = pa and pmask = pmask, unfolded heap1])
      (use heap new K_def in \<open>auto simp: bp_def\<close>)
  have td: "STARTAP_BASE (mem (print_string banner s)) td = h" "STARTAP_SIZE + XMON_SIZE (mem (print_string banner s)) td = z"
    using td_cong [OF frame_agree [OF print_string_frame [OF screen] apart(2)]] by (simp_all add: h_def z_def m_def)
  have "load_primary_guest_kernel V pa pmask gdt td s
      = Some (Jump_to_kernel 31 gdt bp (kernel_entry m (kernel_at m mbi)), s')"
    using hide run td by (simp add: load_primary_guest_kernel_def mbi_def [symmetric] banner_def [symmetric])
  moreover have "boot_avail (boot_map (mem s') bp) x
      \<longleftrightarrow> mm_avail (map (mm_read m) es) x \<and> (x < unat h \<or> unat h + unat z \<le> x)" for x
    unfolding out(1) boot_conv_avail hide_all_avail [OF spec(1) clean] by (simp only: not_le de_Morgan_conj not_less)
  ultimately show ?thesis using out(2,3) by (intro exI [of _ s'] conjI allI) simp_all
qed

text \<open>
  A machine with 128 MB: the package at 1 MB, whose memory ends at 7 MB, a kernel image at 8 MB with the command line
  \<^verbatim>\<open>q\<close>, and a map of one entry.
\<close>

definition linux_machine :: mem where
  "linux_machine = (\<lambda>_. 0)(0x100010 := 6, 0x100048 := 8, 0x10004C := 2, 0x101419 := 0x50,
     0x5000 := 0x40, 0x5014 := 1, 0x5019 := 0x70, 0x502C := 24, 0x5031 := 0x60,
     0x6000 := 20, 0x600F := 8, 0x6014 := 1,
     0x7002 := 0x80, 0x7006 := 0x90, 0x7009 := 0x71, 0x7100 := 0x71,
     0x800202 := 0x48, 0x800203 := 0x64, 0x800204 := 0x72, 0x800205 := 0x53, 0x800206 := 0x0a, 0x800207 := 0x02,
     0x800211 := 1, 0x800234 := 1, 0x800238 := 0xFF)"

definition linux_boot :: loader_state where
  "linux_boot = \<lparr>mem = linux_machine, heap_base = 0x112000, heap_current = 0x112000, heap_tops = 0x1B2000, cursor = 0xB8000\<rparr>"

lemma linux_machine_mbi:
  "mbi_flags linux_machine 0x5000 = 0x40" "mods_count linux_machine 0x5000 = 1" "mods_addr linux_machine 0x5000 = 0x7000"
  "mmap_length linux_machine 0x5000 = 24" "mmap_addr linux_machine 0x5000 = 0x6000"
  by (simp_all add: linux_machine_def mbi_fields mem_eval)

lemma linux_machine_kernel:
  "kernel_at linux_machine 0x5000 = 0x800000" "setup_at linux_machine 0x5000 = 0x8001F1"
  "cmdline_at linux_machine 0x5000 = 0x7100" "cmdline_max linux_machine 0x5000 = 0xFF"
  "mod_start linux_machine 0x7000 = 0x800000" "mod_end linux_machine 0x7000 = 0x900000" "mod_start linux_machine 0x7010 = 0"
proof -
  show k: "mod_start linux_machine 0x7000 = 0x800000" "mod_end linux_machine 0x7000 = 0x900000" "mod_start linux_machine 0x7010 = 0"
    by (simp_all add: linux_machine_def mod_start_def mod_end_def mem_eval)
  show "cmdline_at linux_machine 0x5000 = 0x7100"
    by (simp add: cmdline_at_def linux_machine_mbi) (simp add: linux_machine_def mod_cmdline_def mem_eval)
  show kernel: "kernel_at linux_machine 0x5000 = 0x800000" by (simp add: kernel_at_def linux_machine_mbi k)
  then show sh: "setup_at linux_machine 0x5000 = 0x8001F1" by (simp add: setup_at_def o_setup_hdr_def)
  then show "cmdline_max linux_machine 0x5000 = 0xFF"
    by (simp add: cmdline_max_def o_cmdline_size_def) (simp add: linux_machine_def mem_eval)
qed

lemma linux_machine_ready: "guest_ready linux_machine 0x5000 1"
proof -
  have "bootable_header linux_machine 0x800000 0x100000"
    by (simp add: bootable_header_def Let_def setup_offsets o_setup_hdr_def sizeof_linux_kernel_header_def MAX_SECTOR_NUM_def
        HDRS_MAGIC_def FLAG_LOAD_HIGH_def) (simp add: linux_machine_def mem_eval)
  moreover have "string_at linux_machine 0x7100 1" by (simp add: string_at_def linux_machine_def)
  ultimately show ?thesis
    by (simp add: guest_ready_def linux_machine_mbi linux_machine_kernel MBI_MEMMAP_def)
qed

lemma linux_machine_map:
  "STARTAP_BASE linux_machine 0x100000 = 0x1B2000" "XMON_SIZE linux_machine 0x100000 = 0x54B000"
  "saved_mbi std_e820 linux_machine 0x100000 = 0x5000"
  "mm_read linux_machine 0x6000 = (20, 0, 0x8000000, 1)" "mm_size linux_machine 0x6000 = 20"
  by (simp_all add: linux_machine_def xmon_map XMON_PKG_SIZE_def guest1_start_def guest1_count_def xmon_mem_in_mb_def
      saved_mbi_def std_e820_def mm_read_def mm_fields mem_eval)

theorem guest_not_told_of_monitor_witness:
  "\<exists>s'. load_primary_guest_kernel std_e820 id 0xFFF 0x9000 0x100000 linux_boot
        = Some (Jump_to_kernel 31 0x9000 0x112048 0x800A00, s')
    \<and> boot_avail (boot_map (mem s') 0x112048) 0x1B1FFF \<and> \<not> boot_avail (boot_map (mem s') 0x112048) 0x1B2000
    \<and> \<not> boot_avail (boot_map (mem s') 0x112048) 0x6FFFFF \<and> boot_avail (boot_map (mem s') 0x112048) 0x700000"
proof -
  let ?res = "[(20, 0, 0x1B2000, 1), (20, 0x1B2000, 0x54E000, 2), (20, 0x700000, 0x7900000, 1)] :: mm_entry list"
  have spec: "hide_all 0x1B2000 0x54E000 [(20, 0, 0x8000000, 1)] = Some ?res"
    by (simp add: hide_spec_def Let_def MULTIBOOT_MEMORY_AVAILABLE_def MULTIBOOT_MEMORY_RESERVED_def)
  have ent: "kernel_entry linux_machine 0x800000 = 0x800A00"
    by (simp add: kernel_entry_def o_setup_sects_def o_setup_hdr_def SECTOR_SIZE_def DEFAULT_SECTOR_NUM_def linux_machine_def)
  have st: "mem linux_boot = linux_machine" "heap_current linux_boot = 0x112000" "heap_tops linux_boot = 0x1B2000"
    "cursor_off linux_boot = 0"
    by (simp_all add: linux_boot_def cursor_off_def VGA_BASE_ADDRESS_def)
  have sb: "length banner = 43" by (simp add: banner_def lit_def)
  have lay: "guest_layout linux_machine 0x5000 1 0x112000 4423"
    by (simp add: guest_layout_def apart_blocks_def linux_machine_kernel linux_machine_mbi sep_def VGA_BASE_ADDRESS_def)
  note facts = st sb linux_machine_map linux_machine_mbi linux_machine_kernel STARTAP_SIZE_def
  show ?thesis
    using guest_not_told_of_monitor [where s = linux_boot and V = std_e820 and td = "0x100000" and len = 1 and es = "[0x6000]"
        and res = ?res and pa = id and pmask = "0xFFF" and gdt = "0x9000"]
      linux_machine_ready spec lay
    by (auto simp: facts ent sep_def VGA_BASE_ADDRESS_def E820MAX_def mm_clean_def mm_avail_def MULTIBOOT_MEMORY_AVAILABLE_def)
qed

end
