(* ===== verification/Guest_Unhidden.thy ===== *)
theory Guest_Unhidden
  imports Guest_Launch
begin

text \<open>
  The hand-over to Linux when the memory of the monitor cannot be hidden: \<^verbatim>\<open>hide_runtime_memory\<close> returns FALSE on an entry that it does not
  know how to split, and \<^verbatim>\<open>load_primary_guest_kernel\<close> (\<^verbatim>\<open>primary_guest.c\<close>) ignores the result.
\<close>

section \<open>Giving up\<close>

lemma hide_entry_fails:
  assumes spec: "hide_spec h n (mm_read (mem s) a) = None"
    and win: "sep B K a 24" "\<And>x. in_range (new_entry N idx) 48 x \<Longrightarrow> in_range B K x"
    and screen: "cursor_off s + 160 * 68 \<le> 0x8000"
  obtains s' where "hide_entry N h n idx a s = Inl s'" "same_heap s s'"
    "\<And>x. \<not> in_range B K x \<Longrightarrow> \<not> in_range VGA_BASE_ADDRESS 0x8000 x \<Longrightarrow> mem s' x = mem s x"
proof -
  let ?m = "mem s" and ?e = "new_entry N idx" and ?he = "ucast (h + n) :: u64"
  obtain sz ad ln ty where v: "mm_read ?m a = (sz, ad, ln, ty)" by (cases "mm_read ?m a")
  then have f: "mm_addr ?m a = ad" "mm_len ?m a = ln" "mm_type ?m a = ty" by (simp_all add: mm_read_def)
  have over: "\<not> (ad + ln \<le> ucast h \<or> ?he \<le> ad)" and bad: "ty \<noteq> MULTIBOOT_MEMORY_AVAILABLE \<or> ?he > ad + ln"
    using spec v by (auto simp: hide_spec_def Let_def split: if_splits)
  have print: "mem (print_string cs (s\<lparr>mem := m\<rparr>)) x = m x" if "length cs \<le> 68" "\<not> in_range VGA_BASE_ADDRESS 0x8000 x" for cs m x
    using print_string_frame [of "s\<lparr>mem := m\<rparr>" cs "0x8000" x] screen that by (simp add: cursor_off_def)
  have heap: "same_heap s (print_string cs (s\<lparr>mem := m\<rparr>))" for cs m
    using print_string_same_heap [of "s\<lparr>mem := m\<rparr>" cs] by (simp add: same_heap_def)
  show ?thesis
  proof (cases "ty = MULTIBOOT_MEMORY_AVAILABLE")
    case False
    let ?msg = "lit ''ERROR: the type of memory to hide is not AVAILABLE in e820 table!!\<newline>''"
    have run: "hide_entry N h n idx a s = Inl (print_string ?msg (s\<lparr>mem := ?m\<rparr>))"
      using False over f by (simp add: hide_entry_def)
    have "length ?msg \<le> 68" by (simp add: lit_def)
    then show ?thesis by (intro that [OF run heap] print)
  next
    case True
    let ?m2 = "mm_put (?e + 24) (\<lambda>m. mm_size m a) (\<lambda>m. ucast h) (\<lambda>m. ucast n) (\<lambda>m. MULTIBOOT_MEMORY_RESERVED)
      (mm_put ?e (\<lambda>m. mm_size m a) (\<lambda>m. mm_addr m a) (\<lambda>m. ucast h - mm_addr m a) (\<lambda>m. mm_type m a) ?m)"
    let ?msg = "lit ''ERROR: hide_mem_addr+hide_mem_size crossing two E820 entries!!\<newline>''"
    have e1: "new_entry N (idx + 1) = ?e + 24" by (rule new_entry_Suc)
    note two = hide_two [where e = ?e, OF win v, where h = "ucast h" and n = "ucast n" and rv = MULTIBOOT_MEMORY_RESERVED]
    have f2: "mm_addr ?m2 a = ad" "mm_len ?m2 a = ln" using two(3) v by (simp_all add: mm_read_def)
    have run: "hide_entry N h n idx a s = Inl (print_string ?msg (s\<lparr>mem := ?m2\<rparr>))"
      unfolding hide_entry_def Let_def f e1 f2 using True over bad by (simp only: if_False if_True simp_thms)
    have len: "length ?msg \<le> 68" by (simp add: lit_def)
    have "mem (print_string ?msg (s\<lparr>mem := ?m2\<rparr>)) x = ?m x"
      if "\<not> in_range B K x" "\<not> in_range VGA_BASE_ADDRESS 0x8000 x" for x
      unfolding print [OF len that(2)] using two(4) win(2) that(1) by blast
    then show ?thesis by (rule that [OF run heap])
  qed
qed

lemma hide_loop_fails:
  assumes "mmap_walk (mem s) nxt tab_end (xs @ e # ys)" and "hide_all h n (map (mm_read (mem s)) xs) = Some r"
    and "hide_spec h n (mm_read (mem s) e) = None" and "\<And>a. a \<in> set (xs @ e # ys) \<Longrightarrow> sep B K a 24" and "sep B K (mbi + 44) 8"
    and "\<And>x. in_range (new_entry N idx) (24 * (length r + 2)) x \<Longrightarrow> in_range B K x" and "24 * (length r + 2) < 2 ^ 32"
    and "mmap_addr (mem s) mbi + mmap_length (mem s) mbi = tab_end" and "cursor_off s + 160 * 68 \<le> 0x8000"
  shows "\<exists>s'. hide_loop mbi N h n idx nxt s = Some (Inl s') \<and> same_heap s s'
    \<and> (\<forall>x. \<not> in_range B K x \<longrightarrow> \<not> in_range VGA_BASE_ADDRESS 0x8000 x \<longrightarrow> mem s' x = mem s x)"
  using assms
proof (induction xs arbitrary: s nxt idx r)
  case Nil
  have e: "e = nxt" "nxt < tab_end" and r: "r = []" using Nil.prems by simp_all
  obtain s' where "hide_entry N h n idx e s = Inl s'" "same_heap s s'"
    "\<And>x. \<not> in_range B K x \<Longrightarrow> \<not> in_range VGA_BASE_ADDRESS 0x8000 x \<Longrightarrow> mem s' x = mem s x"
    by (rule hide_entry_fails [OF Nil.prems(3) Nil.prems(4) Nil.prems(6) Nil.prems(9)]) (simp add: r, simp add: r, blast)
  then show ?case using e Nil.prems(8) by (subst hide_loop.simps) auto
next
  case (Cons a xs)
  from Cons.prems(2) obtain x rs where x: "hide_spec h n (mm_read (mem s) a) = Some x"
    and rs: "hide_all h n (map (mm_read (mem s)) xs) = Some rs" and r: "r = x @ rs"
    by (auto split: Option.bind_splits)
  have a: "a = nxt" "nxt < tab_end" "mmap_walk (mem s) (nxt + mm_size (mem s) nxt + 4) tab_end (xs @ e # ys)"
    using Cons.prems(1) by simp_all
  have len: "24 * (length x + (length rs + 2)) < 2 ^ 32" using Cons.prems(7) r by simp
  note split = block_split [OF len, of "new_entry N idx", folded new_entry_add]
  have w1: "in_range B K y" if "in_range (new_entry N idx) (24 * length x) y" for y
    using Cons.prems(6) [of y] split(1) [of y] that r by (simp add: add.assoc)
  have w2: "in_range B K y" if "in_range (new_entry N (idx + of_nat (length x))) (24 * (length rs + 2)) y" for y
    using Cons.prems(6) [of y] split(1) [of y] that r by (simp add: add.assoc)
  obtain idx' m1 where he: "hide_entry N h n idx a s = Inr (idx', s\<lparr>mem := m1\<rparr>)"
    and idx': "idx' + 1 = idx + of_nat (length x)"
    and f1: "\<And>y. \<not> in_range (new_entry N idx) (24 * length x) y \<Longrightarrow> m1 y = mem s y"
    using hide_entry_ok [where N = N and idx = idx and B = B and K = K, OF x _ w1] Cons.prems(4) by auto
  have ag: "agree_on b k (mem s) m1" if "sep B K b k" for b k
    unfolding agree_on_def using f1 w1 sep_in_range [OF that] by metis
  have src: "mm_read m1 b = mm_read (mem s) b" "mm_size m1 b = mm_size (mem s) b" if "b \<in> set ((a # xs) @ e # ys)" for b
    using mm_read_cong(1,2) [OF ag] Cons.prems(4) that by simp_all
  have mbi': "mmap_addr m1 mbi + mmap_length m1 mbi = tab_end"
    using agree_on_load(2) [OF ag [OF Cons.prems(5)], of "mbi + 48"]
      agree_on_load(2) [OF ag [OF Cons.prems(5)], of "mbi + 44"] Cons.prems(8)
    by (simp add: mmap_addr_def mmap_length_def inside_def)
  have "\<exists>s'. hide_loop mbi N h n (idx + of_nat (length x)) (nxt + mm_size (mem s) nxt + 4) (s\<lparr>mem := m1\<rparr>) = Some (Inl s')
      \<and> same_heap (s\<lparr>mem := m1\<rparr>) s'
      \<and> (\<forall>x. \<not> in_range B K x \<longrightarrow> \<not> in_range VGA_BASE_ADDRESS 0x8000 x \<longrightarrow> mem s' x = mem (s\<lparr>mem := m1\<rparr>) x)"
  proof (rule Cons.IH)
    show "mmap_walk (mem (s\<lparr>mem := m1\<rparr>)) (nxt + mm_size (mem s) nxt + 4) tab_end (xs @ e # ys)"
      using mmap_walk_cong [OF a(3)] ag Cons.prems(4) by simp
    show "hide_all h n (map (mm_read (mem (s\<lparr>mem := m1\<rparr>))) xs) = Some rs"
      using rs src(1) by (simp cong: map_cong)
  qed (use Cons.prems(3,4,5,9) len mbi' w2 src(1) in \<open>simp_all add: cursor_off_def\<close>)
  then obtain s' where run: "hide_loop mbi N h n (idx' + 1) (nxt + mm_size (mem s) nxt + 4) (s\<lparr>mem := m1\<rparr>) = Some (Inl s')"
    and h: "same_heap s s'"
    and f2: "\<And>x. \<not> in_range B K x \<Longrightarrow> \<not> in_range VGA_BASE_ADDRESS 0x8000 x \<Longrightarrow> mem s' x = m1 x"
    unfolding idx' by (auto simp: same_heap_def)
  have "mem s' y = mem s y" if "\<not> in_range B K y" "\<not> in_range VGA_BASE_ADDRESS 0x8000 y" for y
    using f1 [of y] f2 [OF that] w1 that(1) by auto
  moreover have "hide_loop mbi N h n idx nxt s = Some (Inl s')"
    using run he a(1,2) Cons.prems(8) src(2) [of a] by (subst hide_loop.simps) (simp add: add.assoc)
  ultimately show ?case using h by blast
qed

lemma table_allocated:
  fixes s :: loader_state and mbi :: u32
  defines "num \<equiv> unat (mmap_length (mem s) mbi) div 24 + 2"
  assumes "unat (heap_current s) + 24 * num \<le> unat (heap_tops s)"
  shows "\<exists>s1. allocate_memory (24 * (mmap_length (mem s) mbi div 24 + 2)) s = (heap_current s, s1)
    \<and> heap_current s1 = heap_current s + of_nat (24 * num) \<and> heap_tops s1 = heap_tops s \<and> cursor s1 = cursor s
    \<and> (\<forall>x. \<not> in_range (heap_current s) (24 * num) x \<longrightarrow> mem s1 x = mem s x)"
proof -
  let ?sz = "24 * (mmap_length (mem s) mbi div 24 + 2)"
  have small: "24 * num < 2 ^ 32" using assms(2) unat_bound(3) [of "heap_tops s"] by simp
  have "unat (mmap_length (mem s) mbi div 24 + 2) = num"
    using small by (simp add: num_def unat_word_ariths(1) unat_div)
  then have un: "unat ?sz = 24 * num" using small by (simp only: unat_word_ariths(2)) simp
  then have "?sz = of_nat (24 * num)" by (simp only: un [symmetric]) simp
  moreover have "\<not> heap_current s + of_nat (24 * num) > heap_tops s"
    using assms(2) small unat_bound(3) [of "heap_tops s"] unat_of_nat32 [of "24 * num"]
    by (simp add: word_less_nat_alt unat_word_ariths(1) del: of_nat_mult)
  ultimately show ?thesis using un
    by (simp add: allocate_memory_def zero_mem_apply Let_def del: of_nat_mult)
qed

lemma hide_runtime_memory_fails:
  fixes s :: loader_state and mbi :: u32
  defines "num \<equiv> unat (mmap_length (mem s) mbi) div 24 + 2" and "N \<equiv> heap_current s"
  assumes flag: "mbi_flags (mem s) mbi AND MBI_MEMMAP \<noteq> 0"
    and heap: "N \<noteq> 0" "unat N + 24 * num \<le> unat (heap_tops s)"
    and walk: "mmap_walk (mem s) (mmap_addr (mem s) mbi) (mmap_addr (mem s) mbi + mmap_length (mem s) mbi) (xs @ e # ys)"
    and spec: "hide_all h n (map (mm_read (mem s)) xs) = Some r" "hide_spec h n (mm_read (mem s) e) = None" "length r + 2 \<le> num"
    and apart: "list_all (\<lambda>e. sep N (24 * num) e 24) (xs @ e # ys)" "sep N (24 * num) mbi 52"
    and screen: "cursor_off s + 160 * 68 \<le> 0x8000"
  obtains s' where "hide_runtime_memory mbi h n s = Some (False, s')" "heap_current s' = N + of_nat (24 * num)" "heap_tops s' = heap_tops s"
    "\<And>x. \<not> in_range N (24 * num) x \<Longrightarrow> \<not> in_range VGA_BASE_ADDRESS 0x8000 x \<Longrightarrow> mem s' x = mem s x"
proof -
  obtain s1 where al: "allocate_memory (24 * (mmap_length (mem s) mbi div 24 + 2)) s = (N, s1)"
    and s1: "heap_current s1 = N + of_nat (24 * num)" "heap_tops s1 = heap_tops s" "cursor s1 = cursor s"
    and f1: "\<And>x. \<not> in_range N (24 * num) x \<Longrightarrow> mem s1 x = mem s x"
    using table_allocated [OF heap(2) [unfolded N_def num_def]] unfolding N_def num_def by metis
  have ag: "agree_on b k (mem s) (mem s1)" if "sep N (24 * num) b k" for b k by (rule frame_agree [OF f1 that])
  have mb: "sep N (24 * num) (mbi + 44) 8"
    by (rule sep_part [OF apart(2)]) (simp_all add: inside_def num_def)
  note b1 = mbi_cong [OF ag [OF apart(2)]]
  have e1: "mm_read (mem s1) a = mm_read (mem s) a" "agree_on a 24 (mem s) (mem s1)" if "a \<in> set (xs @ e # ys)" for a
    using mm_read_cong(1) [OF ag] ag apart(1) that by (auto simp: list_all_iff)
  have "map (mm_read (mem s1)) xs = map (mm_read (mem s)) xs" using e1(1) by simp
  then have spec1: "hide_all h n (map (mm_read (mem s1)) xs) = Some r" using spec(1) by (simp only:)
  have walk1: "mmap_walk (mem s1) (mmap_addr (mem s1) mbi) (mmap_addr (mem s1) mbi + mmap_length (mem s1) mbi) (xs @ e # ys)"
    unfolding b1 using walk by (rule mmap_walk_cong) (rule e1(2))
  have small: "24 * num < 2 ^ 32" using heap(2) unat_bound(3) [of "heap_tops s"] by simp
  have "\<exists>s'. hide_loop mbi N h n 0 (mmap_addr (mem s1) mbi) s1 = Some (Inl s') \<and> same_heap s1 s'
    \<and> (\<forall>x. \<not> in_range N (24 * num) x \<longrightarrow> \<not> in_range VGA_BASE_ADDRESS 0x8000 x \<longrightarrow> mem s' x = mem s1 x)"
    by (rule hide_loop_fails [OF walk1 spec1 _ _ mb])
      (use e1(1) spec(2,3) apart(1) small screen s1(3) in \<open>auto simp: list_all_iff new_entry_def cursor_off_def intro: in_range_mono\<close>)
  then obtain s' where run: "hide_loop mbi N h n 0 (mmap_addr (mem s1) mbi) s1 = Some (Inl s')" and hp: "same_heap s1 s'"
    and f2: "\<And>x. \<not> in_range N (24 * num) x \<Longrightarrow> \<not> in_range VGA_BASE_ADDRESS 0x8000 x \<Longrightarrow> mem s' x = mem s1 x" by auto
  have "hide_runtime_memory mbi h n s = Some (False, s')"
    using flag al heap(1) run by (simp add: hide_runtime_memory_def)
  then show ?thesis using hp s1 f1 f2 by (intro that [of s']) (simp_all add: same_heap_def)
qed

section \<open>The launch goes on\<close>

text \<open>The map as an array is the table of its entries.\<close>

lemma mm_array_table: "table_at m T 0 (mm_array m T 0 n)"
  by (simp add: table_at_def mm_array_def new_entry_def)

lemma mm_array_cong:
  assumes "agree_on T (24 * n) m m'" "24 * n < 2 ^ 32"
  shows "mm_array m' T 0 n = mm_array m T 0 n"
proof -
  have "mm_read m' (T + of_nat j * 24) = mm_read m (T + of_nat j * 24)" if "j < n" for j
  proof (rule mm_read_cong(1))
    have "inside (T + of_nat j * 24) 24 T (24 * n)"
      using unat_of_nat32 [of "24 * j"] assms(2) that by (simp add: inside_def mult.commute)
    then show "agree_on (T + of_nat j * 24) 24 m m'" using assms(1) inside_in_range by (simp add: agree_on_def)
  qed
  then show ?thesis by (simp add: mm_array_def)
qed

lemma banner_then_give_up:
  fixes s :: loader_state and mbi :: u32
  defines "m \<equiv> mem s" and "N \<equiv> heap_current s" and "num \<equiv> unat (mmap_length (mem s) mbi) div 24 + 2"
  assumes flag: "mbi_flags m mbi AND MBI_MEMMAP \<noteq> 0" and screen: "cursor_off s + 160 * (length banner + 68) \<le> 0x8000"
    and heap: "N \<noteq> 0" "unat N + 24 * num \<le> unat (heap_tops s)"
    and walk: "mmap_walk m (mmap_addr m mbi) (mmap_addr m mbi + mmap_length m mbi) (xs @ e # ys)"
    and spec: "hide_all h z (map (mm_read m) xs) = Some r" "hide_spec h z (mm_read m e) = None" "length r + 2 \<le> num"
    and apart: "sep VGA_BASE_ADDRESS 0x8000 mbi 52" "sep N (24 * num) mbi 52"
      "list_all (\<lambda>e. sep VGA_BASE_ADDRESS 0x8000 e 24 \<and> sep N (24 * num) e 24) (xs @ e # ys)"
  obtains s1 where "hide_runtime_memory mbi h z (print_string banner s) = Some (False, s1)"
    "heap_current s1 = N + of_nat (24 * num)" "heap_tops s1 = heap_tops s"
    "\<And>b k. sep VGA_BASE_ADDRESS 0x8000 b k \<Longrightarrow> sep N (24 * num) b k \<Longrightarrow> agree_on b k m (mem s1)"
proof -
  define s0 where "s0 = print_string banner s"
  have scr: "cursor_off s + 160 * length banner \<le> 0x8000" using screen by simp
  have f0: "mem s0 x = m x" if "\<not> in_range VGA_BASE_ADDRESS 0x8000 x" for x
    unfolding s0_def m_def by (rule print_string_frame [OF scr _ that]) simp
  have ag0: "agree_on b k m (mem s0)" if "sep VGA_BASE_ADDRESS 0x8000 b k" for b k
    by (rule frame_agree [OF f0 that])
  have heap0: "heap_current s0 = N" "heap_tops s0 = heap_tops s"
    using print_string_same_heap [of s banner] by (simp_all add: s0_def same_heap_def N_def)
  have cur: "cursor_off s0 + 160 * 68 \<le> 0x8000"
    using print_string_cursor [of s banner] screen by (simp add: s0_def)
  note b0 = mbi_cong [OF ag0 [OF apart(1)]]
  have e0: "agree_on a 24 m (mem s0)" if "a \<in> set (xs @ e # ys)" for a
    using apart(3) that by (intro ag0) (auto simp: list_all_iff)
  have rd: "mm_read (mem s0) a = mm_read m a" if "a \<in> set (xs @ e # ys)" for a by (rule mm_read_cong(1) [OF e0 [OF that]])
  have "map (mm_read (mem s0)) xs = map (mm_read m) xs" using rd by simp
  then have spec0: "hide_all h z (map (mm_read (mem s0)) xs) = Some r" using spec(1) by (simp only:)
  have walk0: "mmap_walk (mem s0) (mmap_addr m mbi) (mmap_addr m mbi + mmap_length m mbi) (xs @ e # ys)"
    using walk by (rule mmap_walk_cong) (rule e0)
  have es: "list_all (\<lambda>e. sep N (24 * num) e 24) (xs @ e # ys)" using apart(3) by (auto simp: list_all_iff)
  have none: "hide_spec h z (mm_read (mem s0) e) = None" using spec(2) rd [of e] by simp
  obtain s1 where hide: "hide_runtime_memory mbi h z s0 = Some (False, s1)"
    and s1: "heap_current s1 = N + of_nat (24 * num)" "heap_tops s1 = heap_tops s"
    and f1: "\<And>x. \<not> in_range N (24 * num) x \<Longrightarrow> \<not> in_range VGA_BASE_ADDRESS 0x8000 x \<Longrightarrow> mem s1 x = mem s0 x"
    by (rule hide_runtime_memory_fails [where s = s0 and mbi = mbi and h = h and n = z and r = r and xs = xs and e = e and ys = ys,
          unfolded b0 heap0, folded m_def, folded num_def [folded m_def]])
      (use flag heap walk0 spec0 none spec(3) es apart(2) cur in auto)
  have "agree_on b k m (mem s1)" if "sep VGA_BASE_ADDRESS 0x8000 b k" "sep N (24 * num) b k" for b k
    unfolding agree_on_def using f0 f1 sep_in_range [OF that(1)] sep_in_range [OF that(2)] by simp
  with hide s1 show ?thesis by (intro that [of s1]) (simp_all add: s0_def)
qed

text \<open>Whenever the hiding gives up on an entry, Linux is launched with the map as it was.\<close>

lemma launch_when_not_hidden:
  fixes s :: loader_state and V :: e820_env and td :: u32
  defines "m \<equiv> mem s" and "mbi \<equiv> saved_mbi V (mem s) td" and "N \<equiv> heap_current s"
  defines "h \<equiv> STARTAP_BASE m td" and "z \<equiv> STARTAP_SIZE + XMON_SIZE m td" and "T \<equiv> mmap_addr m mbi"
    and "n \<equiv> unat (mmap_length m mbi) div 24" and "K \<equiv> 4096 + unat (cmdline_max m mbi)"
  defines "bp \<equiv> N + of_nat (24 * (n + 2))"
  assumes ready: "guest_ready m mbi len" and screen: "cursor_off s + 160 * (length banner + 68) \<le> 0x8000"
    and heap: "N \<noteq> 0" "unat N + (24 * (n + 2) + K) \<le> unat (heap_tops s)"
    and walk: "mmap_walk m T (T + mmap_length m mbi) (xs @ e # ys)" and few: "n \<le> E820MAX"
    and spec: "hide_all h z (map (mm_read m) xs) = Some r" "length r \<le> n" "hide_spec h z (mm_read m e) = None"
    and apart: "guest_layout m mbi len N (24 * (n + 2) + K)" "sep VGA_BASE_ADDRESS 0x8000 td 80"
      "list_all (\<lambda>e. sep VGA_BASE_ADDRESS 0x8000 e 24 \<and> sep N (24 * (n + 2)) e 24) (xs @ e # ys)"
    and table: "sep VGA_BASE_ADDRESS 0x8000 T (24 * n)" "sep N (24 * (n + 2) + K) T (24 * n)" "sep (setup_at m mbi) 115 T (24 * n)"
      "0 < n"
  shows "\<exists>s'. load_primary_guest_kernel V pa pmask gdt td s
        = Some (Jump_to_kernel 31 gdt bp (kernel_entry m (kernel_at m mbi)), s')
    \<and> boot_map (mem s') bp = map boot_conv (mm_array m T 0 n)
    \<and> (\<forall>x. boot_avail (boot_map (mem s') bp) x \<longleftrightarrow> mm_avail (mm_array m T 0 n) x)"
proof -
  let ?num = "n + 2"
  have flag: "mbi_flags m mbi AND MBI_MEMMAP \<noteq> 0" using ready by (simp add: guest_ready_def Let_def)
  have lay: "sep VGA_BASE_ADDRESS 0x8000 mbi 52" "sep N (24 * ?num) mbi 52"
    using apart(1) by (auto simp: guest_layout_def apart_blocks_def intro: sep_shorter)
  obtain s1 where hide: "hide_runtime_memory mbi h z (print_string banner s) = Some (False, s1)"
    and heap1: "heap_current s1 = bp" "heap_tops s1 = heap_tops s"
    and same: "\<And>b k. sep VGA_BASE_ADDRESS 0x8000 b k \<Longrightarrow> sep N (24 * ?num) b k \<Longrightarrow> agree_on b k m (mem s1)"
    by (rule banner_then_give_up [where s = s and mbi = mbi and xs = xs and e = e and ys = ys and h = h and z = z and r = r,
          folded m_def N_def, folded n_def T_def])
      (use flag screen heap walk spec lay apart(3) in \<open>auto simp: bp_def\<close>)
  note b1 = mbi_cong [OF same [OF lay]]
  have blocks: "agree_on b k m (mem s1)" if "(b, k) \<in> set (guest_blocks m mbi len)" for b k
    using guest_layout_sep [OF apart(1) that] by (intro same) (auto intro: sep_shorter)
  have lt: "unat N + (24 * ?num + K) < 2 ^ 32" using heap(2) unat_bound(3) [of "heap_tops s"] by simp
  have away: "sep bp K T (24 * n)"
    by (rule next_block(3) [OF _ lt]) (use table in \<open>simp_all add: bp_def K_def del: of_nat_mult\<close>)
  have "agree_on T (24 * n) m (mem s1)" using table by (intro same) (auto intro: sep_shorter)
  then have arr: "mm_array (mem s1) T 0 n = mm_array m T 0 n" using few by (intro mm_array_cong) (simp_all add: E820MAX_def)
  have ln: "length (mm_array m T 0 n) = n" by (simp add: mm_array_def)
  have tab: "table_at (mem s1) T 0 (mm_array m T 0 n)" using mm_array_table [of "mem s1" T n] arr by simp
  obtain s' where run: "launch_linux_kernel pa pmask gdt mbi s1
      = Some (Jump_to_kernel 31 gdt bp (kernel_entry m (kernel_at m mbi)), s')"
    and out: "boot_map (mem s') bp = map boot_conv (mm_array m T 0 n)"
    by (rule launch_after_hide [where res = "mm_array m T 0 n" and num = ?num and T = T and N = N, OF ready _ _ _ _ _ _ tab _ _ blocks,
          where gdt = gdt and pa = pa and pmask = pmask, unfolded heap1 ln])
      (use few heap away table(3) apart(1) in \<open>auto simp: b1 T_def n_def bp_def K_def unat_div\<close>)
  have td: "STARTAP_BASE (mem (print_string banner s)) td = h" "STARTAP_SIZE + XMON_SIZE (mem (print_string banner s)) td = z"
    using td_cong [OF frame_agree [OF print_string_frame [of s banner "0x8000"] apart(2)]] screen by (simp_all add: h_def z_def m_def)
  have "load_primary_guest_kernel V pa pmask gdt td s
      = Some (Jump_to_kernel 31 gdt bp (kernel_entry m (kernel_at m mbi)), s')"
    using hide run td by (simp add: load_primary_guest_kernel_def mbi_def [symmetric] banner_def [symmetric])
  then show ?thesis by (intro exI [of _ s'] conjI allI) (simp_all add: out boot_conv_avail)
qed

text \<open>An available entry that starts before, or inside, the range of \<open>z\<close> bytes at \<open>h\<close> and ends inside it.\<close>

definition ends_inside :: "u32 \<Rightarrow> u32 \<Rightarrow> mm_entry \<Rightarrow> bool" where
  "ends_inside h z = (\<lambda>(sz, a, l, t). t = MULTIBOOT_MEMORY_AVAILABLE \<and> l \<noteq> 0 \<and> unat h < unat a + unat l
     \<and> unat a + unat l < unat h + unat z \<and> unat h + unat z < 2 ^ 32)"

lemma ends_inside_fails:
  assumes "ends_inside h z e"
  shows "hide_spec h z e = None"
proof -
  obtain sz a l t where e: "e = (sz, a, l, t)" by (cases e)
  have f: "t = MULTIBOOT_MEMORY_AVAILABLE" "unat h < unat a + unat l" "unat a + unat l < unat h + unat z" "unat h + unat z < 2 ^ 32"
    "0 < unat l"
    using assms by (auto simp: ends_inside_def e unat_gt_0)
  then have u: "unat (a + l) = unat a + unat l" "unat (ucast (h + z) :: u64) = unat h + unat z" "unat (ucast h :: u64) = unat h"
    using unat_bound(3) [of h] by (simp_all add: unat_word_ariths(1) unsigned_ucast_eq take_bit_nat_eq_self)
  show ?thesis using f u by (simp add: hide_spec_def e Let_def word_le_nat_alt word_less_nat_alt)
qed

text \<open>
  C35. When an available entry of the map ends inside the run-time range of the monitor, the memory of the monitor in it is not hidden, and
  Linux is told that it is available: \<^verbatim>\<open>hide_runtime_memory\<close> gives up on such an entry, its caller does not look at the result, and Linux is
  launched with the map as the boot loader made it. Every address of the entry, in particular those (there is at least one) that belong
  to the monitor, is available in the boot parameters.
\<close>

theorem unhidden_monitor_launch:
  fixes s :: loader_state and V :: e820_env and td :: u32
  defines "m \<equiv> mem s" and "mbi \<equiv> saved_mbi V (mem s) td" and "N \<equiv> heap_current s"
  defines "h \<equiv> STARTAP_BASE m td" and "z \<equiv> STARTAP_SIZE + XMON_SIZE m td" and "T \<equiv> mmap_addr m mbi"
    and "n \<equiv> unat (mmap_length m mbi) div 24" and "K \<equiv> 4096 + unat (cmdline_max m mbi)"
  defines "bp \<equiv> N + of_nat (24 * (n + 2))"
  assumes ready: "guest_ready m mbi len" and screen: "cursor_off s + 160 * (length banner + 68) \<le> 0x8000"
    and heap: "N \<noteq> 0" "unat N + (24 * (n + 2) + K) \<le> unat (heap_tops s)"
    and walk: "mmap_walk m T (T + mmap_length m mbi) (xs @ e # ys)" and few: "n \<le> E820MAX"
    and spec: "hide_all h z (map (mm_read m) xs) = Some r" "length r \<le> n"
    and crossing: "ends_inside h z (mm_read m e)" "mm_read m e \<in> set (mm_array m T 0 n)"
    and apart: "guest_layout m mbi len N (24 * (n + 2) + K)" "sep VGA_BASE_ADDRESS 0x8000 td 80"
      "list_all (\<lambda>e. sep VGA_BASE_ADDRESS 0x8000 e 24 \<and> sep N (24 * (n + 2)) e 24) (xs @ e # ys)"
    and table: "sep VGA_BASE_ADDRESS 0x8000 T (24 * n)" "sep N (24 * (n + 2) + K) T (24 * n)" "sep (setup_at m mbi) 115 T (24 * n)"
      "0 < n"
  shows "\<exists>s'. load_primary_guest_kernel V pa pmask gdt td s
        = Some (Jump_to_kernel 31 gdt bp (kernel_entry m (kernel_at m mbi)), s')
    \<and> boot_map (mem s') bp = map boot_conv (mm_array m T 0 n)
    \<and> (\<forall>x. mm_avail [mm_read m e] x \<longrightarrow> boot_avail (boot_map (mem s') bp) x)
    \<and> (\<exists>x. unat h \<le> x \<and> x < unat h + unat z \<and> boot_avail (boot_map (mem s') bp) x)"
proof -
  obtain sz a l t where e: "mm_read m e = (sz, a, l, t)" by (cases "mm_read m e")
  have f: "t = MULTIBOOT_MEMORY_AVAILABLE" "unat h < unat a + unat l" "unat a + unat l < unat h + unat z" "0 < unat l"
    using crossing(1) by (auto simp: ends_inside_def e unat_gt_0)
  obtain s' where run: "load_primary_guest_kernel V pa pmask gdt td s
        = Some (Jump_to_kernel 31 gdt bp (kernel_entry m (kernel_at m mbi)), s')"
    and out: "boot_map (mem s') bp = map boot_conv (mm_array m T 0 n)"
    using launch_when_not_hidden [of s V td len xs e ys r, folded mbi_def, folded m_def N_def, folded h_def z_def T_def n_def K_def,
        folded bp_def, OF ready screen heap walk few spec ends_inside_fails [OF crossing(1)] apart table] by blast
  have all: "boot_avail (boot_map (mem s') bp) x" if "mm_avail [mm_read m e] x" for x
    unfolding out boot_conv_avail using that crossing(2) by (simp add: mm_avail_def list_ex_iff) (rule bexI [of _ "mm_read m e"], simp_all)
  let ?x = "max (unat a) (unat h)"
  have x: "mm_avail [mm_read m e] ?x" "unat h \<le> ?x" "?x < unat h + unat z" using f by (auto simp: mm_avail_def e)
  show ?thesis
    using run out all all [OF x(1)] x(2,3) by blast
qed

text \<open>
  The machine of \<open>Guest_Launch\<close> with the same memory in two entries that meet at 2 MB, inside the memory of the monitor.
\<close>

definition split_machine :: mem where
  "split_machine = linux_machine(0x502C := 48, 0x600E := 0x20, 0x600F := 0, 0x6018 := 20, 0x601E := 0x20,
     0x6026 := 0xE0, 0x6027 := 7, 0x602C := 1)"

lemma split_machine_guest:
  "mods_addr split_machine 0x5000 = 0x7000" "kernel_at split_machine 0x5000 = 0x800000" "setup_at split_machine 0x5000 = 0x8001F1"
  "cmdline_at split_machine 0x5000 = 0x7100" "cmdline_max split_machine 0x5000 = 0xFF" "guest_ready split_machine 0x5000 1"
proof -
  have same: "agree_on b k linux_machine split_machine" if "(b, k) \<in> set (guest_blocks linux_machine 0x5000 1)" for b k
    using that by (auto simp: guest_blocks_def linux_machine_mbi linux_machine_kernel agree_on_def in_range_linear split_machine_def)
  show "mods_addr split_machine 0x5000 = 0x7000" "kernel_at split_machine 0x5000 = 0x800000" "setup_at split_machine 0x5000 = 0x8001F1"
    "cmdline_at split_machine 0x5000 = 0x7100" "cmdline_max split_machine 0x5000 = 0xFF" "guest_ready split_machine 0x5000 1"
    using guest_cong [of linux_machine "0x5000" 1 split_machine, OF same] linux_machine_mbi linux_machine_kernel linux_machine_ready
    by simp_all
qed

lemma split_machine_map:
  "mmap_length split_machine 0x5000 = 48" "mmap_addr split_machine 0x5000 = 0x6000"
  "mm_read split_machine 0x6000 = (20, 0, 0x200000, 1)" "mm_size split_machine 0x6000 = 20"
  "mm_read split_machine 0x6018 = (20, 0x200000, 0x7E00000, 1)" "mm_size split_machine 0x6018 = 20"
  by (simp_all add: split_machine_def linux_machine_def mbi_fields mm_read_def mm_fields mem_eval)

lemma split_machine_package:
  "STARTAP_BASE split_machine 0x100000 = 0x1B2000" "XMON_SIZE split_machine 0x100000 = 0x54B000"
  "saved_mbi std_e820 split_machine 0x100000 = 0x5000"
  by (simp_all add: split_machine_def linux_machine_def xmon_map XMON_PKG_SIZE_def guest1_start_def guest1_count_def xmon_mem_in_mb_def
      saved_mbi_def std_e820_def mem_eval)

theorem unhidden_monitor_launch_witness:
  "\<exists>e s'. load_primary_guest_kernel std_e820 id 0xFFF 0x9000 0x100000 (linux_boot\<lparr>mem := split_machine\<rparr>)
        = Some (Jump_to_kernel 31 0x9000 0x112060 e, s')
    \<and> boot_avail (boot_map (mem s') 0x112060) 0x1C0000"
proof -
  let ?s = "linux_boot\<lparr>mem := split_machine\<rparr>"
  have cross: "ends_inside 0x1B2000 0x54E000 (20, 0, 0x200000, 1)"
    by (simp add: ends_inside_def MULTIBOOT_MEMORY_AVAILABLE_def)
  have st: "mem ?s = split_machine" "heap_current ?s = 0x112000" "heap_tops ?s = 0x1B2000" "cursor_off ?s = 0"
    by (simp_all add: linux_boot_def cursor_off_def VGA_BASE_ADDRESS_def)
  have sb: "length banner = 43" by (simp add: banner_def lit_def)
  have lay: "guest_layout split_machine 0x5000 1 0x112000 4447"
    by (simp add: guest_layout_def apart_blocks_def split_machine_guest sep_def VGA_BASE_ADDRESS_def)
  have mem: "(20, 0, 0x200000, 1) \<in> set (mm_array split_machine 0x6000 0 2)"
    by (simp add: mm_array_def upt_rec split_machine_map)
  have av: "mm_avail [(20, 0, 0x200000, 1)] 0x1C0000"
    by (simp add: mm_avail_def MULTIBOOT_MEMORY_AVAILABLE_def)
  note facts = st sb split_machine_map split_machine_package split_machine_guest STARTAP_SIZE_def
  show ?thesis
    using unhidden_monitor_launch [where s = ?s and V = std_e820 and td = "0x100000" and len = 1 and xs = "[]" and e = "0x6000"
        and ys = "[0x6018]" and r = "[]" and pa = id and pmask = "0xFFF" and gdt = "0x9000"]
      split_machine_guest(6) cross mem lay av
    by (auto simp: facts sep_def VGA_BASE_ADDRESS_def E820MAX_def)
qed

end
