(* ===== verification/Starter.thy ===== *)
theory Starter
  imports Xmon_Loader
begin

text \<open>
  The first stage, \<^verbatim>\<open>pre_os/starter\<close>: \<^verbatim>\<open>starter_main.c\<close> saves the processor's state for the primary guest, checks for VMX,
  and has \<^verbatim>\<open>run_xmon_loader.c\<close> load and call the loader.

  The structures of the core are parameters: the bit fields of a segment descriptor and of a selector (\<^verbatim>\<open>ia32_defs.h\<close>), and the
  offsets of the general registers in \<^verbatim>\<open>mon_guest_cpu_startup_state_t\<close>. The other fields of the latter, which no later code of
  the loader reads, form a record.
\<close>

section \<open>Descriptors\<close>

text \<open>The fields of the low and of the high word of a descriptor, in the views \<^verbatim>\<open>gen\<close>, \<^verbatim>\<open>tss\<close>, \<^verbatim>\<open>cs\<close>, \<^verbatim>\<open>ds\<close> and \<^verbatim>\<open>gen_attr\<close>; those of a selector.\<close>

record seg_env =
  gen_lo_base_15_00 :: field
  gen_lo_limit_15_00 :: field
  gen_hi_base_23_16 :: field
  gen_hi_base_31_24 :: field
  gen_hi_limit_19_16 :: field
  gen_hi_s :: field
  gen_hi_present :: field
  gen_hi_mbz_21 :: field
  gen_hi_granularity :: field
  tss_hi_mbo_8 :: field
  tss_hi_mbz_10 :: field
  tss_hi_mbo_11 :: field
  tss_hi_mbz_12 :: field
  tss_hi_mbz_21 :: field
  tss_hi_mbz_22 :: field
  cs_hi_mbo_11 :: field
  cs_hi_mbo_12 :: field
  cs_hi_default_size :: field
  ds_hi_mbz_11 :: field
  ds_hi_mbo_12 :: field
  ds_hi_big :: field
  gen_attr_attributes :: field
  attr_limit_19_16 :: field
  sel_index :: field
  sel_ti :: field
  seg_o_hi :: u32
  sizeof_segment_descriptor :: u32

definition validate_descriptor :: "seg_env \<Rightarrow> mem \<Rightarrow> u32 \<Rightarrow> int" where
  "validate_descriptor E m d =
     (let hi = (\<lambda>f. get_field f (load32 m (d + seg_o_hi E))) in
      if hi (gen_hi_present E) = 0 \<or> hi (gen_hi_mbz_21 E) = 1 then - 1
      else if hi (gen_hi_s E) = 0 then
        if hi (tss_hi_mbo_8 E) = 0 \<or> hi (tss_hi_mbz_10 E) = 1 \<or> hi (tss_hi_mbo_11 E) = 0 \<or> hi (tss_hi_mbz_12 E) = 1
          \<or> hi (tss_hi_mbz_21 E) = 1 \<or> hi (tss_hi_mbz_22 E) = 1 then - 1 else 0
      else if hi (gen_attr_attributes E) AND 0x0008 \<noteq> 0 then
        if hi (cs_hi_mbo_11 E) = 0 \<or> hi (cs_hi_mbo_12 E) = 0 \<or> hi (cs_hi_default_size E) = 0 then - 1 else 0
      else if hi (ds_hi_mbz_11 E) = 1 \<or> hi (ds_hi_mbo_12 E) = 0 \<or> hi (ds_hi_big E) = 0 then - 1 else 0)"

text \<open>\<^verbatim>\<open>mon_segment_struct_t\<close>, with the values as they are assigned.\<close>

record seg_struct =
  ss_base :: u64
  ss_limit :: u32
  ss_attributes :: u32
  ss_selector :: u16

text \<open>
  The three parts of the base are bit fields narrower than \<^verbatim>\<open>int\<close>, so they are promoted to \<^verbatim>\<open>int\<close>; shifts and disjunctions are signed
  32-bit operations, and the conversion to \<^verbatim>\<open>uint64_t\<close> extends the sign.
\<close>

definition save_segment_data :: "seg_env \<Rightarrow> gdtr \<Rightarrow> mem \<Rightarrow> u16 \<Rightarrow> seg_struct \<Rightarrow> seg_struct" where
  "save_segment_data E gdtr m sel16 ss =
     (let size = sizeof_segment_descriptor E;
          max = ucast (g_limit gdtr) div size;
          sel = ucast sel16 :: u32;
          index = get_field (sel_index E) sel
      in if index = 0 \<or> index div size > max \<or> get_field (sel_ti E) sel \<noteq> 0 then ss
         else
           let desc = g_base gdtr + size * index in
           if validate_descriptor E m desc \<noteq> 0 then ss
           else
             let lo = (\<lambda>f. get_field f (load32 m desc)); hi = (\<lambda>f. get_field f (load32 m (desc + seg_o_hi E)));
                 ss = ss\<lparr>ss_base := scast (lo (gen_lo_base_15_00 E) OR push_bit 16 (hi (gen_hi_base_23_16 E))
                             OR push_bit 24 (hi (gen_hi_base_31_24 E)))\<rparr>;
                 ss = ss\<lparr>ss_limit := lo (gen_lo_limit_15_00 E) OR push_bit 16 (hi (gen_hi_limit_19_16 E))\<rparr>;
                 ss = (if hi (gen_hi_granularity E) \<noteq> 0 then ss\<lparr>ss_limit := push_bit 12 (ss_limit ss) OR 0x00000fff\<rparr> else ss);
                 attr = put_field (attr_limit_19_16 E) 0 (hi (gen_attr_attributes E))
             in ss\<lparr>ss_attributes := attr, ss_selector := sel16\<rparr>)"

section \<open>The saved state\<close>

datatype segreg = SEG_CS | SEG_DS | SEG_SS | SEG_ES | SEG_FS | SEG_GS | SEG_LDTR | SEG_TR

record cpu_startup =
  cs_size_of_this_struct :: u32
  cs_version_of_this_struct :: u32
  cs_gdtr :: "u64 \<times> u32"
  cs_idtr :: "u64 \<times> u32"
  cs_cr0 :: u32
  cs_cr2 :: u32
  cs_cr3 :: u32
  cs_cr4 :: u32
  cs_sysenter_cs :: u32
  cs_sysenter_eip :: u64
  cs_sysenter_esp :: u64
  cs_efer :: u64
  cs_pat :: u64
  cs_debugctl :: u64
  cs_pending_exceptions :: u64
  cs_interruptibility_state :: u32
  cs_activity_state :: u32
  cs_smbase :: u32
  cs_segment :: "segreg \<Rightarrow> seg_struct"

text \<open>
  The processor as the starter reads it, with the constants of the core beside it: the size and version of the structure and the
  numbers of the model-specific registers.
\<close>

record starter_cpu =
  sc_gdtr :: gdtr
  sc_idtr :: gdtr
  sc_cr0 :: u32
  sc_cr2 :: u32
  sc_cr3 :: u32
  sc_cr4 :: u32
  sc_msr :: "u32 \<Rightarrow> u64"
  sc_ldtr :: u16
  sc_tr :: u16
  sc_selector :: "segreg \<Rightarrow> u32"
  sc_cpuid_ecx :: u32
  sizeof_cpu_startup :: u32
  CPU_STARTUP_STATE_VERSION :: u32
  MSR_SYSENTER_CS :: u32
  MSR_SYSENTER_EIP :: u32
  MSR_SYSENTER_ESP :: u32
  MSR_EFER :: u32
  MSR_PAT :: u32
  MSR_DEBUGCTL :: u32
  MSR_FEATURE_CONTROL :: u32

definition upd_seg :: "segreg \<Rightarrow> (seg_struct \<Rightarrow> seg_struct) \<Rightarrow> cpu_startup \<Rightarrow> cpu_startup" where
  "upd_seg r f s = s\<lparr>cs_segment := (cs_segment s)(r := f (cs_segment s r))\<rparr>"

definition save_cpu_state :: "seg_env \<Rightarrow> starter_cpu \<Rightarrow> mem \<Rightarrow> cpu_startup \<Rightarrow> cpu_startup" where
  "save_cpu_state E C m s =
     (let s = s\<lparr>cs_size_of_this_struct := sizeof_cpu_startup C, cs_version_of_this_struct := CPU_STARTUP_STATE_VERSION C\<rparr>;
          s = s\<lparr>cs_gdtr := (ucast (g_base (sc_gdtr C)), ucast (g_limit (sc_gdtr C))),
                cs_idtr := (ucast (g_base (sc_idtr C)), ucast (g_limit (sc_idtr C))),
                cs_cr0 := sc_cr0 C, cs_cr2 := sc_cr2 C, cs_cr3 := sc_cr3 C, cs_cr4 := sc_cr4 C\<rparr>;
          s = s\<lparr>cs_sysenter_cs := ucast (sc_msr C (MSR_SYSENTER_CS C)), cs_sysenter_eip := sc_msr C (MSR_SYSENTER_EIP C),
                cs_sysenter_esp := sc_msr C (MSR_SYSENTER_ESP C), cs_efer := sc_msr C (MSR_EFER C), cs_pat := sc_msr C (MSR_PAT C),
                cs_debugctl := sc_msr C (MSR_DEBUGCTL C), cs_pending_exceptions := 0, cs_interruptibility_state := 0,
                cs_activity_state := 0, cs_smbase := 0\<rparr>
      in if get_field (sel_index E) (ucast (sc_ldtr C)) \<noteq> 0 then s
         else
           let s = upd_seg SEG_LDTR (\<lambda>ss. ss\<lparr>ss_attributes := 0x00010000\<rparr>) s;
               s = upd_seg SEG_TR (\<lambda>ss. ss\<lparr>ss_attributes := 0x0000808b\<rparr>) s;
               s = upd_seg SEG_TR (\<lambda>ss. ss\<lparr>ss_limit := 0xffffffff\<rparr>) s
           in fold (\<lambda>r. upd_seg r (save_segment_data E (sc_gdtr C) m (ucast (sc_selector C r))))
                [SEG_CS, SEG_DS, SEG_ES, SEG_FS, SEG_GS, SEG_SS] s)"

definition check_vmx_support :: "starter_cpu \<Rightarrow> int" where
  "check_vmx_support C =
     (if sc_cpuid_ecx C AND 0x00000020 = 0 then - 1
      else let u = sc_msr C (MSR_FEATURE_CONTROL C)
           in if u AND 0x01 \<noteq> 0 \<and> u AND 0x04 = 0 then - 1 else 0)"

section \<open>Calling the loader\<close>

text \<open>
  \<open>a_local\<close> is the address of the local variable \<^verbatim>\<open>xmon_loader\<close>, a 32-bit function pointer that \<^verbatim>\<open>load_image\<close> fills with a 64-bit
  store. \<open>enter e td s\<close> is the effect of the loaded code at \<open>e\<close>: the state upon its return, or \<open>None\<close> when it does not return.
\<close>

definition run_xmon_loader ::
    "elf_env \<Rightarrow> elf_load_info \<Rightarrow> u32 \<Rightarrow> (u32 \<Rightarrow> u32 \<Rightarrow> loader_state \<Rightarrow> loader_state option) \<Rightarrow> u32 \<Rightarrow> loader_state
      \<Rightarrow> (int \<times> loader_state) option" where
  "run_xmon_loader E junk a_local enter td s =
     do {
       let img = td + xmon_loader_start (mem s) td * 512;
       (ok, s) \<leftarrow> load_image E junk img (XMON_LOADER_BASE (mem s) td) XMON_LOADER_SIZE a_local s;
       if \<not> ok then Some (- 1, s)
       else do {
         s \<leftarrow> enter (load32 (mem s) a_local) td s;
         Some (- 1, s) } }"

datatype gpr = RAX | RBX | RCX | RDX | RDI | RSI | RBP | RSP | RIP | RFLAGS

text \<open>The arguments of \<^verbatim>\<open>starter_main\<close>: what \<^verbatim>\<open>starter.S\<close> has pushed.\<close>

record pushed =
  p_eflags :: u32
  p_edi :: u32
  p_esi :: u32
  p_ebp :: u32
  p_esp :: u32
  p_ebx :: u32
  p_edx :: u32
  p_ecx :: u32
  p_eax :: u32
  p_eip0 :: u32

record starter_env =
  st_seg :: seg_env
  st_elf :: elf_env
  st_load_info :: elf_load_info
  st_local :: u32
  o_gp_reg :: "gpr \<Rightarrow> u32"
  st_startup0 :: cpu_startup

text \<open>The assignments to \<^verbatim>\<open>gp.reg\<close>, in the order of the code.\<close>

definition saved_regs :: "pushed \<Rightarrow> (gpr \<times> u32) list" where
  "saved_regs p = [(RIP, p_eip0 p), (RFLAGS, p_eflags p), (RAX, p_eax p), (RCX, p_ecx p), (RDX, p_edx p), (RBX, p_ebx p),
     (RSP, p_esp p + 4), (RBP, p_ebp p), (RSI, p_esi p), (RDI, p_edi p)]"

definition store_regs :: "(gpr \<Rightarrow> u32) \<Rightarrow> u32 \<Rightarrow> (gpr \<times> u32) list \<Rightarrow> mem \<Rightarrow> mem" where
  "store_regs o_reg s rs m = fold (\<lambda>(r, v). store64 (s + o_reg r) (ucast v)) rs m"

text \<open>The guest's page is cleared, then the registers are stored at its start.\<close>

definition save_registers :: "(gpr \<Rightarrow> u32) \<Rightarrow> pushed \<Rightarrow> u32 \<Rightarrow> mem \<Rightarrow> mem" where
  "save_registers o_reg p td m =
     (let m = mon_memset (GUEST1_BASE m td) 0 (XMON_LOADER_BASE m td - GUEST1_BASE m td) m
      in store_regs o_reg (GUEST1_BASE m td) (saved_regs p) m)"

definition clean_up :: "u32 \<Rightarrow> mem \<Rightarrow> mem" where
  "clean_up td m = mon_memset (td + xmon_loader_start m td * 512) 0
     (XMON_LOADER_HEAP_BASE m td + XMON_LOADER_HEAP_SIZE - xmon_loader_start m td * 512) m"

text \<open>
  \<open>eip1\<close> is the return address. The function never returns: the result is the state in which it loops, with the saved
  state, or \<open>None\<close> when the loader has taken over for good.
\<close>

definition starter_main ::
    "starter_env \<Rightarrow> starter_cpu \<Rightarrow> (u32 \<Rightarrow> u32 \<Rightarrow> loader_state \<Rightarrow> loader_state option) \<Rightarrow> u32 \<Rightarrow> pushed \<Rightarrow> loader_state
      \<Rightarrow> (loader_state \<times> cpu_startup) option" where
  "starter_main S C enter eip1 p s =
     (let td = (eip1 AND 0xffffff00) - 0x400;
          m = save_registers (o_gp_reg S) p td (mem s);
          st = save_cpu_state (st_seg S) C m (st_startup0 S);
          s = s\<lparr>mem := m\<rparr>
      in do {
        s \<leftarrow> (if check_vmx_support C \<noteq> 0 then Some s
              else do { (_, s) \<leftarrow> run_xmon_loader (st_elf S) (st_load_info S) (st_local S) enter td s; Some s });
        Some (s\<lparr>mem := clean_up td (mem s)\<rparr>, st) })"

section \<open>Segments\<close>

text \<open>The architectural layout of descriptors and selectors.\<close>

definition seg_ok :: "seg_env \<Rightarrow> bool" where
  "seg_ok E \<longleftrightarrow> gen_lo_base_15_00 E = (16, 16) \<and> gen_lo_limit_15_00 E = (0, 16) \<and> gen_hi_base_23_16 E = (0, 8)
     \<and> gen_hi_base_31_24 E = (24, 8) \<and> gen_hi_limit_19_16 E = (16, 4) \<and> gen_hi_granularity E = (23, 1)
     \<and> gen_attr_attributes E = (8, 16) \<and> attr_limit_19_16 E = (8, 4) \<and> sel_index E = (3, 13) \<and> sel_ti E = (2, 1)
     \<and> seg_o_hi E = 4 \<and> sizeof_segment_descriptor E = 8"

text \<open>Base and limit of a descriptor as the processor reads them, the limit in bytes.\<close>

definition desc_base :: "u64 \<Rightarrow> u64" where
  "desc_base w = take_bit 24 (drop_bit 16 w) OR push_bit 24 (drop_bit 56 w)"

definition desc_limit :: "u64 \<Rightarrow> nat" where
  "desc_limit w = (let l = unat (take_bit 16 w) + unat (take_bit 4 (drop_bit 48 w)) * 2 ^ 16
     in if bit w 55 then (l + 1) * 4096 - 1 else l)"

text \<open>The base as it is saved: the processor's, but with 32 ones above it when its top bit is set.\<close>

definition saved_base :: "u64 \<Rightarrow> u64" where
  "saved_base w = (if desc_base w < 2 ^ 31 then desc_base w else desc_base w OR 0xFFFFFFFF00000000)"

lemma scast_ones:
  fixes v :: u32
  shows "(scast v :: u64) = (if (ucast v :: u64) < 2 ^ 31 then ucast v else ucast v OR 0xFFFFFFFF00000000)"
proof -
  have top: "(ucast v :: u64) < 2 ^ 31 \<longleftrightarrow> \<not> bit v 31"
  proof -
    have "(ucast v :: u64) < 2 ^ 31 \<longleftrightarrow> unat v < 2 ^ 31"
      using unat_bound(3) [of v] by (simp add: word_less_nat_alt unsigned_ucast_eq take_bit_nat_eq_self)
    also have "\<dots> \<longleftrightarrow> unat v div 2 ^ 31 = 0" by (simp add: div_eq_0_iff)
    also have "\<dots> \<longleftrightarrow> even (unat v div 2 ^ 31)"
      using unat_bound(3) [of v] by (auto elim!: evenE)
    also have "\<dots> \<longleftrightarrow> \<not> bit (unat v) 31" by (simp only: bit_iff_odd not_not)
    also have "\<dots> \<longleftrightarrow> \<not> bit v 31" by (simp add: bit_unsigned_iff)
    finally show ?thesis .
  qed
  have ones: "(0xFFFFFFFF00000000 :: u64) = NOT (mask 32)" by (simp add: mask_numeral)
  show ?thesis
    unfolding top ones
  proof (rule bit_word_eqI)
    fix n
    assume "n < LENGTH(64)"
    then show "bit (scast v :: u64) n = bit (if \<not> bit v 31 then ucast v else ucast v OR NOT (mask 32) :: u64) n"
      by (cases "n \<le> 31") (auto simp: bit_simps min_def dest: bit_imp_le_length)
  qed
qed

text \<open>The attribute word: bits 40 to 55, without the four bits of the limit among them.\<close>

definition desc_attributes :: "u64 \<Rightarrow> u32" where
  "desc_attributes w = ucast (take_bit 16 (drop_bit 40 w)) AND 0xF0FF"

lemma or_disjoint:
  fixes a b :: "'a :: len word"
  assumes "unat a < 2 ^ k" "k + j \<le> LENGTH('a)" "unat b < 2 ^ j"
  shows "unat (a OR push_bit k b) = unat a + unat b * 2 ^ k"
proof -
  have z: "a AND push_bit k b = 0"
  proof (rule bit_word_eqI)
    fix n
    have "a = take_bit k a" using assms(1) by (simp add: word_unat_eq_iff unsigned_take_bit_eq take_bit_nat_eq_self)
    then show "bit (a AND push_bit k b) n \<longleftrightarrow> bit (0 :: 'a word) n"
      by (metis bit_0_eq bit_and_iff bit_push_bit_iff bit_take_bit_iff bot_apply bot_bool_def not_le)
  qed
  have p: "unat (push_bit k b) = unat b * 2 ^ k"
  proof -
    have "unat b * 2 ^ k < 2 ^ j * 2 ^ k" using assms(3) by simp
    also have "\<dots> \<le> 2 ^ LENGTH('a)" using assms(2) by (simp add: power_add [symmetric] add.commute)
    finally show ?thesis by (simp add: unsigned_push_bit_eq push_bit_eq_mult [of k "unat b"] take_bit_nat_eq_self)
  qed
  have "a OR push_bit k b = a + push_bit k b" using z by (simp add: disjunctive_add_eq_or)
  moreover have "unat a + unat b * 2 ^ k < 2 ^ LENGTH('a)"
  proof -
    have "unat a + unat b * 2 ^ k < (unat b + 1) * 2 ^ k" using assms(1) by simp
    also have "\<dots> \<le> 2 ^ j * 2 ^ k" using assms(3) by (intro mult_le_mono1) simp
    also have "\<dots> \<le> 2 ^ LENGTH('a)" using assms(2) by (simp add: power_add [symmetric] add.commute)
    finally show ?thesis .
  qed
  ultimately show ?thesis using p by (simp add: unat_word_ariths(1))
qed

text \<open>A descriptor from its two words.\<close>

definition desc_of :: "u32 \<Rightarrow> u32 \<Rightarrow> u64" where
  "desc_of lo hi = ucast lo OR push_bit 32 (ucast hi)"

lemma bit_desc_of: "bit (desc_of lo hi) k \<longleftrightarrow> (if k < 32 then bit lo k else bit hi (k - 32))"
  by (auto simp: desc_of_def bit_simps dest: bit_imp_le_length)

lemma bit32: "bit (w :: u32) n \<Longrightarrow> n < 32"
  using bit_imp_le_length [of w n] by simp

text \<open>The index of a selector and the descriptor it selects.\<close>

definition sel_desc :: "gdtr \<Rightarrow> u16 \<Rightarrow> u32" where
  "sel_desc gdtr sel = g_base gdtr + 8 * ucast (drop_bit 3 sel)"

lemma sel_fields:
  assumes "seg_ok E"
  shows "get_field (sel_index E) (ucast (sel :: u16)) = ucast (drop_bit 3 sel)" "get_field (sel_ti E) (ucast sel) \<noteq> 0 \<longleftrightarrow> bit sel 2"
proof -
  show "get_field (sel_index E) (ucast sel) = ucast (drop_bit 3 sel)"
    using assms by (intro bit_word_eqI) (auto simp: seg_ok_def get_field_def bit_simps dest: bit_imp_le_length)
  have "get_field (sel_ti E) (ucast sel) = of_bool (bit sel 2)"
    using assms by (intro bit_word_eqI) (auto simp: seg_ok_def get_field_def bit_simps even_drop_bit_iff_not_bit)
  then show "get_field (sel_ti E) (ucast sel) \<noteq> 0 \<longleftrightarrow> bit sel 2" by simp
qed

lemma unat_take_bit_less: "unat (take_bit k w) < 2 ^ k"
  by (simp add: unsigned_take_bit_eq take_bit_nat_less_exp)

lemma segment_parts:
  fixes lo hi :: u32
  assumes E: "seg_ok E" and w: "w = desc_of lo hi"
  shows "ucast (get_field (gen_lo_base_15_00 E) lo OR push_bit 16 (get_field (gen_hi_base_23_16 E) hi)
      OR push_bit 24 (get_field (gen_hi_base_31_24 E) hi)) = desc_base w"
    and "get_field (gen_hi_granularity E) hi \<noteq> 0 \<longleftrightarrow> bit w 55"
    and "unat (get_field (gen_lo_limit_15_00 E) lo OR push_bit 16 (get_field (gen_hi_limit_19_16 E) hi))
      = unat (take_bit 16 w) + unat (take_bit 4 (drop_bit 48 w)) * 2 ^ 16"
    and "put_field (attr_limit_19_16 E) 0 (get_field (gen_attr_attributes E) hi) = desc_attributes w"
proof -
  show "put_field (attr_limit_19_16 E) 0 (get_field (gen_attr_attributes E) hi) = desc_attributes w"
  proof (rule bit_word_eqI)
    fix n :: nat
    have F: "(0xF0FF :: u32) = mask 16 AND NOT (push_bit 8 (mask 4))" by (simp add: mask_numeral)
    consider "n < 8" | "8 \<le> n" "n < 12" | "12 \<le> n" "n < 16" | "16 \<le> n" by linarith
    then show "bit (put_field (attr_limit_19_16 E) 0 (get_field (gen_attr_attributes E) hi)) n \<longleftrightarrow> bit (desc_attributes w) n"
      using E by cases (auto simp: seg_ok_def put_field_def get_field_def desc_attributes_def F w bit_simps bit_desc_of add.commute dest: bit32)
  qed
  show "ucast (get_field (gen_lo_base_15_00 E) lo OR push_bit 16 (get_field (gen_hi_base_23_16 E) hi)
      OR push_bit 24 (get_field (gen_hi_base_31_24 E) hi)) = desc_base w"
  proof (rule bit_word_eqI)
    fix n :: nat
    consider "n < 16" | "16 \<le> n" "n < 24" | "24 \<le> n" "n < 32" | "32 \<le> n" by linarith
    then show "bit (ucast (get_field (gen_lo_base_15_00 E) lo OR push_bit 16 (get_field (gen_hi_base_23_16 E) hi)
        OR push_bit 24 (get_field (gen_hi_base_31_24 E) hi)) :: u64) n \<longleftrightarrow> bit (desc_base w) n"
      using E by cases (auto simp: seg_ok_def get_field_def desc_base_def w bit_simps bit_desc_of dest: bit32)
  qed
  have "get_field (gen_hi_granularity E) hi = of_bool (bit w 55)"
    using E by (intro bit_word_eqI) (auto simp: seg_ok_def get_field_def w bit_simps bit_desc_of even_drop_bit_iff_not_bit)
  then show "get_field (gen_hi_granularity E) hi \<noteq> 0 \<longleftrightarrow> bit w 55" by simp
  have a: "get_field (gen_lo_limit_15_00 E) lo = ucast (take_bit 16 w)"
    using E by (intro bit_word_eqI) (auto simp: seg_ok_def get_field_def w bit_simps bit_desc_of)
  have b: "get_field (gen_hi_limit_19_16 E) hi = ucast (take_bit 4 (drop_bit 48 w))"
    using E by (intro bit_word_eqI) (auto simp: seg_ok_def get_field_def w bit_simps bit_desc_of add.commute)
  have u: "unat (ucast (take_bit k w) :: u32) = unat (take_bit k w)" "unat (take_bit k w) < 2 ^ k" if "k \<le> 16" for k and w :: u64
  proof -
    have "unat (take_bit k w) < 2 ^ k" by (rule unat_take_bit_less)
    moreover have "(2 :: nat) ^ k \<le> 2 ^ 16" using that by (intro power_increasing) auto
    ultimately show "unat (ucast (take_bit k w) :: u32) = unat (take_bit k w)" "unat (take_bit k w) < 2 ^ k"
      by (simp_all add: unsigned_ucast_eq take_bit_nat_eq_self)
  qed
  show "unat (get_field (gen_lo_limit_15_00 E) lo OR push_bit 16 (get_field (gen_hi_limit_19_16 E) hi))
      = unat (take_bit 16 w) + unat (take_bit 4 (drop_bit 48 w)) * 2 ^ 16"
    unfolding a b using u(1) [of 16 "w"] u(2) [of 16 "w"] u(1) [of 4 "drop_bit 48 w"]
      u(2) [of 4 "drop_bit 48 w"]
    by (subst or_disjoint [where j = 4]) simp_all
qed

text \<open>Granularity of pages: the limit in bytes.\<close>

lemma page_limit:
  fixes l :: u32
  assumes "unat l < 2 ^ 20"
  shows "unat (push_bit 12 l OR 0xfff) = (unat l + 1) * 4096 - 1"
proof -
  have "unat (0xfff OR push_bit 12 l) = unat (0xfff :: u32) + unat l * 2 ^ 12"
    by (rule or_disjoint [where j = 20]) (use assms in simp_all)
  then show ?thesis by (simp add: or.commute)
qed

text \<open>The selectors that the code accepts.\<close>

definition segment_accepted :: "seg_env \<Rightarrow> gdtr \<Rightarrow> mem \<Rightarrow> u16 \<Rightarrow> bool" where
  "segment_accepted E gdtr m sel \<longleftrightarrow> drop_bit 3 sel \<noteq> 0 \<and> unat (drop_bit 3 sel) div 8 \<le> unat (g_limit gdtr) div 8 \<and> \<not> bit sel 2
     \<and> validate_descriptor E m (sel_desc gdtr sel) = 0"

lemma save_segment_data_eq:
  fixes ss :: seg_struct
  assumes E: "seg_ok E"
  shows "if segment_accepted E gdtr m sel
    then save_segment_data E gdtr m sel ss = \<lparr>ss_base = saved_base (load64 m (sel_desc gdtr sel)),
        ss_limit = of_nat (desc_limit (load64 m (sel_desc gdtr sel))),
        ss_attributes = desc_attributes (load64 m (sel_desc gdtr sel)), ss_selector = sel\<rparr>
      \<and> desc_limit (load64 m (sel_desc gdtr sel)) < 2 ^ 32
    else save_segment_data E gdtr m sel ss = ss"
proof -
  let ?d = "sel_desc gdtr sel" and ?i = "ucast (drop_bit 3 sel) :: u32"
  let ?lo = "load32 m ?d" and ?hi = "load32 m (?d + 4)"
  note sf = sel_fields [OF E, of sel]
  have sz: "sizeof_segment_descriptor E = 8" "seg_o_hi E = 4" using E by (simp_all add: seg_ok_def)
  have ui: "unat ?i = unat (drop_bit 3 sel)"
    using unat_bound(2) [of "drop_bit 3 sel"] by (simp add: unsigned_ucast_eq take_bit_nat_eq_self)
  then have i0: "?i = 0 \<longleftrightarrow> drop_bit 3 sel = 0" by (simp add: word_unat_eq_iff)
  have i1: "ucast (g_limit gdtr) div 8 < ?i div 8 \<longleftrightarrow> \<not> unat (drop_bit 3 sel) div 8 \<le> unat (g_limit gdtr) div 8"
    using unat_bound(2) [of "g_limit gdtr"] unat_bound(2) [of "drop_bit 3 sel"]
    by (auto simp: word_less_nat_alt unat_div unsigned_ucast_eq take_bit_nat_eq_self)
  have d: "g_base gdtr + 8 * ?i = ?d" by (simp add: sel_desc_def)
  have w: "load64 m ?d = desc_of ?lo ?hi" by (simp add: desc_of_def load64_parts)
  note parts = segment_parts [OF E w]
  define l where "l = get_field (gen_lo_limit_15_00 E) ?lo OR push_bit 16 (get_field (gen_hi_limit_19_16 E) ?hi)"
  have l: "unat l < 2 ^ 20"
  proof -
    have "unat (take_bit 16 (load64 m ?d)) < 2 ^ 16" "unat (take_bit 4 (drop_bit 48 (load64 m ?d))) < 2 ^ 4"
      by (rule unat_take_bit_less)+
    then show ?thesis using parts(3) by (simp add: l_def)
  qed
  have lim: "unat (if bit (load64 m ?d) 55 then push_bit 12 l OR 0xfff else l) = desc_limit (load64 m ?d)"
    using page_limit [OF l] parts(3) by (simp add: desc_limit_def l_def Let_def)
  then have lim': "(if bit (load64 m ?d) 55 then push_bit 12 l OR 0xfff else l) = of_nat (desc_limit (load64 m ?d))"
    by (simp only: lim [symmetric] of_nat_unat ucast_id)
  have lt: "desc_limit (load64 m ?d) < 2 ^ 32" 
    unfolding lim [symmetric] using unat_bound(3) [of "if bit (load64 m ?d) 55 then push_bit 12 l OR 0xfff else l"] by simp
  show ?thesis
  proof (cases "segment_accepted E gdtr m sel")
    case True
    then have "save_segment_data E gdtr m sel ss = \<lparr>ss_base = saved_base (load64 m ?d),
        ss_limit = (if bit (load64 m ?d) 55 then push_bit 12 l OR 0xfff else l),
        ss_attributes = put_field (attr_limit_19_16 E) 0 (get_field (gen_attr_attributes E) ?hi), ss_selector = sel\<rparr>"
      using parts(1,2) by (simp add: save_segment_data_def segment_accepted_def sf sz i0 i1 d l_def Let_def scast_ones saved_base_def)
    then show ?thesis using True lim' lt parts(4) by simp
  next
    case False
    then have "save_segment_data E gdtr m sel ss = ss"
      by (auto simp: save_segment_data_def segment_accepted_def sf sz i0 i1 d Let_def)
    then show ?thesis using False by simp
  qed
qed

section \<open>Properties\<close>

text \<open>
  C28. The saved state of a segment, for a selector of the GDT whose index passes the checks and whose descriptor
  \<^verbatim>\<open>validate_descriptor\<close> accepts: the saved limit is the descriptor's limit in bytes, with the granularity applied, the saved
  attributes are its access bits and flags, and the saved base is the descriptor's base if that lies below 2 GB; a higher
  base is saved with its upper 32 bits set, which is not the processor's base. In every other case the structure stays as it was.
\<close>

theorem save_segment_data_decodes:
  fixes ss :: seg_struct
  assumes E: "seg_ok E"
  shows "if segment_accepted E gdtr m sel
    then save_segment_data E gdtr m sel ss = \<lparr>
        ss_base = (let b = desc_base (load64 m (sel_desc gdtr sel)) in if b < 2 ^ 31 then b else b OR 0xFFFFFFFF00000000),
        ss_limit = of_nat (desc_limit (load64 m (sel_desc gdtr sel))),
        ss_attributes = desc_attributes (load64 m (sel_desc gdtr sel)), ss_selector = sel\<rparr>
      \<and> desc_limit (load64 m (sel_desc gdtr sel)) < 2 ^ 32
    else save_segment_data E gdtr m sel ss = ss"
  using save_segment_data_eq [OF assms, of gdtr m sel ss]
  by (cases "segment_accepted E gdtr m sel") (simp_all add: saved_base_def Let_def)

text \<open>The architectural layout, and a GDT at \<^verbatim>\<open>0x8000\<close> with a flat 4 GB code segment as descriptor 1.\<close>

definition std_seg :: seg_env where
  "std_seg = \<lparr>gen_lo_base_15_00 = (16, 16), gen_lo_limit_15_00 = (0, 16), gen_hi_base_23_16 = (0, 8), gen_hi_base_31_24 = (24, 8),
     gen_hi_limit_19_16 = (16, 4), gen_hi_s = (12, 1), gen_hi_present = (15, 1), gen_hi_mbz_21 = (21, 1), gen_hi_granularity = (23, 1),
     tss_hi_mbo_8 = (8, 1), tss_hi_mbz_10 = (10, 1), tss_hi_mbo_11 = (11, 1), tss_hi_mbz_12 = (12, 1), tss_hi_mbz_21 = (21, 1),
     tss_hi_mbz_22 = (22, 1), cs_hi_mbo_11 = (11, 1), cs_hi_mbo_12 = (12, 1), cs_hi_default_size = (22, 1), ds_hi_mbz_11 = (11, 1),
     ds_hi_mbo_12 = (12, 1), ds_hi_big = (22, 1), gen_attr_attributes = (8, 16), attr_limit_19_16 = (8, 4), sel_index = (3, 13),
     sel_ti = (2, 1), seg_o_hi = 4, sizeof_segment_descriptor = 8\<rparr>"

lemma std_seg_ok: "seg_ok std_seg"
  by (simp add: seg_ok_def std_seg_def)

lemma flat_code: "validate_descriptor std_seg flat_gdt 0x8008 = 0" "load64 flat_gdt 0x8008 = 0x00CF9B000000FFFF"
  by (simp_all add: validate_descriptor_def std_seg_def get_field_def flat_gdt_def mem_eval Let_def)

theorem save_segment_data_decodes_witness:
  "save_segment_data std_seg \<lparr>g_limit = 15, g_base = 0x8000\<rparr> flat_gdt 8 \<lparr>ss_base = 1, ss_limit = 1, ss_attributes = 1, ss_selector = 1\<rparr>
    = \<lparr>ss_base = 0, ss_limit = 0xFFFFFFFF, ss_attributes = 0xC09B, ss_selector = 8\<rparr>"
proof -
  let ?g = "\<lparr>g_limit = 15, g_base = 0x8000\<rparr> :: gdtr" and ?ss = "\<lparr>ss_base = 1, ss_limit = 1, ss_attributes = 1, ss_selector = 1\<rparr> :: seg_struct"
  have d: "sel_desc ?g 8 = 0x8008" by (simp add: sel_desc_def)
  have "segment_accepted std_seg ?g flat_gdt 8" by (simp add: segment_accepted_def d flat_code)
  moreover have "desc_base 0x00CF9B000000FFFF = 0" "desc_limit 0x00CF9B000000FFFF = 0xFFFFFFFF" "desc_attributes 0x00CF9B000000FFFF = 0xC09B"
    by (simp_all add: desc_base_def desc_limit_def desc_attributes_def bit_iff_odd_drop_bit)
  ultimately show ?thesis
    using save_segment_data_decodes [OF std_seg_ok, of ?g flat_gdt 8 ?ss] by (simp add: d flat_code)
qed

text \<open>
  The bound on the selector is eight times too wide, because the index is divided by the size of a descriptor although it
  counts descriptors: in a GDT of \<open>n\<close> descriptors every index up to \<open>8 * n - 1\<close> passes the check, so for \<open>i \<ge> n\<close> the eight bytes
  at \<open>8 * i\<close>, behind the table, are taken for a descriptor and saved if they look like one.
\<close>

theorem selector_check_too_wide:
  assumes "seg_ok E" "unat (g_limit gdtr) = 8 * n - 1" "n \<le> unat (drop_bit 3 sel)" "unat (drop_bit 3 sel) < 8 * n" "0 < n"
    and "\<not> bit sel 2" "validate_descriptor E m (sel_desc gdtr sel) = 0"
  shows "unat (g_limit gdtr) < 8 * unat (drop_bit 3 sel)
    \<and> ss_base (save_segment_data E gdtr m sel ss) = saved_base (load64 m (sel_desc gdtr sel))
    \<and> ss_selector (save_segment_data E gdtr m sel ss) = sel"
proof -
  obtain j where j: "n = Suc j" using assms(5) by (cases n) auto
  have "drop_bit 3 sel \<noteq> 0" using assms(3,5) by auto
  moreover have "unat (drop_bit 3 sel) div 8 \<le> (8 * n - 1) div 8" using assms(4) by (simp add: j)
  ultimately have acc: "segment_accepted E gdtr m sel" using assms by (simp add: segment_accepted_def)
  show ?thesis using save_segment_data_eq [OF assms(1), of gdtr m sel ss] assms(2,3,5) unfolding if_P [OF acc] by simp
qed

theorem selector_check_too_wide_witness:
  "\<forall>ss. ss_base (save_segment_data std_seg \<lparr>g_limit = 7, g_base = 0x8000\<rparr> flat_gdt 8 ss) = 0
   \<and> ss_selector (save_segment_data std_seg \<lparr>g_limit = 7, g_base = 0x8000\<rparr> flat_gdt 8 ss) = 8"
proof
  fix ss :: seg_struct
  let ?g = "\<lparr>g_limit = 7, g_base = 0x8000\<rparr> :: gdtr"
  have d: "sel_desc ?g 8 = 0x8008" by (simp add: sel_desc_def)
  have "saved_base 0x00CF9B000000FFFF = 0" by (simp add: saved_base_def desc_base_def)
  then show "ss_base (save_segment_data std_seg ?g flat_gdt 8 ss) = 0 \<and> ss_selector (save_segment_data std_seg ?g flat_gdt 8 ss) = 8"
    using selector_check_too_wide [OF std_seg_ok, of ?g 1 8 flat_gdt ss] by (simp add: d flat_code)
qed

subsection \<open>The registers\<close>

text \<open>
  What is asked of the offsets of \<^verbatim>\<open>gp.reg\<close>: every register lies in the 0x400 bytes of the guest's state, and no two overlap.
\<close>

definition gp_layout_ok :: "(gpr \<Rightarrow> u32) \<Rightarrow> bool" where
  "gp_layout_ok o_reg \<longleftrightarrow> (\<forall>r. unat (o_reg r) + 8 \<le> 0x400)
     \<and> (\<forall>r q. r \<noteq> q \<longrightarrow> unat (o_reg r) + 8 \<le> unat (o_reg q) \<or> unat (o_reg q) + 8 \<le> unat (o_reg r))"

lemma gp_apart:
  assumes "gp_layout_ok o_reg" "r \<noteq> q" "in_range (s + o_reg r) 8 x"
  shows "\<not> in_range (s + o_reg q) 8 x"
proof -
  have "unat (o_reg r) + 8 \<le> 0x400" "unat (o_reg q) + 8 \<le> 0x400"
    "unat (o_reg r) + 8 \<le> unat (o_reg q) \<or> unat (o_reg q) + 8 \<le> unat (o_reg r)"
    using assms(1,2) unfolding gp_layout_ok_def by blast+
  then show ?thesis using table_words_apart [of s "unat (o_reg r)" 8 x "unat (o_reg q)" 8] assms(3) by simp
qed

lemma store_regs_read:
  assumes L: "gp_layout_ok o_reg"
  shows "distinct (map fst rs) \<Longrightarrow> (r, v) \<in> set rs \<Longrightarrow> load64 (store_regs o_reg s rs m) (s + o_reg r) = ucast v"
proof (induction rs arbitrary: m)
  case (Cons p rs)
  obtain q u where p: "p = (q, u)" by fastforce
  show ?case
  proof (cases "(r, v) = (q, u)")
    case True
    have "load64 (store_regs o_reg s rs m') (s + o_reg r) = load64 m' (s + o_reg r)" if "r \<notin> fst ` set rs" for m'
      using that
    proof (induction rs arbitrary: m')
      case (Cons p' rs')
      obtain q' u' where p': "p' = (q', u')" by fastforce
      have "load64 (store64 (s + o_reg q') (ucast u') m') (s + o_reg r) = load64 m' (s + o_reg r)"
        by (rule load_cong(3), rule store_other) (use gp_apart [OF L, of r q'] Cons.prems p' in auto)
      then show ?case using Cons p' by (simp add: store_regs_def)
    qed (simp add: store_regs_def)
    moreover have "r \<notin> fst ` set rs" using Cons.prems(1) p True by auto
    ultimately show ?thesis using p True by (simp add: store_regs_def)
  next
    case False
    then have "(r, v) \<in> set rs" using Cons.prems(2) p by auto
    then show ?thesis using Cons.IH [of "store64 (s + o_reg q) (ucast u) m"] Cons.prems(1) p by (simp add: store_regs_def)
  qed
qed simp

lemma store_regs_frame:
  assumes "gp_layout_ok o_reg" "\<not> in_range s 0x400 x"
  shows "store_regs o_reg s rs m x = m x"
proof (induction rs arbitrary: m)
  case (Cons p rs)
  obtain q u where p: "p = (q, u)" by fastforce
  have "\<not> in_range (s + o_reg q) 8 x" using assms not_sub_block(1) [of s "0x400" x "o_reg q" 8] by (auto simp: gp_layout_ok_def)
  then show ?case using Cons p by (simp add: store_regs_def store_other)
qed (simp add: store_regs_def)

text \<open>The guest's page, between the package and the loader.\<close>

lemma guest_page:
  assumes "unat td + unat (XMON_PKG_SIZE m td) + 0x13ff < 2 ^ 32"
  shows "unat (GUEST1_BASE m td) = unat td + unat (XMON_PKG_SIZE m td)"
    and "unat (GUEST1_BASE m td) + 0x400 \<le> unat (XMON_LOADER_BASE m td)"
    and "unat (XMON_LOADER_BASE m td - GUEST1_BASE m td) = unat (XMON_LOADER_BASE m td) - unat (GUEST1_BASE m td)"
proof -
  show g: "unat (GUEST1_BASE m td) = unat td + unat (XMON_PKG_SIZE m td)"
    using assms by (simp add: GUEST1_BASE_def unat_word_ariths(1))
  have g4: "unat (GUEST1_BASE m td + 0x400) = unat (GUEST1_BASE m td) + 0x400"
    using assms g by (simp add: unat_word_ariths(1))
  then have "unat (XMON_LOADER_BASE m td) = round_page (unat (GUEST1_BASE m td) + 0x400)"
    using unat_page_up [of "GUEST1_BASE m td + 0x400"] assms g by (simp add: XMON_LOADER_BASE_def GUEST1_SIZE_def)
  then show l: "unat (GUEST1_BASE m td) + 0x400 \<le> unat (XMON_LOADER_BASE m td)"
    using round_page_bounds(1) [of "unat (GUEST1_BASE m td) + 0x400"] by simp
  show "unat (XMON_LOADER_BASE m td - GUEST1_BASE m td) = unat (XMON_LOADER_BASE m td) - unat (GUEST1_BASE m td)"
    using l by (intro unat_sub) (simp add: word_le_nat_alt)
qed

lemma header_kept:
  assumes L: "gp_layout_ok o_reg" and sz: "80 \<le> unat (XMON_PKG_SIZE m td)" "unat td + unat (XMON_PKG_SIZE m td) + 0x13ff < 2 ^ 32"
    and x: "in_range td 80 x"
  shows "mon_memset (GUEST1_BASE m td) 0 (XMON_LOADER_BASE m td - GUEST1_BASE m td) m x = m x"
    and "\<not> in_range (GUEST1_BASE m td) 0x400 x"
proof -
  note g = guest_page [OF sz(2)]
  have lt: "unat x < unat (GUEST1_BASE m td)"
    using x sz g(1) in_range_linear [of td 80 x] by simp
  then show "\<not> in_range (GUEST1_BASE m td) 0x400 x"
    using in_range_linear [of "GUEST1_BASE m td" "0x400" x] g sz by simp
  have "\<not> in_range (GUEST1_BASE m td) (unat (XMON_LOADER_BASE m td - GUEST1_BASE m td)) x"
    using in_range_linear [of "GUEST1_BASE m td" "unat (XMON_LOADER_BASE m td - GUEST1_BASE m td)" x] lt g
      unat_bound(3) [of "XMON_LOADER_BASE m td"] by simp
  then show "mon_memset (GUEST1_BASE m td) 0 (XMON_LOADER_BASE m td - GUEST1_BASE m td) m x = m x"
    by (simp add: mon_memset_apply)
qed

text \<open>The place of the guest's state depends on the header of the package only.\<close>

lemma guest1_base_cong: "(\<And>x. in_range td 80 x \<Longrightarrow> m' x = m x) \<Longrightarrow> GUEST1_BASE m' td = GUEST1_BASE m td"
proof -
  assume h: "\<And>x. in_range td 80 x \<Longrightarrow> m' x = m x"
  have "load32 m' (td + k) = load32 m (td + k)" if "unat k + 4 \<le> 80" for k
    by (rule load_cong(2), rule h) (use sub_block [of td k 4 _ 80] that in blast)
  then show ?thesis by (simp add: GUEST1_BASE_def XMON_PKG_SIZE_def guest1_start_def guest1_count_def)
qed

text \<open>The registers at the point from which the starter was called, in terms of what the stub has pushed.\<close>

primrec caller_reg :: "pushed \<Rightarrow> gpr \<Rightarrow> u32" where
  "caller_reg p RAX = p_eax p"
| "caller_reg p RBX = p_ebx p"
| "caller_reg p RCX = p_ecx p"
| "caller_reg p RDX = p_edx p"
| "caller_reg p RDI = p_edi p"
| "caller_reg p RSI = p_esi p"
| "caller_reg p RBP = p_ebp p"
| "caller_reg p RSP = p_esp p + 4"
| "caller_reg p RIP = p_eip0 p"
| "caller_reg p RFLAGS = p_eflags p"

lemma caller_reg_saved: "(r, caller_reg p r) \<in> set (saved_regs p)"
  by (cases r) (simp_all add: saved_regs_def)

text \<open>
  The registers reach their readers: for a package of at least the header's size, below 4 GB, every register that
  \<^verbatim>\<open>starter.S\<close> has pushed (the stack pointer as it was before the call) is found at its place in the guest's state; in
  particular \<^verbatim>\<open>get_e820_table_from_multiboot\<close> finds there the multiboot information that the boot loader passed in \<^verbatim>\<open>ebx\<close>. The
  clearing of the page and the stores do not touch the header that locates them.
\<close>

lemma save_registers_read:
  assumes L: "gp_layout_ok o_reg" and sz: "80 \<le> unat (XMON_PKG_SIZE m td)" "unat td + unat (XMON_PKG_SIZE m td) + 0x13ff < 2 ^ 32"
    and V: "o_reg_rbx V = o_reg RBX" and m': "m' = save_registers o_reg p td m"
  shows "GUEST1_BASE m' td = GUEST1_BASE m td
    \<and> (\<forall>r. load64 m' (GUEST1_BASE m td + o_reg r) = ucast (caller_reg p r))
    \<and> saved_mbi V m' td = p_ebx p"
proof -
  define m1 where "m1 = mon_memset (GUEST1_BASE m td) 0 (XMON_LOADER_BASE m td - GUEST1_BASE m td) m"
  have b1: "GUEST1_BASE m1 td = GUEST1_BASE m td"
    by (rule guest1_base_cong) (simp add: m1_def header_kept(1) [OF L sz])
  then have e: "m' = store_regs o_reg (GUEST1_BASE m td) (saved_regs p) m1" by (simp add: m' save_registers_def m1_def)
  have b: "GUEST1_BASE m' td = GUEST1_BASE m1 td"
    by (rule guest1_base_cong) (simp add: e store_regs_frame [OF L header_kept(2) [OF L sz]])
  have r: "load64 m' (GUEST1_BASE m td + o_reg r) = ucast (caller_reg p r)" for r
    unfolding e by (rule store_regs_read [OF L _ caller_reg_saved]) (simp add: saved_regs_def)
  from r [of RBX] have "saved_mbi V m' td = p_ebx p" using b b1 V by (simp add: saved_mbi_def ucast_up_down)
  then show ?thesis using b b1 r by auto
qed

definition std_gp :: "gpr \<Rightarrow> u32" where
  "std_gp r = (case r of RAX \<Rightarrow> 0 | RBX \<Rightarrow> 0x18 | RCX \<Rightarrow> 8 | RDX \<Rightarrow> 0x10 | RDI \<Rightarrow> 0x20 | RSI \<Rightarrow> 0x28 | RBP \<Rightarrow> 0x30 | RSP \<Rightarrow> 0x38
     | RIP \<Rightarrow> 0x80 | RFLAGS \<Rightarrow> 0x88)"

lemma std_gp_ok: "gp_layout_ok std_gp"
  by (auto simp: gp_layout_ok_def std_gp_def split: gpr.splits)

definition demo_pushed :: pushed where
  "demo_pushed = \<lparr>p_eflags = 2, p_edi = 0, p_esi = 0, p_ebp = 0, p_esp = 0x7000, p_ebx = 0x9500, p_edx = 0, p_ecx = 0,
     p_eax = 0x2BADB002, p_eip0 = 0x100400\<rparr>"

subsection \<open>Giving up\<close>

lemma save_registers_header:
  assumes L: "gp_layout_ok o_reg" and sz: "80 \<le> unat (XMON_PKG_SIZE m td)" "unat td + unat (XMON_PKG_SIZE m td) + 0x13ff < 2 ^ 32"
    and x: "in_range td 80 x"
  shows "save_registers o_reg p td m x = m x"
proof -
  define m1 where "m1 = mon_memset (GUEST1_BASE m td) 0 (XMON_LOADER_BASE m td - GUEST1_BASE m td) m"
  have "GUEST1_BASE m1 td = GUEST1_BASE m td"
    by (rule guest1_base_cong) (simp add: m1_def header_kept(1) [OF L sz])
  moreover have "m1 x = m x" by (simp add: m1_def header_kept(1) [OF L sz x])
  ultimately show ?thesis
    using store_regs_frame [OF L header_kept(2) [OF L sz x]] by (simp add: save_registers_def m1_def [symmetric])
qed

lemma check_vmx_support_iff:
  "check_vmx_support C = 0 \<longleftrightarrow> bit (sc_cpuid_ecx C) 5
     \<and> (bit (sc_msr C (MSR_FEATURE_CONTROL C)) 0 \<longrightarrow> bit (sc_msr C (MSR_FEATURE_CONTROL C)) 2)"
proof -
  have m: "w AND 2 ^ n = 0 \<longleftrightarrow> \<not> bit w n" if "n < LENGTH('a)" for w :: "'a::len word" and n
    using that by (auto simp: bit_eq_iff [of "w AND 2 ^ n"] bit_simps)
  show ?thesis
    using m [of 5 "sc_cpuid_ecx C"] m [of 0 "sc_msr C (MSR_FEATURE_CONTROL C)"] m [of 2 "sc_msr C (MSR_FEATURE_CONTROL C)"]
    by (auto simp: check_vmx_support_def Let_def)
qed

text \<open>
  C34. A processor without usable VMX (absent, or locked off in the feature-control register) is not handed over: whatever
  the loader would do, \<^verbatim>\<open>starter_main\<close> ends in its final loop with the registers saved and the memory cleared. The clearing starts
  at the loader's image in the package and is meant to end with the loader's heap, at \<open>e\<close>, but as its length is the end
  address less an offset it runs on for another \<open>td\<close> bytes, over the memory of startap and of the monitor and beyond.
\<close>

theorem starter_gives_up:
  fixes eip1 :: u32 and s :: loader_state and S :: starter_env and p :: pushed
  defines "td \<equiv> (eip1 AND 0xffffff00) - 0x400"
  defines "m \<equiv> save_registers (o_gp_reg S) p td (mem s)"
  defines "b \<equiv> 512 * unat (xmon_loader_start m td)" and "e \<equiv> unat (XMON_LOADER_HEAP_BASE m td) + 0xa0000"
  assumes vmx: "\<not> (bit (sc_cpuid_ecx C) 5
      \<and> (bit (sc_msr C (MSR_FEATURE_CONTROL C)) 0 \<longrightarrow> bit (sc_msr C (MSR_FEATURE_CONTROL C)) 2))"
    and fits: "unat td + e < 2 ^ 32" "b \<le> e"
  shows "\<exists>s' st. starter_main S C enter eip1 p s = Some (s', st)
    \<and> (\<forall>x. mem s' x = (if unat td + b \<le> unat x \<and> unat x < unat td + e then 0 else m x))"
proof -
  have nv: "check_vmx_support C \<noteq> 0" using vmx check_vmx_support_iff by blast
  let ?l = "xmon_loader_start m td * 512" and ?n = "XMON_LOADER_HEAP_BASE m td + XMON_LOADER_HEAP_SIZE - xmon_loader_start m td * 512"
  have ul: "unat ?l = b" using fits by (simp add: b_def unat_word_ariths(2) mult.commute)
  have ue: "unat (XMON_LOADER_HEAP_BASE m td + XMON_LOADER_HEAP_SIZE) = e"
    using fits(1) by (simp add: e_def XMON_LOADER_HEAP_SIZE_def unat_word_ariths(1))
  have un: "unat ?n = e - b"
    using ul ue fits(2) by (subst unat_sub) (simp_all add: word_le_nat_alt)
  have ut: "unat (td + ?l) = unat td + b" using ul fits by (simp add: unat_word_ariths(1))
  have "clean_up td m x = (if unat td + b \<le> unat x \<and> unat x < unat td + e then 0 else m x)" for x
  proof -
    have "in_range (td + ?l) (unat ?n) x \<longleftrightarrow> unat td + b \<le> unat x \<and> unat x < unat td + e"
      using in_range_linear [of "td + ?l" "unat ?n" x] ut un fits by simp
    then show ?thesis by (simp add: clean_up_def mon_memset_apply)
  qed
  then show ?thesis
    using nv by (simp add: starter_main_def Let_def td_def [symmetric] m_def [symmetric])
qed

definition demo_starter :: starter_env where
  "demo_starter = \<lparr>st_seg = std_seg, st_elf = std_elf, st_load_info = no_info, st_local = 0x6FF0, o_gp_reg = std_gp,
     st_startup0 = \<lparr>cs_size_of_this_struct = 0, cs_version_of_this_struct = 0, cs_gdtr = (0, 0), cs_idtr = (0, 0), cs_cr0 = 0, cs_cr2 = 0,
       cs_cr3 = 0, cs_cr4 = 0, cs_sysenter_cs = 0, cs_sysenter_eip = 0, cs_sysenter_esp = 0, cs_efer = 0, cs_pat = 0, cs_debugctl = 0,
       cs_pending_exceptions = 0, cs_interruptibility_state = 0, cs_activity_state = 0, cs_smbase = 0,
       cs_segment = (\<lambda>_. \<lparr>ss_base = 0, ss_limit = 0, ss_attributes = 0, ss_selector = 0\<rparr>)\<rparr>\<rparr>"

definition no_vmx_cpu :: starter_cpu where
  "no_vmx_cpu = \<lparr>sc_gdtr = \<lparr>g_limit = 15, g_base = 0x8000\<rparr>, sc_idtr = \<lparr>g_limit = 0, g_base = 0\<rparr>, sc_cr0 = 1, sc_cr2 = 0, sc_cr3 = 0,
     sc_cr4 = 0, sc_msr = (\<lambda>_. 0), sc_ldtr = 0, sc_tr = 0, sc_selector = (\<lambda>_. 8), sc_cpuid_ecx = 0, sizeof_cpu_startup = 0x400,
     CPU_STARTUP_STATE_VERSION = 1, MSR_SYSENTER_CS = 0x174, MSR_SYSENTER_EIP = 0x176, MSR_SYSENTER_ESP = 0x175, MSR_EFER = 0xC0000080,
     MSR_PAT = 0x277, MSR_DEBUGCTL = 0x1D9, MSR_FEATURE_CONTROL = 0x3A\<rparr>"

text \<open>A package at 1 MB: the byte behind the heap, the first of the region of startap, is cleared.\<close>

theorem starter_gives_up_witness:
  "\<exists>s' st. starter_main demo_starter no_vmx_cpu (\<lambda>_ _ _. None) 0x100410 demo_pushed
      (small_heap\<lparr>mem := (\<lambda>_. 0)(0x100048 := 8, 0x10004C := 2, 0x1B2000 := 7)\<rparr>) = Some (s', st) \<and> mem s' 0x1B2000 = 0"
proof -
  let ?old = "(\<lambda>_. 0)(0x100048 := 8, 0x10004C := 2, 0x1B2000 := 7) :: mem"
  let ?m = "save_registers std_gp demo_pushed 0x100000 ?old"
  have p: "XMON_PKG_SIZE ?old 0x100000 = 0x1400"
    by (simp add: XMON_PKG_SIZE_def guest1_start_def guest1_count_def mem_eval)
  have sz: "80 \<le> unat (XMON_PKG_SIZE ?old 0x100000)" "unat (0x100000 :: u32) + unat (XMON_PKG_SIZE ?old 0x100000) + 0x13ff < 2 ^ 32"
    by (simp_all add: p)
  have h: "?m x = ?old x" if "in_range 0x100000 80 x" for x
    by (rule save_registers_header [OF std_gp_ok sz that])
  have "GUEST1_BASE ?m 0x100000 = GUEST1_BASE ?old 0x100000" by (rule guest1_base_cong) (rule h)
  then have g: "GUEST1_BASE ?m 0x100000 = 0x101400" unfolding GUEST1_BASE_def [of ?old] p by simp
  have "load32 ?m 0x100028 = load32 ?old 0x100028"
    by (rule load_cong(2), rule h) (simp add: in_range_linear)
  then have l: "xmon_loader_start ?m 0x100000 = 0" by (simp add: xmon_loader_start_def mem_eval)
  have b: "unat (XMON_LOADER_HEAP_BASE ?m 0x100000) = 0x112000"
    by (simp add: XMON_LOADER_HEAP_BASE_def XMON_LOADER_BASE_def g GUEST1_SIZE_def XMON_LOADER_SIZE_def)
  have f: "o_gp_reg demo_starter = std_gp" "sc_cpuid_ecx no_vmx_cpu = 0" "(0x100410 AND 0xffffff00) - 0x400 = (0x100000 :: u32)"
    "mem (small_heap\<lparr>mem := ?old\<rparr>) = ?old"
    by (simp_all add: demo_starter_def no_vmx_cpu_def)
  obtain s' st where "starter_main demo_starter no_vmx_cpu (\<lambda>_ _ _. None) 0x100410 demo_pushed (small_heap\<lparr>mem := ?old\<rparr>) = Some (s', st)"
    and "\<forall>x. mem s' x = (if unat (0x100000 :: u32) + 512 * unat (0 :: u32) \<le> unat x
      \<and> unat x < unat (0x100000 :: u32) + (0x112000 + 0xa0000) then 0 else ?m x)"
    using starter_gives_up [of no_vmx_cpu "0x100410" demo_starter demo_pushed "small_heap\<lparr>mem := ?old\<rparr>" "\<lambda>_ _ _. None", unfolded f l b] by auto
  then show ?thesis by (intro exI [of _ s'] exI [of _ st]) simp
qed

end
