(* ===== verification/Entry_Stubs.thy ===== *)
theory Entry_Stubs
  imports Starter Startap Guest_Launch
begin

text \<open>
  The assembly files around the C code: \<^verbatim>\<open>pre_os/starter/starter.S\<close>, the first instructions of the package;
  \<^verbatim>\<open>pre_os/xmon_loader/pg_entry.S\<close>, where the guest resumes and where Linux is entered; and
  \<^verbatim>\<open>pre_os/starter/chain_load.S\<close>, a real-mode boot sector. A sequence of instructions is a function on memory, the stack pointer
  and the registers it uses; the arguments of a C function are read from the stack as the calling convention places them.
\<close>

section \<open>starter.S\<close>

record regs =
  r_eax :: u32
  r_ecx :: u32
  r_edx :: u32
  r_ebx :: u32
  r_esp :: u32
  r_ebp :: u32
  r_esi :: u32
  r_edi :: u32
  r_eflags :: u32

definition pushal :: "regs \<Rightarrow> mem \<times> u32 \<Rightarrow> mem \<times> u32" where
  "pushal r st = push32 (r_edi r) (push32 (r_esi r) (push32 (r_ebp r) (push32 (r_esp r) (push32 (r_ebx r)
     (push32 (r_edx r) (push32 (r_ecx r) (push32 (r_eax r) st)))))))"

text \<open>
  \<open>base\<close> is the address of \<^verbatim>\<open>start\<close>; the three instructions have one, one and five bytes. The result is the memory and the stack
  pointer at the entry of \<^verbatim>\<open>starter_main\<close>.
\<close>

definition start :: "u32 \<Rightarrow> regs \<Rightarrow> mem \<Rightarrow> mem \<times> u32" where
  "start base r m = push32 (base + 7) (push32 (r_eflags r) (pushal r (m, r_esp r)))"

text \<open>
  The return address and the ten arguments of \<^verbatim>\<open>starter_main\<close>, as the C code finds them. They are values of the call, read at its start; that
  the function clears the guest page before it uses them does not matter as long as the stack lies outside of that page.
\<close>

definition starter_args :: "mem \<times> u32 \<Rightarrow> u32 \<times> pushed" where
  "starter_args st = (case st of (m, esp) \<Rightarrow> (load32 m esp,
     \<lparr>p_eflags = load32 m (esp + 4), p_edi = load32 m (esp + 8), p_esi = load32 m (esp + 12), p_ebp = load32 m (esp + 16),
      p_esp = load32 m (esp + 20), p_ebx = load32 m (esp + 24), p_edx = load32 m (esp + 28), p_ecx = load32 m (esp + 32),
      p_eax = load32 m (esp + 36), p_eip0 = load32 m (esp + 40)\<rparr>))"

definition starter_entry ::
    "starter_env \<Rightarrow> starter_cpu \<Rightarrow> (u32 \<Rightarrow> u32 \<Rightarrow> loader_state \<Rightarrow> loader_state option) \<Rightarrow> u32 \<Rightarrow> regs \<Rightarrow> loader_state
      \<Rightarrow> (loader_state \<times> cpu_startup) option" where
  "starter_entry S C enter base r s =
     (let st = start base r (mem s); (eip1, p) = starter_args st
      in starter_main S C enter eip1 p (s\<lparr>mem := fst st\<rparr>))"

section \<open>pg_entry.S\<close>

definition BOOT_CS :: u16 where "BOOT_CS = 0x10"
definition BOOT_DS :: u16 where "BOOT_DS = 0x18"

text \<open>The processor at the first instruction of the kernel.\<close>

record kernel_state =
  k_eip :: u32
  k_esi :: u32
  k_edx :: u32
  k_ebp :: u32
  k_edi :: u32
  k_ebx :: u32
  k_eax :: u32
  k_ecx :: u32
  k_cs :: u16
  k_ds :: u16
  k_es :: u16
  k_fs :: u16
  k_gs :: u16
  k_ss :: u16
  k_if :: bool

definition jump_to_kernel :: "mem \<times> u32 \<Rightarrow> kernel_state" where
  "jump_to_kernel st = (case st of (m, esp) \<Rightarrow>
     let esi = load32 m (esp + 4); edx = load32 m (esp + 8); ecx = ucast BOOT_DS; cx = ucast ecx
     in \<lparr>k_eip = edx, k_esi = esi, k_edx = edx, k_ebp = 0, k_edi = 0, k_ebx = 0, k_eax = 0, k_ecx = ecx,
         k_cs = BOOT_CS, k_ds = cx, k_es = cx, k_fs = cx, k_gs = cx, k_ss = cx, k_if = False\<rparr>)"

text \<open>The call at the end of \<^verbatim>\<open>jump_linux_image\<close>: two arguments and the return address \<open>ret\<close>.\<close>

definition call_jump_to_kernel :: "u32 \<Rightarrow> u32 \<Rightarrow> u32 \<Rightarrow> mem \<times> u32 \<Rightarrow> kernel_state" where
  "call_jump_to_kernel ret bootparams entry_point st =
     jump_to_kernel (push32 ret (push32 bootparams (push32 entry_point st)))"

definition primary_guest_entry ::
    "e820_env \<Rightarrow> (u32 \<Rightarrow> u32) \<Rightarrow> u32 \<Rightarrow> u32 \<Rightarrow> u32 \<Rightarrow> u32 \<Rightarrow> u32 \<Rightarrow> loader_state \<Rightarrow> (Linux_Loader.launch \<times> loader_state) option" where
  "primary_guest_entry V pa pmask gdt ret ecx esp s =
     (let (m, esp) = push32 ret (push32 ecx (mem s, esp))
      in load_primary_guest_kernel V pa pmask gdt (load32 m (esp + 4)) (s\<lparr>mem := m\<rparr>))"

section \<open>chain_load.S\<close>

text \<open>
  The disk services of the BIOS are parameters: reading sectors by cylinder, head and sector (\<^verbatim>\<open>ax\<close>, \<^verbatim>\<open>bx\<close>, \<^verbatim>\<open>cx\<close>, \<^verbatim>\<open>dx\<close>), and the
  extended read of a drive with the address of a packet; both give the carry flag and the new memory. All segments are at 0.
\<close>

record bios =
  int13_read :: "u16 \<Rightarrow> u16 \<Rightarrow> u16 \<Rightarrow> u16 \<Rightarrow> mem \<Rightarrow> bool \<times> mem"
  int13_extended_read :: "u8 \<Rightarrow> u32 \<Rightarrow> mem \<Rightarrow> bool \<times> mem"

datatype chain = Int_0x19 | Disk_error mem | Start_guest mem

text \<open>The packet for partition \<open>bp\<close>, on the stack.\<close>

definition read_part :: "u16 \<Rightarrow> u32 \<Rightarrow> mem \<Rightarrow> mem" where
  "read_part bp esi m =
     (let m = store16 esi 0x010 m;
          m = store16 (esi + 2) 0x001 m;
          m = store32 (esi + 4) 0x7c00 m;
          m = store32 (esi + 12) 0x000 m;
          di = push_bit 4 (bp - 1);
          edi = load32 m (0x7c00 + 0x1be + ucast di)
      in store32 (esi + 8) edi m)"

definition chain_load :: "bios \<Rightarrow> u16 \<Rightarrow> u32 \<Rightarrow> mem \<Rightarrow> chain" where
  "chain_load B dx esp m =
     (if bit dx 15 then Int_0x19
      else
        let bp = drop_bit 8 dx; dx = dx AND 0x00FF; (carry, m) = int13_read B 0x201 0x7c00 0x001 dx m in
        if carry then Disk_error m
        else if bp = 0 then Start_guest m
        else if sint bp > 4 then Disk_error m
        else
          let esi = esp - 16; (carry, m) = int13_extended_read B (ucast dx) esi (read_part bp esi m) in
          if carry then Disk_error m else Start_guest m)"

section \<open>The stack of the starter\<close>

text \<open>What the stub has pushed, in terms of the registers and the word at the top of the caller's stack.\<close>

definition pushed_of :: "regs \<Rightarrow> u32 \<Rightarrow> pushed" where
  "pushed_of r eip0 = \<lparr>p_eflags = r_eflags r, p_edi = r_edi r, p_esi = r_esi r, p_ebp = r_ebp r, p_esp = r_esp r,
     p_ebx = r_ebx r, p_edx = r_edx r, p_ecx = r_ecx r, p_eax = r_eax r, p_eip0 = eip0\<rparr>"

lemma start_args: "starter_args (start base r m) = (base + 7, pushed_of r (load32 m (r_esp r)))"
proof -
  obtain t where t: "r_esp r = t + 40" by (metis diff_add_cancel)
  show ?thesis
    by (simp add: starter_args_def start_def pushal_def push32_def pushed_of_def t add.commute)
      (simp add: load_after_store sep_def)
qed

lemma start_frame: "\<not> in_range (r_esp r - 40) 40 x \<Longrightarrow> fst (start base r m) x = m x"
proof -
  obtain t where t: "r_esp r = t + 40" by (metis diff_add_cancel)
  assume "\<not> in_range (r_esp r - 40) 40 x"
  then have out: "\<not> in_range t 40 x" by (simp add: t)
  note o = not_sub_block(1) [OF out]
  have "\<not> in_range t 4 x" "\<not> in_range (t + 4) 4 x" "\<not> in_range (t + 8) 4 x" "\<not> in_range (t + 12) 4 x" "\<not> in_range (t + 16) 4 x"
    "\<not> in_range (t + 20) 4 x" "\<not> in_range (t + 24) 4 x" "\<not> in_range (t + 28) 4 x" "\<not> in_range (t + 32) 4 x" "\<not> in_range (t + 36) 4 x"
    using not_sub_block(2) [OF out, of 4] by (simp_all add: o)
  then show ?thesis
    by (simp add: start_def pushal_def push32_def t store_other add.commute)
qed

section \<open>Properties\<close>

text \<open>The registers at the point from which the package was entered; the return address is still on the stack.\<close>

definition entry_reg :: "regs \<Rightarrow> mem \<Rightarrow> gpr \<Rightarrow> u32" where
  "entry_reg r m = caller_reg (pushed_of r (load32 m (r_esp r)))"

lemma starter_td:
  assumes "(base :: u32) AND 0xFF = 0"
  shows "(base + 7) AND 0xffffff00 = base"
proof -
  have "(0xFF :: u32) = mask 8" by (simp add: mask_numeral)
  then have "unat (take_bit 8 base) = 0" using assms by (simp only: take_bit_eq_mask) simp
  then have d: "unat base mod 256 = 0" by (simp add: take_bit_eq_mod unat_mod)
  then obtain k where k: "unat base = 256 * k" by (metis mult_div_mod_eq add.right_neutral)
  then have "k < 16777216" using unat_bound(3) [of base] by simp
  then have "unat base + 7 < 2 ^ 32" using k by simp
  then have u: "unat (base + 7) = unat base + 7" by (simp add: unat_word_ariths(1))
  have "(0xffffff00 :: u32) = NOT (mask 8)" by (simp add: mask_numeral)
  then have "unat ((base + 7) AND 0xffffff00) = take_bit 32 (unat (base + 7) div 256 * 256)"
    using unat_bound(3) [of "base + 7"]
    by (simp only: and_not_mask_eq unsigned_push_bit_eq unsigned_drop_bit_eq)
      (simp add: push_bit_eq_mult drop_bit_eq_div take_bit_nat_eq_self)
  also have "unat (base + 7) div 256 * 256 = unat base" using k u by simp
  finally show ?thesis using unat_bound(3) [of base] by (simp add: word_unat_eq_iff take_bit_nat_eq_self)
qed

text \<open>
  C24. The registers of the boot loader reach the guest. When the package is entered at \<open>base\<close>, a multiple of 256, with a stack that
  does not overlap the header of the package, on a processor with VMX, the loader is run on a memory in whose guest state every
  general register, the flags, the stack pointer after the return and the return address are found at their places; in
  particular the loader finds the multiboot information that the boot loader passed in \<^verbatim>\<open>ebx\<close>.
\<close>

theorem caller_registers_reach_guest:
  fixes s :: loader_state and base :: u32 and r :: regs
  defines "td \<equiv> base - 0x400"
  assumes al: "base AND 0xFF = 0" and L: "gp_layout_ok (o_gp_reg S)" and V: "o_reg_rbx V = o_gp_reg S RBX"
    and sz: "80 \<le> unat (XMON_PKG_SIZE (mem s) td)" "unat td + unat (XMON_PKG_SIZE (mem s) td) + 0x13ff < 2 ^ 32"
    and stack: "sep (r_esp r - 40) 40 td 80" and vmx: "check_vmx_support C = 0"
  shows "\<exists>m' st. starter_entry S C enter base r s
      = run_xmon_loader (st_elf S) (st_load_info S) (st_local S) enter td (s\<lparr>mem := m'\<rparr>)
          \<bind> (\<lambda>(_, s'). Some (s'\<lparr>mem := clean_up td (mem s')\<rparr>, st))
    \<and> (\<forall>g. load64 m' (GUEST1_BASE (mem s) td + o_gp_reg S g) = ucast (entry_reg r (mem s) g))
    \<and> GUEST1_BASE m' td = GUEST1_BASE (mem s) td \<and> saved_mbi V m' td = r_ebx r"
proof -
  let ?m = "fst (start base r (mem s))" and ?p = "pushed_of r (load32 (mem s) (r_esp r))"
  let ?m' = "save_registers (o_gp_reg S) ?p td ?m"
  have hd: "agree_on td 80 (mem s) ?m" by (rule frame_agree [OF start_frame stack])
  have same: "XMON_PKG_SIZE ?m td = XMON_PKG_SIZE (mem s) td" "GUEST1_BASE ?m td = GUEST1_BASE (mem s) td"
    using agree_on_load(2) [OF hd, unfolded inside_def]
    by (simp_all add: GUEST1_BASE_def XMON_PKG_SIZE_def guest1_start_def guest1_count_def)
  note regs = save_registers_read [OF L sz [folded same(1)] V refl, of ?p]
  have "starter_entry S C enter base r s
      = run_xmon_loader (st_elf S) (st_load_info S) (st_local S) enter td (s\<lparr>mem := ?m'\<rparr>)
          \<bind> (\<lambda>(_, s'). Some (s'\<lparr>mem := clean_up td (mem s')\<rparr>, save_cpu_state (st_seg S) C ?m' (st_startup0 S)))"
    using vmx starter_td [OF al]
    by (simp add: starter_entry_def start_args starter_main_def td_def [symmetric] Let_def split_def)
  with regs same show ?thesis
    by (intro exI [of _ ?m'] exI [of _ "save_cpu_state (st_seg S) C ?m' (st_startup0 S)"])
      (simp add: entry_reg_def pushed_of_def)
qed

text \<open>A package at 1 MB that is entered with the multiboot information at \<^verbatim>\<open>0x9500\<close>; the loader does not return.\<close>

definition demo_regs :: regs where
  "demo_regs = \<lparr>r_eax = 0x2BADB002, r_ecx = 0, r_edx = 0, r_ebx = 0x9500, r_esp = 0x7000, r_ebp = 0, r_esi = 0, r_edi = 0,
     r_eflags = 2\<rparr>"

definition demo_package :: loader_state where
  "demo_package = small_heap\<lparr>mem := (\<lambda>_. 0)(0x100048 := 8, 0x10004C := 2, 0x7001 := 0x12)\<rparr>"

definition vmx_cpu :: starter_cpu where
  "vmx_cpu = no_vmx_cpu\<lparr>sc_cpuid_ecx := 0x20\<rparr>"

theorem caller_registers_reach_guest_witness:
  "\<exists>m' st. starter_entry demo_starter vmx_cpu (\<lambda>_ _ _. None) 0x100400 demo_regs demo_package
      = run_xmon_loader (st_elf demo_starter) (st_load_info demo_starter) (st_local demo_starter) (\<lambda>_ _ _. None) 0x100000
          (demo_package\<lparr>mem := m'\<rparr>) \<bind> (\<lambda>(_, s'). Some (s'\<lparr>mem := clean_up 0x100000 (mem s')\<rparr>, st))
    \<and> load64 m' (0x101400 + std_gp RAX) = 0x2BADB002 \<and> load64 m' (0x101400 + std_gp RIP) = 0x1200
    \<and> load64 m' (0x101400 + std_gp RSP) = 0x7004 \<and> saved_mbi std_e820 m' 0x100000 = 0x9500"
proof -
  let ?m = "mem demo_package"
  have f: "o_gp_reg demo_starter = std_gp" "check_vmx_support vmx_cpu = 0"
    by (simp_all add: demo_starter_def check_vmx_support_def vmx_cpu_def no_vmx_cpu_def)
  have g: "XMON_PKG_SIZE ?m 0x100000 = 0x1400" "GUEST1_BASE ?m 0x100000 = 0x101400" "load32 ?m 0x7000 = 0x1200"
    by (simp_all add: demo_package_def GUEST1_BASE_def XMON_PKG_SIZE_def guest1_start_def guest1_count_def mem_eval)
  have e: "entry_reg demo_regs ?m RAX = 0x2BADB002" "entry_reg demo_regs ?m RIP = 0x1200" "entry_reg demo_regs ?m RSP = 0x7004"
    "r_ebx demo_regs = 0x9500" "r_esp demo_regs = 0x7000"
    using g(3) by (simp_all add: entry_reg_def pushed_of_def demo_regs_def)
  have v: "o_reg_rbx std_e820 = std_gp RBX" by (simp add: std_e820_def std_gp_def)
  obtain m' st where r: "starter_entry demo_starter vmx_cpu (\<lambda>_ _ _. None) 0x100400 demo_regs demo_package
      = run_xmon_loader (st_elf demo_starter) (st_load_info demo_starter) (st_local demo_starter) (\<lambda>_ _ _. None) 0x100000
          (demo_package\<lparr>mem := m'\<rparr>) \<bind> (\<lambda>(_, s'). Some (s'\<lparr>mem := clean_up 0x100000 (mem s')\<rparr>, st))"
    and regs: "\<And>g. load64 m' (0x101400 + std_gp g) = ucast (entry_reg demo_regs ?m g)" and mbi: "saved_mbi std_e820 m' 0x100000 = 0x9500"
    using caller_registers_reach_guest [of "0x100400" demo_starter std_e820 demo_package demo_regs vmx_cpu "\<lambda>_ _ _. None"]
    by (auto simp: f g e v std_gp_ok sep_def)
  show ?thesis
    by (intro exI [of _ m'] exI [of _ st] conjI r mbi) (simp_all only: regs e, simp_all)
qed

subsection \<open>Entering Linux\<close>

lemma call_jump_to_kernel_eq:
  "call_jump_to_kernel ret bootparams entry_point (m, esp) =
     \<lparr>k_eip = entry_point, k_esi = bootparams, k_edx = entry_point, k_ebp = 0, k_edi = 0, k_ebx = 0, k_eax = 0, k_ecx = 0x18,
      k_cs = 0x10, k_ds = 0x18, k_es = 0x18, k_fs = 0x18, k_gs = 0x18, k_ss = 0x18, k_if = False\<rparr>"
proof -
  have "load32 (store32 (esp - 12) ret (store32 (esp - 8) bootparams (store32 (esp - 4) entry_point m))) (esp - 8) = bootparams"
    "load32 (store32 (esp - 12) ret (store32 (esp - 8) bootparams (store32 (esp - 4) entry_point m))) (esp - 4) = entry_point"
    by (simp_all add: load_after_store sep_def)
  then show ?thesis by (simp add: call_jump_to_kernel_def jump_to_kernel_def push32_def BOOT_CS_def BOOT_DS_def)
qed

text \<open>A segment of 4 GB from address 0: executable and readable, or writable data, both of 32 bits and present.\<close>

definition flat_code :: "u64 \<Rightarrow> bool" where
  "flat_code w \<longleftrightarrow> desc_base w = 0 \<and> desc_limit w = 2 ^ 32 - 1 \<and> bit w 41 \<and> bit w 43 \<and> bit w 44 \<and> bit w 47 \<and> bit w 54"

definition flat_data :: "u64 \<Rightarrow> bool" where
  "flat_data w \<longleftrightarrow> desc_base w = 0 \<and> desc_limit w = 2 ^ 32 - 1 \<and> bit w 41 \<and> \<not> bit w 43 \<and> bit w 44 \<and> bit w 47 \<and> bit w 54"

text \<open>
  The 32-bit boot protocol: \<^verbatim>\<open>esi\<close> holds the boot parameters, \<^verbatim>\<open>ebp\<close>, \<^verbatim>\<open>edi\<close> and \<^verbatim>\<open>ebx\<close> are zero, interrupts are off,
  \<^verbatim>\<open>cs\<close> is \<^verbatim>\<open>__BOOT_CS\<close> and \<^verbatim>\<open>ds\<close>, \<^verbatim>\<open>es\<close>, \<^verbatim>\<open>ss\<close> are \<^verbatim>\<open>__BOOT_DS\<close>, and the loaded table \<open>gdt\<close> of the given limit has flat segments there.
\<close>

definition boot_protocol :: "u16 \<Rightarrow> u64 list \<Rightarrow> u32 \<Rightarrow> kernel_state \<Rightarrow> bool" where
  "boot_protocol limit gdt bootparams k \<longleftrightarrow>
     k_esi k = bootparams \<and> k_ebp k = 0 \<and> k_edi k = 0 \<and> k_ebx k = 0 \<and> \<not> k_if k
     \<and> k_cs k = 0x10 \<and> k_ds k = 0x18 \<and> k_es k = 0x18 \<and> k_ss k = 0x18
     \<and> unat (k_cs k) + 7 \<le> unat limit \<and> flat_code (gdt ! (unat (k_cs k) div 8))
     \<and> unat (k_ds k) + 7 \<le> unat limit \<and> flat_data (gdt ! (unat (k_ds k) div 8))"

text \<open>
  C25. The hand-over satisfies the 32-bit boot protocol: whatever the stack, the jump that \<^verbatim>\<open>jump_linux_image\<close> makes through
  \<^verbatim>\<open>jump_to_kernel\<close> enters the kernel at the given entry point in the state that the protocol asks for.
\<close>

theorem linux_boot_protocol:
  "\<exists>limit. jump_linux_image gdt bootparams entry_point = Jump_to_kernel limit gdt bootparams entry_point
    \<and> boot_protocol limit linux_gdt bootparams (call_jump_to_kernel ret bootparams entry_point (m, esp))
    \<and> k_eip (call_jump_to_kernel ret bootparams entry_point (m, esp)) = entry_point"
proof -
  have "flat_code 0x00cf9b000000ffff" "flat_data 0x00cf93000000ffff"
    by (simp_all add: flat_code_def flat_data_def desc_base_def desc_limit_def Let_def)
  then have gd: "flat_code (linux_gdt ! 2)" "flat_data (linux_gdt ! 3)" by (simp_all add: linux_gdt_def)
  have "jump_linux_image gdt bootparams entry_point = Jump_to_kernel 31 gdt bootparams entry_point"
    by (simp add: jump_linux_image_def linux_gdt_def)
  then show ?thesis
    by (intro exI [of _ 31]) (simp add: boot_protocol_def call_jump_to_kernel_eq gd)
qed

subsection \<open>Resuming the guest\<close>

text \<open>
  C26. What the loader stores for the guest is what the stub expects: after \<^verbatim>\<open>setup_primary_guest_env\<close> the guest state holds the address of
  the stub as the instruction pointer, and the stub, entered with the stored \<^verbatim>\<open>ecx\<close>, calls \<^verbatim>\<open>load_primary_guest_kernel\<close> with the
  package that the loader was given, having written eight bytes of its stack only.
\<close>

theorem guest_resumes_with_package:
  assumes "sep o_rip 8 o_rcx 8" and "m' = setup_primary_guest_env o_rip o_rcx pge td m"
  shows "load64 m' (GUEST1_BASE m td + o_rip) = ucast pge
    \<and> (\<exists>s'. primary_guest_entry V pa pmask gdt ret (ucast (load64 m' (GUEST1_BASE m td + o_rcx))) esp s
          = load_primary_guest_kernel V pa pmask gdt td s'
        \<and> same_heap s s' \<and> cursor s' = cursor s \<and> (\<forall>x. \<not> in_range (esp - 8) 8 x \<longrightarrow> mem s' x = mem s x))"
proof -
  have "sep (GUEST1_BASE m td + o_rcx) 8 (GUEST1_BASE m td + o_rip) 8" using assms(1) by (simp add: sep_def)
  then have rip: "load64 m' (GUEST1_BASE m td + o_rip) = ucast pge"
    and ecx: "ucast (load64 m' (GUEST1_BASE m td + o_rcx)) = td"
    by (simp_all add: assms(2) setup_primary_guest_env_def Let_def load_after_store)
  let ?m = "store32 (esp - 8) ret (store32 (esp - 4) td (mem s))"
  have "load32 ?m (esp - 8 + 4) = td" by (simp add: load_after_store sep_def)
  then have "primary_guest_entry V pa pmask gdt ret td esp s = load_primary_guest_kernel V pa pmask gdt td (s\<lparr>mem := ?m\<rparr>)"
    by (simp add: primary_guest_entry_def push32_def)
  moreover have "?m x = mem s x" if "\<not> in_range (esp - 8) 8 x" for x
    using not_sub_block(1) [OF that, of 4 4] not_sub_block(2) [OF that, of 4] by (simp add: store_other)
  ultimately show ?thesis unfolding ecx
    by (intro conjI rip exI [of _ "s\<lparr>mem := ?m\<rparr>"]) (simp_all add: same_heap_def)
qed

theorem guest_resumes_with_package_witness:
  "load64 (setup_primary_guest_env 0x80 8 0x9000 0x100000 (\<lambda>_. 0)) 0x100080 = 0x9000
   \<and> (\<exists>s'. primary_guest_entry std_e820 id 0xFFF 0x9100 0x9042
         (ucast (load64 (setup_primary_guest_env 0x80 8 0x9000 0x100000 (\<lambda>_. 0)) 0x100008)) 0x7000 small_heap
       = load_primary_guest_kernel std_e820 id 0xFFF 0x9100 0x100000 s' \<and> mem s' 0x6FF0 = mem small_heap 0x6FF0)"
proof -
  have g: "GUEST1_BASE (\<lambda>_. 0) 0x100000 = 0x100000"
    by (simp add: GUEST1_BASE_def XMON_PKG_SIZE_def guest1_start_def guest1_count_def mem_eval)
  show ?thesis
    using guest_resumes_with_package [of "0x80" 8 _ "0x9000" "0x100000" "\<lambda>_. 0" std_e820 id "0xFFF" "0x9100" "0x9042" "0x7000" small_heap,
        OF _ refl, unfolded g]
    by (auto simp: sep_def in_range_def)
qed

subsection \<open>The boot sector\<close>

text \<open>
  The packet that \<^verbatim>\<open>chain_load.S\<close> builds for partition \<open>p\<close> asks for one sector to \<^verbatim>\<open>0x7c00\<close>; the sector number is the first word of the
  partition's entry in the partition table, at \<^verbatim>\<open>0x1be + 16 * (p - 1)\<close>, that is its boot flag and the start in cylinders, heads and sectors,
  and not the number of the first sector, which is at offset 8 of the entry.
\<close>

theorem read_part_packet:
  assumes "1 \<le> p" "p \<le> 4" and "sep esi 16 0x7c00 512"
  shows "load16 (read_part (of_nat p) esi m) esi = 16 \<and> load16 (read_part (of_nat p) esi m) (esi + 2) = 1
    \<and> load32 (read_part (of_nat p) esi m) (esi + 4) = 0x7c00
    \<and> load32 (read_part (of_nat p) esi m) (esi + 8) = load32 m (0x7c00 + 0x1be + of_nat (16 * (p - 1)))
    \<and> load32 (read_part (of_nat p) esi m) (esi + 12) = 0"
proof -
  have p: "p = 1 \<or> p = 2 \<or> p = 3 \<or> p = 4" using assms(1,2) by auto
  then have di: "ucast (push_bit 4 (of_nat p - 1) :: u16) = (of_nat (16 * (p - 1)) :: u32)" by auto
  let ?a = "0x7c00 + 0x1be + of_nat (16 * (p - 1)) :: u32"
  have "inside ?a 4 0x7c00 512" using p by (auto simp: inside_def)
  then have far: "sep esi 16 ?a 4" by (rule sep_part [OF assms(3)]) simp_all
  let ?m = "store32 (esi + 12) 0 (store32 (esi + 4) 0x7c00 (store16 (esi + 2) 1 (store16 esi 16 m)))"
  have "agree_on ?a 4 m ?m"
    by (rule frame_agree [OF _ far], use not_sub_block in \<open>simp add: store_other\<close>)
  then have "load32 ?m ?a = load32 m ?a" by (rule agree_on_self)
  then have "read_part (of_nat p) esi m = store32 (esi + 8) (load32 m ?a) ?m" by (simp add: read_part_def Let_def di)
  then show ?thesis by (simp add: load_after_store load_after_narrow sep_def)
qed

end
