(* ===== verification/Ap_Protocol.thy ===== *)
theory Ap_Protocol
  imports Ap_Startup
begin

text \<open>
  The hand-shake between the boot processor (BSP) and the application processors (APs), as an interleaving of atomic steps:
  \<^verbatim>\<open>ap_procs_startup\<close>, \<^verbatim>\<open>bsp_enumerate_aps\<close> and \<^verbatim>\<open>ap_procs_run\<close> of \<^verbatim>\<open>startap/ap_procs_init.c\<close> on one side, the code at
  \<^verbatim>\<open>ap_continue_wakeup_code\<close> (\<^verbatim>\<open>startap/wakeup_init64.S\<close>) and \<^verbatim>\<open>ap_continue_wakeup_code_C\<close> on the other. A processor that reads a
  variable in a loop without finding the awaited value takes no step. The APs are supposed to have identifiers from 1 up to the length of
  the presence array (the code does not check this): cell 0 is the BSP's, which the enumeration leaves out.
\<close>

section \<open>State\<close>

text \<open>
  An AP is named by its local APIC identifier. \<open>Marking\<close>: it runs and is about to write 1 to its cell; \<open>Spinning\<close>: at
  \<^verbatim>\<open>wait_lock_1\<close>; \<open>Released\<close>: at \<^verbatim>\<open>stage_2\<close>; \<open>Have_Id k\<close>: it has read its number \<open>k\<close>, which selects its stack
  \<^verbatim>\<open>i32_esp[k - 1]\<close>; \<open>In_User k\<close>: it has counted itself and runs the user's function.
\<close>

datatype ap_pc = Asleep | Marking | Spinning | Released | Have_Id u8 | In_User u8

text \<open>
  The BSP waits for the time-out, numbers cell \<open>i\<close> with the running number \<open>n\<close>, has stored \<^verbatim>\<open>g_aps_counter\<close>, has posted the new
  state and waits for \<^verbatim>\<open>g_ready_counter\<close>, or has left \<^verbatim>\<open>ap_procs_run\<close>.
\<close>

datatype bsp_pc = Timeout | Enumerating nat u8 | Enumerated | Waiting | Left_Run

record handshake =
  h_presence :: "u8 list"
  h_state :: mp_bootstrap_state
  h_ready :: u32
  h_aps :: u32
  h_ap :: "nat \<Rightarrow> ap_pc"
  h_bsp :: bsp_pc

definition h_start :: "nat \<Rightarrow> handshake" where
  "h_start n = \<lparr>h_presence = replicate n 0, h_state = MP_BOOTSTRAP_STATE_INIT, h_ready = 0, h_aps = 0, h_ap = (\<lambda>_. Asleep),
     h_bsp = Timeout\<rparr>"

text \<open>The APs that the array has a cell for and the enumeration visits.\<close>

abbreviation cells :: "handshake \<Rightarrow> nat set" where
  "cells s \<equiv> {1..<length (h_presence s)}"

section \<open>Steps\<close>

definition goto :: "nat \<Rightarrow> ap_pc \<Rightarrow> handshake \<Rightarrow> handshake" where
  "goto i pc s = s\<lparr>h_ap := (h_ap s)(i := pc)\<rparr>"

definition enumerate_step :: "nat \<Rightarrow> u8 \<Rightarrow> handshake \<Rightarrow> handshake" where
  "enumerate_step i n s = (let (n', c) = enumerate_cell n (h_presence s ! i)
     in s\<lparr>h_presence := (h_presence s)[i := c], h_bsp := Enumerating (Suc i) n'\<rparr>)"

text \<open>
  With \<open>late\<close> an AP may start at any time. Without, the time-out of the BSP is long enough: no AP starts after it and every
  AP that has started by then has marked its cell.
\<close>

inductive step :: "bool \<Rightarrow> handshake \<Rightarrow> handshake \<Rightarrow> bool" for late where
  wake: "i \<in> cells s \<Longrightarrow> h_ap s i = Asleep \<Longrightarrow> late \<or> h_bsp s = Timeout \<Longrightarrow> step late s (goto i Marking s)"
| mark: "i \<in> cells s \<Longrightarrow> h_ap s i = Marking \<Longrightarrow>
    step late s (goto i Spinning (s\<lparr>h_presence := (h_presence s)[i := 1]\<rparr>))"
| release: "i \<in> cells s \<Longrightarrow> h_ap s i = Spinning \<Longrightarrow> h_state s = MP_BOOTSTRAP_STATE_APS_ENUMERATED \<Longrightarrow>
    step late s (goto i Released s)"
| fetch: "i \<in> cells s \<Longrightarrow> h_ap s i = Released \<Longrightarrow> step late s (goto i (Have_Id (h_presence s ! i)) s)"
| count: "i \<in> cells s \<Longrightarrow> h_ap s i = Have_Id k \<Longrightarrow> step late s (goto i (In_User k) (s\<lparr>h_ready := h_ready s + 1\<rparr>))"
| time_out: "h_bsp s = Timeout \<Longrightarrow> late \<or> (\<forall>i \<in> cells s. h_ap s i \<noteq> Marking) \<Longrightarrow> step late s (s\<lparr>h_bsp := Enumerating 1 0\<rparr>)"
| enumerate: "h_bsp s = Enumerating i n \<Longrightarrow> i < length (h_presence s) \<Longrightarrow> step late s (enumerate_step i n s)"
| enumerated: "h_bsp s = Enumerating i n \<Longrightarrow> \<not> i < length (h_presence s) \<Longrightarrow>
    step late s (s\<lparr>h_aps := ucast n, h_bsp := Enumerated\<rparr>)"
| post: "h_bsp s = Enumerated \<Longrightarrow> step late s (s\<lparr>h_state := MP_BOOTSTRAP_STATE_APS_ENUMERATED, h_bsp := Waiting\<rparr>)"
| all_ready: "h_bsp s = Waiting \<Longrightarrow> h_ready s = h_aps s \<Longrightarrow> step late s (s\<lparr>h_bsp := Left_Run\<rparr>)"

section \<open>Invariants and progress of step relations\<close>

text \<open>An inductive invariant holds in every state that can be reached.\<close>

locale inductive_invariant =
  fixes init :: "'s \<Rightarrow> bool" and step :: "'s \<Rightarrow> 's \<Rightarrow> bool" and inv :: "'s \<Rightarrow> bool"
  assumes inv_init: "init s \<Longrightarrow> inv s"
    and inv_step: "inv s \<Longrightarrow> step s t \<Longrightarrow> inv t"
begin

lemma inv_steps: "step\<^sup>*\<^sup>* s t \<Longrightarrow> inv s \<Longrightarrow> inv t"
  by (induction rule: rtranclp_induct) (auto intro: inv_step)

lemma inv_reachable: "init s \<Longrightarrow> step\<^sup>*\<^sup>* s t \<Longrightarrow> inv t"
  by (blast intro: inv_steps inv_init)

end

text \<open>
  When moreover every step makes a measure smaller and the only states without a step are the finished ones, no run is
  longer than the measure of its first state and every run can only end in a finished state.
\<close>

locale progress = inductive_invariant +
  fixes mu :: "'a \<Rightarrow> nat" and fin :: "'a \<Rightarrow> bool"
  assumes mu_step: "inv s \<Longrightarrow> step s t \<Longrightarrow> mu t < mu s"
    and not_stuck: "inv s \<Longrightarrow> \<not> fin s \<Longrightarrow> \<exists>t. step s t"
begin

lemma run_bound: "(step ^^ n) s t \<Longrightarrow> inv s \<Longrightarrow> n + mu t \<le> mu s"
proof (induction n arbitrary: t)
  case (Suc n)
  then obtain r where r: "(step ^^ n) s r" "step r t" by auto
  have "inv r" using inv_steps r(1) Suc.prems(2) by (metis relpowp_imp_rtranclp)
  then show ?case using Suc.IH [OF r(1) Suc.prems(2)] mu_step [OF _ r(2)] by simp
qed simp

lemma can_finish: "inv s \<Longrightarrow> \<exists>t. step\<^sup>*\<^sup>* s t \<and> fin t"
proof (induction "mu s" arbitrary: s rule: less_induct)
  case less
  show ?case
  proof (cases "fin s")
    case False
    then obtain t where t: "step s t" using not_stuck less.prems by blast
    then have "inv t" "mu t < mu s" using inv_step mu_step less.prems by blast+
    then obtain u where "step\<^sup>*\<^sup>* t u" "fin u" using less.hyps by blast
    with t show ?thesis by (meson converse_rtranclp_into_rtranclp)
  qed blast
qed

end

section \<open>The invariant without late processors\<close>

definition up :: "ap_pc \<Rightarrow> bool" where
  "up pc \<longleftrightarrow> pc \<noteq> Asleep \<and> pc \<noteq> Marking"

definition in_user :: "ap_pc \<Rightarrow> bool" where
  "in_user pc \<longleftrightarrow> (\<exists>k. pc = In_User k)"

lemma up_simps [simp]: "\<not> up Asleep" "\<not> up Marking" "up Spinning" "up Released" "up (Have_Id k)" "up (In_User k)"
  by (simp_all add: up_def)

lemma in_user_simps [simp]: "\<not> in_user Asleep" "\<not> in_user Marking" "\<not> in_user Spinning" "\<not> in_user Released"
  "\<not> in_user (Have_Id k)" "in_user (In_User k)"
  by (simp_all add: in_user_def)

text \<open>The number of marked APs up to \<open>i\<close>, and of those in the user's function.\<close>

definition rank :: "handshake \<Rightarrow> nat \<Rightarrow> nat" where
  "rank s i = card {k \<in> {1..i}. up (h_ap s k)}"

definition users :: "handshake \<Rightarrow> nat" where
  "users s = card {i \<in> cells s. in_user (h_ap s i)}"

text \<open>The first cell that the enumeration of \<open>n\<close> cells has not visited, and what the cell of an AP holds.\<close>

fun visited :: "nat \<Rightarrow> bsp_pc \<Rightarrow> nat" where
  "visited n Timeout = 1"
| "visited n (Enumerating j _) = j"
| "visited n _ = n"

definition cell_value :: "handshake \<Rightarrow> nat \<Rightarrow> u8" where
  "cell_value s i = (if up (h_ap s i)
     then if i < visited (length (h_presence s)) (h_bsp s) then of_nat (rank s i) else 1 else 0)"

definition posted :: "bsp_pc \<Rightarrow> bool" where
  "posted b \<longleftrightarrow> b = Waiting \<or> b = Left_Run"

fun pc_ok :: "bsp_pc \<Rightarrow> u8 \<Rightarrow> ap_pc \<Rightarrow> bool" where
  "pc_ok b c Asleep \<longleftrightarrow> True"
| "pc_ok b c Marking \<longleftrightarrow> b = Timeout"
| "pc_ok b c Spinning \<longleftrightarrow> True"
| "pc_ok b c Released \<longleftrightarrow> posted b"
| "pc_ok b c (Have_Id k) \<longleftrightarrow> posted b \<and> k = c"
| "pc_ok b c (In_User k) \<longleftrightarrow> posted b \<and> k = c"

definition ap_ok :: "handshake \<Rightarrow> nat \<Rightarrow> bool" where
  "ap_ok s i \<longleftrightarrow> h_presence s ! i = cell_value s i \<and> pc_ok (h_bsp s) (h_presence s ! i) (h_ap s i)"

text \<open>What the BSP knows, for \<open>n\<close> cells with ranks \<open>r\<close>.\<close>

fun counter_ok :: "nat \<Rightarrow> (nat \<Rightarrow> nat) \<Rightarrow> u32 \<Rightarrow> u32 \<Rightarrow> bsp_pc \<Rightarrow> bool" where
  "counter_ok n r aps rd Timeout \<longleftrightarrow> True"
| "counter_ok n r aps rd (Enumerating j k) \<longleftrightarrow> 1 \<le> j \<and> j \<le> max 1 n \<and> k = of_nat (r (j - 1))"
| "counter_ok n r aps rd Enumerated \<longleftrightarrow> aps = of_nat (r (n - 1))"
| "counter_ok n r aps rd Waiting \<longleftrightarrow> aps = of_nat (r (n - 1))"
| "counter_ok n r aps rd Left_Run \<longleftrightarrow> aps = of_nat (r (n - 1)) \<and> rd = aps"

definition bsp_ok :: "handshake \<Rightarrow> bool" where
  "bsp_ok s \<longleftrightarrow> (h_state s = MP_BOOTSTRAP_STATE_APS_ENUMERATED \<longleftrightarrow> posted (h_bsp s))
     \<and> counter_ok (length (h_presence s)) (rank s) (h_aps s) (h_ready s) (h_bsp s)"

definition handshake_inv :: "handshake \<Rightarrow> bool" where
  "handshake_inv s \<longleftrightarrow> length (h_presence s) \<le> 256 \<and> (\<forall>i \<in> cells s. ap_ok s i) \<and> bsp_ok s \<and> h_ready s = of_nat (users s)"

subsection \<open>Counting\<close>

lemma rank_Suc: "rank s (Suc i) = (if up (h_ap s (Suc i)) then Suc (rank s i) else rank s i)"
proof -
  have "{k \<in> {1..Suc i}. up (h_ap s k)} = (if up (h_ap s (Suc i)) then {Suc i} else {}) \<union> {k \<in> {1..i}. up (h_ap s k)}"
    by (auto simp: le_Suc_eq)
  then show ?thesis by (simp add: rank_def)
qed

lemma rank_0 [simp]: "rank s 0 = 0" by (simp add: rank_def)

lemma rank_le: "rank s i \<le> i"
  by (induction i) (simp_all add: rank_Suc)

lemma rank_mono: "i \<le> j \<Longrightarrow> rank s i \<le> rank s j"
  by (auto simp: rank_def intro!: card_mono)

lemma rank_less: "i < j \<Longrightarrow> up (h_ap s j) \<Longrightarrow> rank s i < rank s j"
  using rank_mono [of i "j - 1" s] rank_Suc [of s "j - 1"] by (simp add: less_Suc_eq_le)

lemma rank_goto [simp]: "up pc = up (h_ap s i) \<Longrightarrow> rank (goto i pc s) = rank s"
  unfolding rank_def goto_def fun_eq_iff by (intro allI arg_cong [where f = card]) auto

lemma rank_bsp [simp]:
  "rank (s\<lparr>h_bsp := b\<rparr>) = rank s" "rank (s\<lparr>h_presence := p\<rparr>) = rank s" "rank (s\<lparr>h_state := t\<rparr>) = rank s"
  "rank (s\<lparr>h_ready := r\<rparr>) = rank s" "rank (s\<lparr>h_aps := a\<rparr>) = rank s"
  by (simp_all add: rank_def fun_eq_iff)

lemma users_upd [simp]:
  "users (s\<lparr>h_bsp := b\<rparr>) = users s" "users (s\<lparr>h_state := t\<rparr>) = users s"
  "users (s\<lparr>h_ready := r\<rparr>) = users s" "users (s\<lparr>h_aps := a\<rparr>) = users s"
  "length p = length (h_presence s) \<Longrightarrow> users (s\<lparr>h_presence := p\<rparr>) = users s"
  by (simp_all add: users_def)

lemma users_goto:
  assumes "i \<in> cells s" "\<not> in_user (h_ap s i)"
  shows "users (goto i pc s) = (if in_user pc then Suc (users s) else users s)"
proof -
  have "{k \<in> cells (goto i pc s). in_user (h_ap (goto i pc s) k)}
      = (if in_user pc then {i} else {}) \<union> {k \<in> cells s. in_user (h_ap s k)}"
    using assms by (auto simp: goto_def split: if_splits)
  then show ?thesis using assms by (simp add: users_def)
qed

lemma goto_simps [simp]: "h_presence (goto i pc s) = h_presence s" "h_state (goto i pc s) = h_state s"
  "h_ready (goto i pc s) = h_ready s" "h_aps (goto i pc s) = h_aps s" "h_bsp (goto i pc s) = h_bsp s"
  "h_ap (goto i pc s) = (h_ap s)(i := pc)"
  by (simp_all add: goto_def)

lemma enumerate_step_simps:
  "h_presence (enumerate_step i n s) = (h_presence s)[i := if h_presence s ! i \<noteq> 0 then n + 1 else h_presence s ! i]"
  "h_bsp (enumerate_step i n s) = Enumerating (Suc i) (if h_presence s ! i \<noteq> 0 then n + 1 else n)"
  "h_state (enumerate_step i n s) = h_state s" "h_ready (enumerate_step i n s) = h_ready s"
  "h_aps (enumerate_step i n s) = h_aps s" "h_ap (enumerate_step i n s) = h_ap s"
  "rank (enumerate_step i n s) = rank s" "users (enumerate_step i n s) = users s"
  by (simp_all add: enumerate_step_def enumerate_cell_def)

lemmas ap_defs = ap_ok_def cell_value_def posted_def

lemma inv_parts:
  assumes "handshake_inv s"
  shows "length (h_presence s) \<le> 256" "bsp_ok s" "h_ready s = of_nat (users s)"
    and "i \<in> cells s \<Longrightarrow> ap_ok s i"
  using assms by (simp_all add: handshake_inv_def)

subsection \<open>Preservation\<close>

text \<open>Moving an AP between two states in both of which it is marked, or in both of which it is not.\<close>

lemma inv_goto:
  assumes inv: "handshake_inv s" and i: "i \<in> cells s" and same: "up pc = up (h_ap s i)"
    and notuser: "\<not> in_user (h_ap s i)" "\<not> in_user pc" and ok: "pc_ok (h_bsp s) (h_presence s ! i) pc"
  shows "handshake_inv (goto i pc s)"
proof -
  have "ap_ok (goto i pc s) j" if "j \<in> cells s" for j
  proof -
    have c: "cell_value (goto i pc s) j = cell_value s j" using same by (auto simp: cell_value_def)
    show ?thesis using inv_parts(4) [OF inv that] ok by (auto simp: ap_ok_def c)
  qed
  moreover have "bsp_ok (goto i pc s)"
    using inv_parts(2) [OF inv] same by (simp add: bsp_ok_def)
  ultimately show ?thesis using inv users_goto [OF i notuser(1)] notuser(2) by (simp add: handshake_inv_def)
qed

lemma inv_count:
  assumes inv: "handshake_inv s" and i: "i \<in> cells s" and pc: "h_ap s i = Have_Id k" and nl: "h_bsp s \<noteq> Left_Run"
  shows "handshake_inv (goto i (In_User k) (s\<lparr>h_ready := h_ready s + 1\<rparr>))"
proof -
  let ?t = "goto i (In_User k) (s\<lparr>h_ready := h_ready s + 1\<rparr>)"
  have r: "rank ?t = rank s" using pc by simp
  have "ap_ok ?t j" if "j \<in> cells s" for j
    using inv_parts(4) [OF inv that] inv_parts(4) [OF inv i] pc r by (auto simp: ap_defs simp del: rank_goto)
  moreover have "bsp_ok ?t"
    using inv_parts(2) [OF inv] nl r by (cases "h_bsp s") (simp_all add: bsp_ok_def posted_def)
  moreover have "users ?t = Suc (users s)"
    using users_goto [of i "s\<lparr>h_ready := h_ready s + 1\<rparr>" "In_User k"] i pc by simp
  ultimately show ?thesis using inv by (simp add: handshake_inv_def add.commute)
qed

lemma inv_mark:
  assumes inv: "handshake_inv s" and i: "i \<in> cells s" and pc: "h_ap s i = Marking"
  shows "handshake_inv (goto i Spinning (s\<lparr>h_presence := (h_presence s)[i := 1]\<rparr>))"
proof -
  let ?s = "s\<lparr>h_presence := (h_presence s)[i := 1]\<rparr>"
  have T: "h_bsp s = Timeout" using inv_parts(4) [OF inv i] pc by (simp add: ap_ok_def)
  have "ap_ok (goto i Spinning ?s) j" if "j \<in> cells s" for j
    using inv_parts(4) [OF inv that] that pc T i by (auto simp: ap_defs nth_list_update)
  moreover have "bsp_ok (goto i Spinning ?s)"
    using inv_parts(2) [OF inv] T by (simp add: bsp_ok_def)
  moreover have "users (goto i Spinning ?s) = users s"
    using users_goto [of i ?s Spinning] i pc by simp
  ultimately show ?thesis using inv by (simp add: handshake_inv_def)
qed

lemma inv_time_out:
  assumes inv: "handshake_inv s" and T: "h_bsp s = Timeout" and m: "\<forall>i \<in> cells s. h_ap s i \<noteq> Marking"
  shows "handshake_inv (s\<lparr>h_bsp := Enumerating 1 0\<rparr>)"
proof -
  let ?t = "s\<lparr>h_bsp := Enumerating 1 0\<rparr>"
  have "ap_ok ?t j" if "j \<in> cells s" for j
    using inv_parts(4) [OF inv that] m that T by (cases "h_ap s j") (auto simp: ap_defs)
  moreover have "bsp_ok ?t" using inv_parts(2) [OF inv] T by (simp add: bsp_ok_def posted_def)
  ultimately show ?thesis using inv by (simp add: handshake_inv_def)
qed

lemma inv_enumerate:
  assumes inv: "handshake_inv s" and E: "h_bsp s = Enumerating i n" and i: "i < length (h_presence s)"
  shows "handshake_inv (enumerate_step i n s)"
proof -
  have b: "1 \<le> i" "n = of_nat (rank s (i - 1))" using inv_parts(2) [OF inv] E by (simp_all add: bsp_ok_def)
  then have rk: "rank s i = (if up (h_ap s i) then Suc (rank s (i - 1)) else rank s (i - 1))"
    using rank_Suc [of s "i - 1"] by simp
  have ci: "i \<in> cells s" using b i by simp
  have c0: "h_presence s ! i \<noteq> 0 \<longleftrightarrow> up (h_ap s i)"
    using inv_parts(4) [OF inv ci] E by (simp add: ap_defs)
  have "ap_ok (enumerate_step i n s) j" if "j \<in> cells s" for j
  proof (cases "j = i")
    case True
    then show ?thesis using inv_parts(4) [OF inv ci] E i b rk c0
      by (cases "h_ap s i") (auto simp: ap_defs enumerate_step_simps)
  next
    case False
    then show ?thesis using inv_parts(4) [OF inv that] E
      by (cases "h_ap s j") (auto simp: ap_defs enumerate_step_simps less_Suc_eq)
  qed
  moreover have "bsp_ok (enumerate_step i n s)"
    using inv_parts(2) [OF inv] E i b c0 rk by (auto simp: bsp_ok_def posted_def enumerate_step_simps)
  ultimately show ?thesis using inv by (simp add: handshake_inv_def enumerate_step_simps)
qed

lemma inv_enumerated:
  assumes inv: "handshake_inv s" and E: "h_bsp s = Enumerating i n" and i: "\<not> i < length (h_presence s)"
  shows "handshake_inv (s\<lparr>h_aps := ucast n, h_bsp := Enumerated\<rparr>)"
proof -
  let ?N = "length (h_presence s)" and ?t = "s\<lparr>h_aps := ucast n, h_bsp := Enumerated\<rparr>"
  have b: "1 \<le> i" "i \<le> max 1 ?N" "n = of_nat (rank s (i - 1))" using inv_parts(2) [OF inv] E by (simp_all add: bsp_ok_def)
  have j: "i - 1 = ?N - 1" using b i by auto
  have "rank s (?N - 1) < 256" using rank_le [of s "?N - 1"] inv_parts(1) [OF inv] by linarith
  then have "ucast n = (of_nat (rank s (?N - 1)) :: u32)"
    using b(3) j by (simp add: word_unat_eq_iff unsigned_ucast_eq unsigned_of_nat take_bit_nat_eq_self)
  then have "bsp_ok ?t" using inv_parts(2) [OF inv] E by (simp add: bsp_ok_def posted_def)
  moreover have "ap_ok ?t j" if "j \<in> cells s" for j
    using inv_parts(4) [OF inv that] E i that by (cases "h_ap s j") (auto simp: ap_defs)
  ultimately show ?thesis using inv by (simp add: handshake_inv_def)
qed

lemma inv_post:
  assumes inv: "handshake_inv s" and E: "h_bsp s = Enumerated"
  shows "handshake_inv (s\<lparr>h_state := MP_BOOTSTRAP_STATE_APS_ENUMERATED, h_bsp := Waiting\<rparr>)"
proof -
  let ?t = "s\<lparr>h_state := MP_BOOTSTRAP_STATE_APS_ENUMERATED, h_bsp := Waiting\<rparr>"
  have "ap_ok ?t j" if "j \<in> cells s" for j
    using inv_parts(4) [OF inv that] E by (cases "h_ap s j") (auto simp: ap_defs)
  moreover have "bsp_ok ?t" using inv_parts(2) [OF inv] E by (simp add: bsp_ok_def posted_def)
  ultimately show ?thesis using inv by (simp add: handshake_inv_def)
qed

lemma inv_all_ready:
  assumes inv: "handshake_inv s" and W: "h_bsp s = Waiting" "h_ready s = h_aps s"
  shows "handshake_inv (s\<lparr>h_bsp := Left_Run\<rparr>)"
proof -
  let ?t = "s\<lparr>h_bsp := Left_Run\<rparr>"
  have "ap_ok ?t j" if "j \<in> cells s" for j
    using inv_parts(4) [OF inv that] W by (cases "h_ap s j") (auto simp: ap_defs)
  moreover have "bsp_ok ?t" using inv_parts(2) [OF inv] W by (simp add: bsp_ok_def posted_def)
  ultimately show ?thesis using inv by (simp add: handshake_inv_def)
qed

text \<open>Once the boot processor has left, every marked AP is in the user's function, so none counts itself any more.\<close>

lemma marked_set: "{k \<in> {1..length (h_presence s) - 1}. up (h_ap s k)} = {i \<in> cells s. up (h_ap s i)}"
  by auto

lemma all_ready_users:
  assumes inv: "handshake_inv s" and r: "h_ready s = h_aps s" and b: "posted (h_bsp s)" and i: "i \<in> cells s" "up (h_ap s i)"
  shows "in_user (h_ap s i)"
proof -
  let ?N = "length (h_presence s)" and ?U = "{i \<in> cells s. in_user (h_ap s i)}" and ?M = "{i \<in> cells s. up (h_ap s i)}"
  have sub: "?U \<subseteq> ?M" by (auto simp: in_user_def)
  have le: "rank s (?N - 1) \<le> 255" using rank_le [of s "?N - 1"] inv_parts(1) [OF inv] by linarith
  have cM: "card ?M = rank s (?N - 1)" by (simp only: rank_def marked_set)
  then have "card ?U \<le> 255" using card_mono [OF _ sub] le by simp
  moreover have "(of_nat (card ?U) :: u32) = of_nat (card ?M)"
    using inv_parts(2,3) [OF inv] r b cM by (auto simp: bsp_ok_def posted_def users_def)
  ultimately have "card ?U = card ?M" using le cM
    by (simp add: word_unat_eq_iff unsigned_of_nat take_bit_nat_eq_self)
  then have "?U = ?M" using sub by (intro card_subset_eq) simp_all
  then show ?thesis using i by blast
qed

lemma handshake_inv_step:
  assumes inv: "handshake_inv s" and st: "step False s t"
  shows "handshake_inv t"
  using st
proof cases
  case (wake i)
  then show ?thesis using inv by (auto intro!: inv_goto)
next
  case (release i)
  then show ?thesis using inv inv_parts(2) [OF inv] by (auto intro!: inv_goto simp: bsp_ok_def)
next
  case (fetch i)
  then show ?thesis using inv inv_parts(4) [OF inv fetch(2)] by (auto intro!: inv_goto simp: ap_ok_def)
next
  case (count i k)
  have "\<not> in_user (h_ap s i)" "up (h_ap s i)" using count by simp_all
  then have "h_bsp s \<noteq> Left_Run"
    using all_ready_users [OF inv _ _ count(2)] inv_parts(2) [OF inv] by (auto simp: bsp_ok_def posted_def)
  then show ?thesis using inv_count [OF inv] count by blast
qed (use inv in \<open>auto intro: inv_mark inv_time_out [unfolded One_nat_def] inv_enumerate inv_enumerated inv_post inv_all_ready\<close>)

subsection \<open>Progress\<close>

text \<open>Every processor has a bounded number of steps ahead of it.\<close>

fun ap_ahead :: "ap_pc \<Rightarrow> nat" where
  "ap_ahead Asleep = 5"
| "ap_ahead Marking = 4"
| "ap_ahead Spinning = 3"
| "ap_ahead Released = 2"
| "ap_ahead (Have_Id _) = 1"
| "ap_ahead (In_User _) = 0"

fun bsp_ahead :: "nat \<Rightarrow> bsp_pc \<Rightarrow> nat" where
  "bsp_ahead n Timeout = n + 4"
| "bsp_ahead n (Enumerating i _) = n - i + 3"
| "bsp_ahead n Enumerated = 2"
| "bsp_ahead n Waiting = 1"
| "bsp_ahead n Left_Run = 0"

definition ahead :: "handshake \<Rightarrow> nat" where
  "ahead s = (\<Sum>i \<in> cells s. ap_ahead (h_ap s i)) + bsp_ahead (length (h_presence s)) (h_bsp s)"

lemma ahead_goto:
  assumes i: "i \<in> cells s" and pc: "ap_ahead pc < ap_ahead (h_ap s i)"
  shows "ahead (goto i pc s) < ahead s"
proof -
  have "(\<Sum>k \<in> cells s. ap_ahead (((h_ap s)(i := pc)) k)) < (\<Sum>k \<in> cells s. ap_ahead (h_ap s k))"
  proof (rule sum_strict_mono_ex1)
    show "\<exists>k \<in> cells s. ap_ahead (((h_ap s)(i := pc)) k) < ap_ahead (h_ap s k)"
      using i pc by (intro bexI [of _ i]) simp_all
  qed (use pc in auto)
  then show ?thesis by (simp add: ahead_def del: fun_upd_apply)
qed

lemma ahead_upd [simp]: "ahead (s\<lparr>h_ready := r\<rparr>) = ahead s"
  "length p = length (h_presence s) \<Longrightarrow> ahead (s\<lparr>h_presence := p\<rparr>) = ahead s"
  by (simp_all add: ahead_def)

lemma ahead_step:
  assumes "step late s t"
  shows "ahead t < ahead s"
  using assms
proof cases
  case (wake i)
  then show ?thesis using ahead_goto [of i s Marking] by simp
next
  case (mark i)
  then show ?thesis using ahead_goto [of i "s\<lparr>h_presence := (h_presence s)[i := 1]\<rparr>" Spinning] by simp
next
  case (release i)
  then show ?thesis using ahead_goto [of i s Released] by simp
next
  case (fetch i)
  then show ?thesis using ahead_goto [of i s "Have_Id (h_presence s ! i)"] by simp
next
  case (count i k)
  then show ?thesis using ahead_goto [of i "s\<lparr>h_ready := h_ready s + 1\<rparr>" "In_User k"] by simp
qed (auto simp: ahead_def enumerate_step_simps)

text \<open>Finished: the BSP has left and every marked AP is in the user's function.\<close>

definition finished :: "handshake \<Rightarrow> bool" where
  "finished s \<longleftrightarrow> h_bsp s = Left_Run \<and> (\<forall>i \<in> cells s. up (h_ap s i) \<longrightarrow> in_user (h_ap s i))"

lemma not_stuck_ap:
  assumes inv: "handshake_inv s" and b: "posted (h_bsp s)" and i: "i \<in> cells s" "up (h_ap s i)" "\<not> in_user (h_ap s i)"
  shows "\<exists>t. step late s t"
proof (cases "h_ap s i")
  case Spinning
  then show ?thesis using release [OF i(1)] inv_parts(2) [OF inv] b by (auto simp: bsp_ok_def)
qed (use i fetch [OF i(1)] count [OF i(1)] in auto)

lemma handshake_not_stuck:
  assumes inv: "handshake_inv s" and nf: "\<not> finished s"
  shows "\<exists>t. step False s t"
proof (cases "h_bsp s")
  case Timeout
  show ?thesis
  proof (cases "\<exists>i \<in> cells s. h_ap s i = Marking")
    case True
    then show ?thesis using mark by blast
  qed (use Timeout time_out in blast)
next
  case (Enumerating i n)
  then show ?thesis using enumerate enumerated by (cases "i < length (h_presence s)") blast+
next
  case Enumerated
  then show ?thesis using post by blast
next
  case Waiting
  show ?thesis
  proof (cases "h_ready s = h_aps s")
    case True
    then show ?thesis using all_ready Waiting by blast
  next
    case False
    have "users s \<noteq> rank s (length (h_presence s) - 1)"
      using False inv_parts(2,3) [OF inv] Waiting by (auto simp: bsp_ok_def)
    then have "{i \<in> cells s. in_user (h_ap s i)} \<noteq> {i \<in> cells s. up (h_ap s i)}"
      unfolding users_def rank_def marked_set by metis
    moreover have "{i \<in> cells s. in_user (h_ap s i)} \<subseteq> {i \<in> cells s. up (h_ap s i)}" by (auto simp: in_user_def)
    ultimately obtain i where "i \<in> cells s" "up (h_ap s i)" "\<not> in_user (h_ap s i)" by blast
    then show ?thesis using not_stuck_ap [OF inv] Waiting by (simp add: posted_def)
  qed
next
  case Left_Run
  then show ?thesis using nf not_stuck_ap [OF inv] by (auto simp: finished_def posted_def)
qed

lemma handshake_inv_start: "n \<le> 256 \<Longrightarrow> handshake_inv (h_start n)"
  by (simp add: handshake_inv_def h_start_def ap_defs bsp_ok_def users_def)

interpretation hs: progress "\<lambda>s. \<exists>n \<le> 256. s = h_start n" "step False" handshake_inv ahead finished
  by unfold_locales (auto intro: handshake_inv_start handshake_inv_step ahead_step handshake_not_stuck)

section \<open>Runs of one processor\<close>

lemma enumerate_runs:
  "h_bsp s = Enumerating i n \<Longrightarrow> i \<le> length (h_presence s) \<Longrightarrow> enumerate_loop n (drop i (h_presence s)) = (k, cs) \<Longrightarrow>
   (step late)\<^sup>*\<^sup>* s (s\<lparr>h_presence := take i (h_presence s) @ cs, h_aps := ucast k, h_bsp := Enumerated\<rparr>)"
proof (induction "length (h_presence s) - i" arbitrary: s i n k cs)
  case 0
  then show ?case using enumerated [of s i n late] by auto
next
  case (Suc d)
  let ?p = "h_presence s" and ?t = "enumerate_step i n s"
  have i: "i < length ?p" using Suc by simp
  obtain n1 c where c: "enumerate_cell n (?p ! i) = (n1, c)" by fastforce
  obtain cs1 where cs1: "enumerate_loop n1 (drop (Suc i) ?p) = (k, cs1)" "cs = c # cs1"
    using Suc.prems(3) c Cons_nth_drop_Suc [OF i, symmetric] by (auto split: prod.splits)
  have t: "?t = s\<lparr>h_presence := ?p[i := c], h_bsp := Enumerating (Suc i) n1\<rparr>" using c by (simp add: enumerate_step_def)
  have "(step late)\<^sup>*\<^sup>* ?t (?t\<lparr>h_presence := take (Suc i) (h_presence ?t) @ cs1, h_aps := ucast k, h_bsp := Enumerated\<rparr>)"
    by (rule Suc.hyps(1) [where n = n1]) (use Suc.hyps(2) i cs1 in \<open>simp_all add: t\<close>)
  also have "?t\<lparr>h_presence := take (Suc i) (h_presence ?t) @ cs1, h_aps := ucast k, h_bsp := Enumerated\<rparr>
      = s\<lparr>h_presence := take i ?p @ cs, h_aps := ucast k, h_bsp := Enumerated\<rparr>"
    using i cs1(2) by (simp add: t take_Suc_conv_app_nth)
  finally show ?case using enumerate [OF Suc.prems(1) i] by (meson converse_rtranclp_into_rtranclp)
qed

lemma enumeration_run:
  assumes "h_bsp s = Timeout" "late \<or> (\<forall>i \<in> cells s. h_ap s i \<noteq> Marking)" "h_presence s \<noteq> []"
    and e: "bsp_enumerate_aps (h_presence s) = (k, arr)"
  shows "(step late)\<^sup>*\<^sup>* s (s\<lparr>h_presence := arr, h_aps := ucast k, h_bsp := Enumerated\<rparr>)"
proof -
  let ?s = "s\<lparr>h_bsp := Enumerating 1 0\<rparr>"
  obtain c0 cs where p: "h_presence s = c0 # cs" using assms(3) by (cases "h_presence s") auto
  obtain cs' where cs': "enumerate_loop 0 cs = (k, cs')" "arr = c0 # cs'"
    using e p by (auto simp: bsp_enumerate_aps_def split: prod.splits)
  have "(step late)\<^sup>*\<^sup>* ?s (?s\<lparr>h_presence := take 1 (h_presence ?s) @ cs', h_aps := ucast k, h_bsp := Enumerated\<rparr>)"
    by (rule enumerate_runs [where n = 0]) (simp_all add: p cs')
  then have "(step late)\<^sup>*\<^sup>* ?s (s\<lparr>h_presence := arr, h_aps := ucast k, h_bsp := Enumerated\<rparr>)" using p cs' by simp
  moreover have "step late s ?s" using time_out [of s late] assms(1,2) by simp
  ultimately show ?thesis by (rule converse_rtranclp_into_rtranclp [rotated])
qed


lemma run_ap:
  assumes "i \<in> cells s" "h_ap s i = Spinning" "h_state s = MP_BOOTSTRAP_STATE_APS_ENUMERATED"
  shows "(step late)\<^sup>*\<^sup>* s (goto i (In_User (h_presence s ! i)) (s\<lparr>h_ready := h_ready s + 1\<rparr>))"
proof -
  let ?s1 = "goto i Released s" and ?s2 = "goto i (Have_Id (h_presence s ! i)) s"
  have "step late s ?s1" using release assms by blast
  moreover have "step late ?s1 ?s2" using fetch [of i ?s1 late] assms by (simp add: goto_def)
  moreover have "step late ?s2 (goto i (In_User (h_presence s ! i)) (s\<lparr>h_ready := h_ready s + 1\<rparr>))"
    using count [of i ?s2 "h_presence s ! i" late] assms by (simp add: goto_def)
  ultimately show ?thesis by (meson converse_rtranclp_into_rtranclp r_into_rtranclp)
qed

lemma run_mark:
  assumes "i \<in> cells s" "h_ap s i = Asleep" "late \<or> h_bsp s = Timeout"
  shows "(step late)\<^sup>*\<^sup>* s (goto i Spinning (s\<lparr>h_presence := (h_presence s)[i := 1]\<rparr>))"
proof -
  have "step late s (goto i Marking s)" using wake assms by blast
  moreover have "step late (goto i Marking s) (goto i Spinning (s\<lparr>h_presence := (h_presence s)[i := 1]\<rparr>))"
    using mark [of i "goto i Marking s" late] assms by (simp add: goto_def)
  ultimately show ?thesis by (meson converse_rtranclp_into_rtranclp r_into_rtranclp)
qed

text \<open>The numbers that APs have read from their cells.\<close>

lemma ap_ids_distinct:
  assumes "n \<le> 256" "(step False)\<^sup>*\<^sup>* (h_start n) s" and i: "i \<in> cells s" "j \<in> cells s" "i \<noteq> j"
    and k: "h_ap s i = Have_Id k \<or> h_ap s i = In_User k" and l: "h_ap s j = Have_Id l \<or> h_ap s j = In_User l"
  shows "k \<noteq> l \<and> 1 \<le> unat k \<and> unat k \<le> unat (h_aps s)"
proof -
  let ?N = "length (h_presence s)"
  have inv: "handshake_inv s" using hs.inv_reachable assms(1,2) by blast
  have id: "unat k = rank s i \<and> posted (h_bsp s) \<and> 1 \<le> unat k"
    if "i \<in> cells s" "h_ap s i = Have_Id k \<or> h_ap s i = In_User k" for i k
  proof -
    have p: "posted (h_bsp s)" "k = h_presence s ! i" "up (h_ap s i)"
      using inv_parts(4) [OF inv that(1)] that(2) by (auto simp: ap_ok_def)
    then have "k = of_nat (rank s i)"
      using inv_parts(4) [OF inv that(1)] that(1) by (auto simp: ap_ok_def cell_value_def posted_def)
    moreover have "rank s i < 256" "1 \<le> rank s i"
      using rank_le [of s i] inv_parts(1) [OF inv] that(1) rank_less [of 0 i s] p(3) by auto
    ultimately show ?thesis using p(1) by (simp add: unsigned_of_nat take_bit_nat_eq_self)
  qed
  note ik = id [OF i(1) k] and jl = id [OF i(2) l]
  have "rank s i \<noteq> rank s j"
    using rank_less [of i j s] rank_less [of j i s] i(3) k l by (cases i j rule: linorder_cases) auto
  moreover have "rank s i \<le> rank s (?N - 1)" using i(1) by (intro rank_mono) auto
  moreover have "unat (h_aps s) = rank s (?N - 1)"
    using inv_parts(2) [OF inv] ik rank_le [of s "?N - 1"] inv_parts(1) [OF inv]
    by (auto simp: bsp_ok_def posted_def unsigned_of_nat take_bit_nat_eq_self)
  ultimately show ?thesis using ik jl by auto
qed

section \<open>Properties\<close>

text \<open>
  C4. Stacks: while the time-out of the boot processor suffices, at every moment of every interleaving the numbers that two
  APs have read from their cells differ, and lie between 1 and the number of APs that the boot processor has counted. As
  AP \<open>k\<close> takes the stack \<^verbatim>\<open>i32_esp[k - 1]\<close>, no two APs share one.
\<close>

theorem handshake_distinct_ids:
  assumes "n \<le> 256" "(step False)\<^sup>*\<^sup>* (h_start n) s" and i: "i \<in> cells s" "j \<in> cells s" "i \<noteq> j"
    and k: "h_ap s i = Have_Id k \<or> h_ap s i = In_User k" and l: "h_ap s j = Have_Id l \<or> h_ap s j = In_User l"
  shows "k \<noteq> l \<and> 1 \<le> unat k \<and> unat k \<le> unat (h_aps s)"
  by (rule ap_ids_distinct [OF assms])

text \<open>
  C18. When no AP is late and the boot processor leaves \<^verbatim>\<open>ap_procs_run\<close>, every AP that has marked its cell runs the user's function, and
  the two counters agree on their number.
\<close>

theorem handshake_all_run:
  assumes "n \<le> 256" "(step False)\<^sup>*\<^sup>* (h_start n) s" and "h_bsp s = Left_Run"
  shows "{i \<in> cells s. in_user (h_ap s i)} = {i \<in> cells s. up (h_ap s i)}
    \<and> h_ready s = h_aps s \<and> unat (h_aps s) = card {i \<in> cells s. up (h_ap s i)}"
proof -
  let ?N = "length (h_presence s)"
  have inv: "handshake_inv s" using hs.inv_reachable assms(1,2) by blast
  have c: "h_ready s = h_aps s" "h_aps s = of_nat (rank s (?N - 1))"
    using inv_parts(2) [OF inv] assms(3) by (simp_all add: bsp_ok_def)
  have "in_user (h_ap s i)" if "i \<in> cells s" "up (h_ap s i)" for i
    using all_ready_users [OF inv c(1) _ that] assms(3) by (simp add: posted_def)
  moreover have "up pc" if "in_user pc" for pc using that by (auto simp: in_user_def)
  moreover have "rank s (?N - 1) = card {i \<in> cells s. up (h_ap s i)}" by (simp only: rank_def marked_set)
  moreover have "unat (h_aps s) = rank s (?N - 1)"
    using c(2) rank_le [of s "?N - 1"] inv_parts(1) [OF inv] by (simp add: unsigned_of_nat take_bit_nat_eq_self)
  ultimately show ?thesis using c(1) by auto
qed

text \<open>
  C10. The hand-shake cannot hang: while the time-out suffices, a run has at most \<open>6 * n + 4\<close> steps for an array of \<open>n\<close> cells,
  a state in which no processor can move is the final one, with the boot processor out of \<^verbatim>\<open>ap_procs_run\<close> and every marked AP
  in the user's function, and from every state that can be reached this final state can be reached.
\<close>

theorem handshake_finishes:
  assumes "n \<le> 256" "(step False ^^ k) (h_start n) s"
  shows "k \<le> 6 * n + 4 \<and> ((\<nexists>t. step False s t) \<longrightarrow> finished s) \<and> (\<exists>t. (step False)\<^sup>*\<^sup>* s t \<and> finished t)"
proof -
  have start: "handshake_inv (h_start n)" using assms(1) by (rule handshake_inv_start)
  then have inv: "handshake_inv s" using hs.inv_steps assms(2) by (metis relpowp_imp_rtranclp)
  have "ahead (h_start n) \<le> 6 * n + 4" by (simp add: ahead_def h_start_def)
  moreover have "k + ahead s \<le> ahead (h_start n)" using hs.run_bound assms(2) start by blast
  ultimately show ?thesis using hs.can_finish [OF inv] handshake_not_stuck [OF inv] by auto
qed

text \<open>
  The enumeration of the interleaved model is the sequential \<^verbatim>\<open>bsp_enumerate_aps\<close>: from any state in which the
  time-out may end, the boot processor's own steps lead to the state in which the array and the counter hold the result of
  the function on the array.
\<close>

theorem handshake_enumeration:
  assumes "h_bsp s = Timeout" "\<forall>i \<in> cells s. h_ap s i \<noteq> Marking" "h_presence s \<noteq> []"
    and "bsp_enumerate_aps (h_presence s) = (k, arr)"
  shows "(step late)\<^sup>*\<^sup>* s (s\<lparr>h_presence := arr, h_aps := ucast k, h_bsp := Enumerated\<rparr>)"
  using enumeration_run assms by blast

section \<open>Example runs\<close>

text \<open>States with three cells, by the array, the state variable, the counters and the positions of AP 1, AP 2 and the BSP.\<close>

definition pcs :: "ap_pc \<Rightarrow> ap_pc \<Rightarrow> nat \<Rightarrow> ap_pc" where
  "pcs a b i = (if i = 1 then a else if i = 2 then b else Asleep)"

definition three :: "u8 list \<Rightarrow> mp_bootstrap_state \<Rightarrow> u32 \<Rightarrow> u32 \<Rightarrow> ap_pc \<Rightarrow> ap_pc \<Rightarrow> bsp_pc \<Rightarrow> handshake" where
  "three p st r c a b d = \<lparr>h_presence = p, h_state = st, h_ready = r, h_aps = c, h_ap = pcs a b, h_bsp = d\<rparr>"

lemma pcs_simps [simp]: "pcs a b (Suc 0) = a" "pcs a b 2 = b" "(pcs a b)(Suc 0 := c) = pcs c b" "(pcs a b)(2 := c) = pcs a c"
  by (simp_all add: pcs_def fun_eq_iff)

lemma three_start: "h_start 3 = three [0, 0, 0] MP_BOOTSTRAP_STATE_INIT 0 0 Asleep Asleep Timeout"
  by (simp add: h_start_def three_def numeral_3_eq_3 pcs_def fun_eq_iff)

lemmas three_sel = three_def goto_def enumerate_step_def enumerate_cell_def

text \<open>Both APs mark their cells in time.\<close>

abbreviation "INIT \<equiv> MP_BOOTSTRAP_STATE_INIT"
abbreviation "ENUM \<equiv> MP_BOOTSTRAP_STATE_APS_ENUMERATED"

lemma both_in_time: "(step False)\<^sup>*\<^sup>* (h_start 3) (three [0, 1, 2] ENUM 2 2 (In_User 1) (In_User 2) Left_Run)"
proof -
  have "(step False)\<^sup>*\<^sup>* (h_start 3) (three [0, 1, 0] INIT 0 0 Spinning Asleep Timeout)"
    using run_mark [of 1 "h_start 3" False] by (simp add: three_start three_sel)
  also have "(step False)\<^sup>*\<^sup>* \<dots> (three [0, 1, 1] INIT 0 0 Spinning Spinning Timeout)"
    using run_mark [of 2 "three [0, 1, 0] INIT 0 0 Spinning Asleep Timeout" False] by (simp add: three_sel)
  also have "(step False)\<^sup>*\<^sup>* \<dots> (three [0, 1, 2] INIT 0 2 Spinning Spinning Enumerated)"
    using enumeration_run [of "three [0, 1, 1] INIT 0 0 Spinning Spinning Timeout" False 2 "[0, 1, 2]"]
    by (simp add: three_sel pcs_def bsp_enumerate_aps_def)
  also have "(step False)\<^sup>*\<^sup>* \<dots> (three [0, 1, 2] ENUM 0 2 Spinning Spinning Waiting)"
    using post [of "three [0, 1, 2] INIT 0 2 Spinning Spinning Enumerated" False] by (simp add: three_sel r_into_rtranclp)
  also have "(step False)\<^sup>*\<^sup>* \<dots> (three [0, 1, 2] ENUM 1 2 (In_User 1) Spinning Waiting)"
    using run_ap [of 1 "three [0, 1, 2] ENUM 0 2 Spinning Spinning Waiting" False] by (simp add: three_sel)
  also have "(step False)\<^sup>*\<^sup>* \<dots> (three [0, 1, 2] ENUM 2 2 (In_User 1) (In_User 2) Waiting)"
    using run_ap [of 2 "three [0, 1, 2] ENUM 1 2 (In_User 1) Spinning Waiting" False] by (simp add: three_sel)
  also have "(step False)\<^sup>*\<^sup>* \<dots> (three [0, 1, 2] ENUM 2 2 (In_User 1) (In_User 2) Left_Run)"
    using all_ready [of "three [0, 1, 2] ENUM 2 2 (In_User 1) (In_User 2) Waiting" False] by (simp add: three_sel r_into_rtranclp)
  finally show ?thesis .
qed

text \<open>
  C32. The time-out is no more than a hope: when AP 2 starts after it has ended, the code can reach a state in which both APs
  run with the number 1, hence on the same stack, and the boot processor waits for ever because \<^verbatim>\<open>g_ready_counter\<close> has passed
  \<^verbatim>\<open>g_aps_counter\<close>.
\<close>

theorem late_ap_race:
  "\<exists>s. (step True)\<^sup>*\<^sup>* (h_start 3) s \<and> h_ap s 1 = In_User 1 \<and> h_ap s 2 = In_User 1 \<and> h_bsp s = Waiting
     \<and> h_aps s = 1 \<and> h_ready s = 2 \<and> (\<nexists>t. step True s t)"
proof -
  let ?s = "three [0, 1, 1] ENUM 2 1 (In_User 1) (In_User 1) Waiting"
  have "(step True)\<^sup>*\<^sup>* (h_start 3) (three [0, 1, 0] INIT 0 0 Spinning Asleep Timeout)"
    using run_mark [of 1 "h_start 3" True] by (simp add: three_start three_sel)
  also have "(step True)\<^sup>*\<^sup>* \<dots> (three [0, 1, 0] INIT 0 1 Spinning Asleep Enumerated)"
    using enumeration_run [of "three [0, 1, 0] INIT 0 0 Spinning Asleep Timeout" True 1 "[0, 1, 0]"]
    by (simp add: three_sel bsp_enumerate_aps_def)
  also have "(step True)\<^sup>*\<^sup>* \<dots> (three [0, 1, 1] INIT 0 1 Spinning Spinning Enumerated)"
    using run_mark [of 2 "three [0, 1, 0] INIT 0 1 Spinning Asleep Enumerated" True] by (simp add: three_sel)
  also have "(step True)\<^sup>*\<^sup>* \<dots> (three [0, 1, 1] ENUM 0 1 Spinning Spinning Waiting)"
    using post [of "three [0, 1, 1] INIT 0 1 Spinning Spinning Enumerated" True] by (simp add: three_sel r_into_rtranclp)
  also have "(step True)\<^sup>*\<^sup>* \<dots> (three [0, 1, 1] ENUM 1 1 (In_User 1) Spinning Waiting)"
    using run_ap [of 1 "three [0, 1, 1] ENUM 0 1 Spinning Spinning Waiting" True] by (simp add: three_sel)
  also have "(step True)\<^sup>*\<^sup>* \<dots> ?s"
    using run_ap [of 2 "three [0, 1, 1] ENUM 1 1 (In_User 1) Spinning Waiting" True] by (simp add: three_sel)
  finally have "(step True)\<^sup>*\<^sup>* (h_start 3) ?s" .
  moreover have "\<nexists>t. step True ?s t"
  proof
    assume "\<exists>t. step True ?s t"
    then obtain t where "step True ?s t" by blast
    moreover have "in_user (h_ap ?s i)" if "i \<in> cells ?s" for i using that by (auto simp: three_def pcs_def)
    ultimately show False by (cases; force simp: three_def in_user_def)
  qed
  ultimately show ?thesis by (intro exI [of _ ?s]) (simp add: three_def)
qed

theorem handshake_distinct_ids_witness:
  "\<exists>s. (step False)\<^sup>*\<^sup>* (h_start 3) s \<and> h_ap s 1 = In_User 1 \<and> h_ap s 2 = In_User 2 \<and> (1 :: u8) \<noteq> 2 \<and> unat (2 :: u8) \<le> unat (h_aps s)"
  using both_in_time handshake_distinct_ids [OF _ both_in_time, of 2 1 2 1] by (auto simp: three_def)

theorem handshake_all_run_witness:
  "\<exists>s. (step False)\<^sup>*\<^sup>* (h_start 3) s \<and> h_bsp s = Left_Run \<and> unat (h_aps s) = card {i \<in> cells s. up (h_ap s i)}"
  using both_in_time handshake_all_run [OF _ both_in_time] by (auto simp: three_def)

theorem handshake_finishes_witness:
  "\<exists>k s. (step False ^^ k) (h_start 3) s \<and> h_bsp s = Left_Run \<and> k \<le> 22"
proof -
  obtain k where "(step False ^^ k) (h_start 3) (three [0, 1, 2] ENUM 2 2 (In_User 1) (In_User 2) Left_Run)"
    using rtranclp_imp_relpowp [OF both_in_time] by blast
  then show ?thesis using handshake_finishes [of 3 k] by (force simp: three_def)
qed

theorem handshake_enumeration_witness:
  "(step False)\<^sup>*\<^sup>* (three [0, 0, 1] INIT 0 0 Asleep Spinning Timeout) (three [0, 0, 1] INIT 0 1 Asleep Spinning Enumerated)"
  using handshake_enumeration [of "three [0, 0, 1] INIT 0 0 Asleep Spinning Timeout" 1 "[0, 0, 1]" False]
  by (simp add: three_sel pcs_def bsp_enumerate_aps_def)

end
