(* ===== verification/File_Access.thy ===== *)
theory File_Access
  imports Loader_Prelude
begin

text \<open>
  \<^verbatim>\<open>common/ld/image_accessors/image_access_file.c\<close>: the image accessor over a file of the C library, with a list of chunks that
  keeps every window that has been mapped.

  A stream is the contents of the file and a position; \<^verbatim>\<open>fseek\<close> takes a \<^verbatim>\<open>long\<close> and refuses a negative one, \<^verbatim>\<open>fread\<close> stops at the end of
  the file. Types are those of a 32-bit target. \<open>alloc n\<close> says whether \<^verbatim>\<open>malloc(n)\<close> succeeds; using its result when it does not is
  undefined, which is \<open>None\<close>.
\<close>

section \<open>Streams\<close>

record stream =
  f_contents :: "u8 list"
  f_pos :: nat

definition fseek_set :: "stream \<Rightarrow> u32 \<Rightarrow> bool \<times> stream" where
  "fseek_set f off = (if sint off < 0 then (False, f) else (True, f\<lparr>f_pos := unat off\<rparr>))"

definition fread :: "u32 \<Rightarrow> stream \<Rightarrow> u8 list \<times> stream" where
  "fread n f = (let d = take (unat n) (drop (f_pos f) (f_contents f)) in (d, f\<lparr>f_pos := f_pos f + length d\<rparr>))"

section \<open>The accessor\<close>

text \<open>A chunk of the list; its buffer is represented by the bytes that have been read into it.\<close>

record mem_chunk =
  chunk_offset :: u32
  chunk_length :: u32
  chunk_buffer :: "u8 list"

record file_image_access =
  fia_file :: stream
  memory_list :: "mem_chunk list"

definition sizeof_file_image_access :: u32 where "sizeof_file_image_access = 20"
definition sizeof_mem_chunk :: u32 where "sizeof_mem_chunk = 16"

text \<open>The result is undefined, a null pointer, or the accessor. The second test of the code looks at \<^verbatim>\<open>file\<close> once more.\<close>

definition file_image_create :: "(string \<Rightarrow> u8 list option) \<Rightarrow> (u32 \<Rightarrow> bool) \<Rightarrow> string \<Rightarrow> file_image_access option option" where
  "file_image_create fs alloc filename =
     (case fs filename of
        None \<Rightarrow> Some None
      | Some bs \<Rightarrow>
          if \<not> alloc sizeof_file_image_access then None
          else Some (Some \<lparr>fia_file = \<lparr>f_contents = bs, f_pos = 0\<rparr>, memory_list = []\<rparr>))"

text \<open>What closing gives back, in order: the stream, every chunk of the list, and the accessor itself.\<close>

datatype release = Fclose | Free_chunk mem_chunk | Free_fia

fun free_loop :: "mem_chunk list \<Rightarrow> release list" where
  "free_loop [] = []"
| "free_loop (chunk # chunks) = Free_chunk chunk # free_loop chunks"

definition file_image_close :: "file_image_access \<Rightarrow> release list" where
  "file_image_close fia = Fclose # free_loop (memory_list fia) @ [Free_fia]"

text \<open>The bytes that are read; \<^verbatim>\<open>file_image_read\<close> proper writes them to memory and returns their number.\<close>

definition file_bytes :: "u32 \<Rightarrow> u32 \<Rightarrow> stream \<Rightarrow> u8 list \<times> stream" where
  "file_bytes src_offset bytes f =
     (let (ok, f) = fseek_set f src_offset in if \<not> ok then ([], f) else fread bytes f)"

definition file_image_read :: "file_image_access \<Rightarrow> u32 \<Rightarrow> u32 \<Rightarrow> u32 \<Rightarrow> mem \<Rightarrow> u32 \<times> file_image_access \<times> mem" where
  "file_image_read fia dest src_offset bytes m =
     (let (d, f) = file_bytes src_offset bytes (fia_file fia)
      in (of_nat (length d), fia\<lparr>fia_file := f\<rparr>, store_bytes dest d m))"

definition find_chunk :: "u32 \<Rightarrow> u32 \<Rightarrow> mem_chunk list \<Rightarrow> mem_chunk option" where
  "find_chunk src_offset bytes cs = find (\<lambda>c. chunk_offset c = src_offset \<and> chunk_length c = bytes) cs"

text \<open>
  The count and the buffer that \<^verbatim>\<open>*dest\<close> is set to. The size of the new chunk is computed in 32 bits and wraps for a huge request;
  reading more bytes than the buffer then has room for is undefined. The buffer starts 12 bytes into the chunk.
\<close>

definition file_image_map_to_mem ::
    "(u32 \<Rightarrow> bool) \<Rightarrow> file_image_access \<Rightarrow> u32 \<Rightarrow> u32 \<Rightarrow> (u32 \<times> u8 list \<times> file_image_access) option" where
  "file_image_map_to_mem alloc fia src_offset bytes =
     (case find_chunk src_offset bytes (memory_list fia) of
        Some chunk \<Rightarrow> Some (bytes, chunk_buffer chunk, fia)
      | None \<Rightarrow>
          let bytes_to_alloc = sizeof_mem_chunk - 1 + bytes in
          if \<not> alloc bytes_to_alloc then None
          else
            let (d, f) = file_bytes src_offset bytes (fia_file fia);
                chunk = \<lparr>chunk_offset = src_offset, chunk_length = bytes, chunk_buffer = d\<rparr>
            in if unat bytes_to_alloc < 12 + length d then None
               else Some (of_nat (length d), d, fia\<lparr>fia_file := f, memory_list := chunk # memory_list fia\<rparr>))"

section \<open>Windows of the file\<close>

definition window :: "u8 list \<Rightarrow> u32 \<Rightarrow> u32 \<Rightarrow> u8 list" where
  "window bs off n = (if sint off < 0 then [] else take (unat n) (drop (unat off) bs))"

lemma file_bytes_window:
  "fst (file_bytes off n f) = window (f_contents f) off n" "f_contents (snd (file_bytes off n f)) = f_contents f"
  by (simp_all add: file_bytes_def fseek_set_def fread_def window_def Let_def)

lemma window_length: "length (window bs off n) \<le> unat n"
  by (simp add: window_def)

text \<open>Every chunk holds its window of the file, and no two chunks have the same window.\<close>

definition fia_inv :: "file_image_access \<Rightarrow> bool" where
  "fia_inv fia \<longleftrightarrow> (\<forall>c \<in> set (memory_list fia). chunk_buffer c = window (f_contents (fia_file fia)) (chunk_offset c) (chunk_length c))
     \<and> distinct (map (\<lambda>c. (chunk_offset c, chunk_length c)) (memory_list fia))"

lemma fia_inv_create: "file_image_create fs alloc name = Some (Some fia) \<Longrightarrow> fia_inv fia"
  by (auto simp: file_image_create_def fia_inv_def split: option.splits if_splits)

lemma find_chunk_None: "find_chunk off n cs = None \<longleftrightarrow> (off, n) \<notin> set (map (\<lambda>c. (chunk_offset c, chunk_length c)) cs)"
  by (auto simp: find_chunk_def find_None_iff)

lemma find_chunk_Some: "find_chunk off n cs = Some c \<Longrightarrow> c \<in> set cs \<and> chunk_offset c = off \<and> chunk_length c = n"
  by (auto simp: find_chunk_def find_Some_iff)

lemma map_to_mem_new:
  assumes "find_chunk off n (memory_list fia) = None" "file_image_map_to_mem alloc fia off n = Some (k, buf, fia')"
  shows "buf = window (f_contents (fia_file fia)) off n" "k = of_nat (length buf)"
    "memory_list fia' = \<lparr>chunk_offset = off, chunk_length = n, chunk_buffer = buf\<rparr> # memory_list fia"
    "f_contents (fia_file fia') = f_contents (fia_file fia)"
proof -
  obtain d f where d: "file_bytes off n (fia_file fia) = (d, f)" by fastforce
  then show "buf = window (f_contents (fia_file fia)) off n" "k = of_nat (length buf)"
    "memory_list fia' = \<lparr>chunk_offset = off, chunk_length = n, chunk_buffer = buf\<rparr> # memory_list fia"
    "f_contents (fia_file fia') = f_contents (fia_file fia)"
    using assms file_bytes_window [of off n "fia_file fia"]
    by (auto simp: file_image_map_to_mem_def Let_def split: if_splits)
qed

lemma free_loop_map: "free_loop cs = map Free_chunk cs"
  by (induction cs) simp_all

text \<open>Closing frees every chunk exactly once: the list of an accessor that satisfies the invariant has no repetitions.\<close>

lemma file_image_close_once: "fia_inv fia \<Longrightarrow> distinct (file_image_close fia)"
  by (auto simp: file_image_close_def free_loop_map fia_inv_def distinct_map inj_on_def)

section \<open>Properties\<close>

text \<open>
  C40. The chunk list is a faithful cache: mapping a window keeps the invariant that every chunk holds its window of the
  file and that no window occurs twice, and the buffer it returns holds the window's bytes, as many as the file has. The count it
  returns is that number for a new window, but the number of bytes asked for when the window has been mapped before.
\<close>

theorem file_image_map_cached:
  assumes inv: "fia_inv fia" and run: "file_image_map_to_mem alloc fia off n = Some (k, buf, fia')"
  shows "fia_inv fia' \<and> f_contents (fia_file fia') = f_contents (fia_file fia) \<and> buf = window (f_contents (fia_file fia)) off n
    \<and> unat k = (if find_chunk off n (memory_list fia) = None then length buf else unat n)
    \<and> find_chunk off n (memory_list fia') \<noteq> None"
proof (cases "find_chunk off n (memory_list fia)")
  case None
  note new = map_to_mem_new [OF None run]
  have "length buf < 2 ^ 32" using window_length [of "f_contents (fia_file fia)" off n] unat_bound(3) [of n] new(1) by simp
  then have "unat k = length buf" using new(2) by (simp add: unat_of_nat32)
  moreover have "fia_inv fia'"
    using inv None new find_chunk_None [of off n "memory_list fia"] by (auto simp: fia_inv_def)
  ultimately show ?thesis using None new by (simp add: find_chunk_def)
next
  case (Some c)
  with run have "k = n" "buf = chunk_buffer c" "fia' = fia" by (auto simp: file_image_map_to_mem_def)
  moreover have "chunk_buffer c = window (f_contents (fia_file fia)) off n"
    using find_chunk_Some [OF Some] inv by (auto simp: fia_inv_def)
  ultimately show ?thesis using Some inv by simp
qed

text \<open>Two bytes of the file are left in a window of five: the first call says two, the second five.\<close>

definition cached_fia :: file_image_access where
  "cached_fia = \<lparr>fia_file = \<lparr>f_contents = [1, 2, 3], f_pos = 3\<rparr>,
     memory_list = [\<lparr>chunk_offset = 1, chunk_length = 5, chunk_buffer = [2, 3]\<rparr>]\<rparr>"

lemma cached_fia_inv: "fia_inv cached_fia"
  by (simp add: fia_inv_def cached_fia_def window_def)

lemma cached_fia_again: "file_image_map_to_mem (\<lambda>_. True) cached_fia 1 5 = Some (5, [2, 3], cached_fia)"
  by (simp add: file_image_map_to_mem_def find_chunk_def cached_fia_def)

theorem file_image_map_cached_witness:
  "file_image_map_to_mem (\<lambda>_. True) (cached_fia\<lparr>memory_list := []\<rparr>) 1 5 = Some (2, [2, 3], cached_fia)
    \<and> unat (5 :: u32) = 5 \<and> [2, 3] = window (f_contents (fia_file cached_fia)) 1 5"
  using file_image_map_cached [OF cached_fia_inv cached_fia_again]
  by (simp add: file_image_map_to_mem_def find_chunk_def cached_fia_def file_bytes_def fseek_set_def fread_def
      sizeof_mem_chunk_def Let_def)

end
