(* ===== verification/Spec2Isabelle.thy ===== *)
theory Spec2Isabelle
  imports Heap_Typing Guest_Unhidden Entry_Stubs Ap_Protocol File_Access
begin

text \<open>
  Verification of the iKGT loader (\<^verbatim>\<open>src/\<close>): the code that a multiboot loader starts, that saves the state of the processor, loads
  the monitor (xmon) into memory, wakes the other processors and enters the monitor in 64-bit mode on all of them, and that
  starts Linux as the primary guest.

  \<^bold>\<open>Parts and how they interact.\<close> Three programs share one package in memory, described by a header (\<^verbatim>\<open>xmon_desc_t\<close>).
  The \<^emph>\<open>starter\<close> saves the registers as a guest state, checks for VMX, loads the \<^emph>\<open>loader\<close> with the ELF loader and calls it. The
  loader sets up a heap and an interrupt table, translates the memory map, loads the images of the monitor and of \<^emph>\<open>startap\<close>,
  prepares the guest, the stacks of the application processors (APs), a GDT and page tables for 64-bit mode, and calls startap.
  Startap wakes the APs by inter-processor interrupts, numbers them, and has every processor enter the monitor. The monitor resumes
  the guest in the loader, which hides the monitor's memory from the memory map and starts Linux.

  \<^bold>\<open>Theories and sources.\<close>
  \<^item> \<open>Loader_Prelude\<close>: flat 32-bit memory (\<open>mem\<close>, a function from addresses to bytes), little-endian loads and stores, ranges that may
    wrap around (\<open>in_range\<close>, \<open>inside\<close>, \<open>sep\<close>), and the lemmas about them that the components share.
  \<^item> \<open>Loader_Memory\<close>: \<^verbatim>\<open>common/util/linux/common.c\<close> and \<^verbatim>\<open>utils/memory/memory.c\<close>. A locale states the contract of a bump
    allocator; it is interpreted by \<^verbatim>\<open>allocate_memory\<close> and by \<^verbatim>\<open>mon_page_alloc\<close>, and the disjointness of the blocks is proved once in it.
  \<^item> \<open>Screen\<close>: \<^verbatim>\<open>utils/screen/screen.c\<close>. \<open>Image_Access\<close>, \<open>File_Access\<close>: the two image accessors
    (\<^verbatim>\<open>common/ld/image_accessors\<close>).
  \<^item> \<open>Elf_Info\<close>, \<open>Elf_Segments\<close>, \<open>Elf64_Ld\<close>, \<open>Elf32_Ld\<close>, \<open>Elf_Ld\<close>: \<^verbatim>\<open>common/ld/elf_ld\<close>. What both classes do with segments and
    relocations is a locale of \<open>Elf_Segments\<close> with an interpretation per class. \<open>Elf64_Image\<close>: what happens to a 64-bit image after its segments are
    loaded (copied headers, dynamic section, relocation), described field by field.
  \<^item> \<open>Boot_Info\<close>: \<^verbatim>\<open>starter/xmon_desc.h\<close> and \<^verbatim>\<open>multiboot1.h\<close>. \<open>E820\<close>: \<^verbatim>\<open>xmon_loader/e820.c\<close>. \<open>Linux_Loader\<close>:
    \<^verbatim>\<open>xmon_loader/linux_loader.c\<close> with its header and \<^verbatim>\<open>primary_guest.c\<close>. \<open>Guest_Launch\<close>, \<open>Guest_Unhidden\<close>: the hand-over to Linux, composed of these,
    with the monitor's memory hidden, and when it cannot be.
  \<^item> \<open>X64_Base\<close>: bit fields of 32-bit words, and zeroed pages; \<open>Gdt64\<close>, \<open>Paging\<close>: \<^verbatim>\<open>utils/x64\<close>; \<open>Idt\<close>: \<^verbatim>\<open>xmon_loader/idt.c\<close>.
  \<^item> \<open>Ap_Startup\<close>, \<open>Ap_Ipi\<close>: the boot processor's side of \<^verbatim>\<open>startap/ap_procs_init.c\<close>, and the wake-up sequence on a platform with
    a steady clock (each read of the counter or of the calibration port takes a bounded time, and the local APIC accepts every
    message), from the uncalibrated state in which the image starts. \<open>Ap_Protocol\<close>: the hand-shake of the boot processor with the APs (\<^verbatim>\<open>ap_procs_init.c\<close> and
    \<^verbatim>\<open>ap_continue_wakeup_code\<close> of \<^verbatim>\<open>wakeup_init64.S\<close>) as a step relation; locales for invariants and for progress of
    step relations, interpreted by it. The APs have identifiers inside the presence array, other than 0.
  \<^item> \<open>Startap\<close>: \<^verbatim>\<open>startap.c\<close>, \<^verbatim>\<open>x32_init64.c\<close> and \<^verbatim>\<open>start_64bit_mode\<close>. \<open>Xmon_Loader\<close>: \<^verbatim>\<open>xmon_loader.c\<close>. \<open>Starter\<close>:
    \<^verbatim>\<open>starter_main.c\<close> and \<^verbatim>\<open>run_xmon_loader.c\<close>. \<open>Heap_Typing\<close>: the heap's invariant through the whole of \<^verbatim>\<open>xmon_loader\<close>.
  \<^item> \<open>Entry_Stubs\<close>: \<^verbatim>\<open>starter.S\<close>, \<^verbatim>\<open>pg_entry.S\<close> and \<^verbatim>\<open>chain_load.S\<close>, with the C functions that they call.
  \<^item> This theory: what needs both the loader and the hand-shake.

  \<^bold>\<open>State and operations.\<close> An operation of the code is a definition with the name of the C function. Its state is explicit: the
  memory alone, \<open>loader_state\<close> (memory, heap, cursor), \<open>x64_state\<close> (in addition the statics of \<^verbatim>\<open>utils/x64\<close>), \<open>ap_globals\<close> with a
  world for the devices, \<open>handshake\<close> for the interleaving. Integers are words of the width of the C type, so they wrap as in the
  code; types are those of the 32-bit build. A loop is a recursive function; where it may run for ever (assertions,
  waiting for a device, a 16-bit counter that cannot reach its bound) it is a \<open>partial_function\<close> or a step of one, and
  \<open>None\<close> says that it does not return; that loops do return is proved where it is claimed. There is no fuel. Calls that do not return (the
  launch of Linux, of the monitor and of startap) are values that say what is called with which arguments.

  \<^bold>\<open>Parameters.\<close> Headers and macros of the iKGT core are not in \<^verbatim>\<open>src/\<close>: layouts of its structures, bit fields, constants and macros
  such as \<^verbatim>\<open>ALIGN_FORWARD\<close> are fields of parameter records (\<open>elf_env\<close>, \<open>e820_env\<close>, \<open>desc_env\<close>, \<open>em64t_env\<close>, \<open>apic_env\<close>, \<open>seg_env\<close>,
  \<open>xmon_env\<close>). What the code relies on is a named hypothesis (\<open>ALIGN_FORWARD_ok\<close>, \<open>em64t_ok\<close>, \<open>desc_ok\<close>, \<open>seg_ok\<close>,
  \<open>gp_layout_ok\<close>, \<open>steady\<close>) that states the documented format of the processor or the documented meaning of the macro; instances with the prefix
  \<open>std\<close> or \<open>demo\<close> show that each can hold.

  \<^bold>\<open>What is shown.\<close>
  \<^item> Images: the load information is the span of the loadable segments; the segment loop writes exactly the intended bytes and zeroes and, for
    64-bit images, nothing outside the reported span; relative relocations are applied once each; \<^verbatim>\<open>load_image\<close> of a 64-bit image
    then adds the offset to the addresses in the copied headers and in the targets of relative relocations, changes nothing else, and
    returns the intended entry. Layout conditions (segments apart from the image and each other, headers apart from
    what is relocated) are hypotheses; relocations against symbols are modelled, with no theorem.
  \<^item> Memory: blocks of the heap are disjoint; the regions of the memory map follow each other; the translated map has every entry;
    hiding the monitor's memory removes exactly it from the available memory; Linux is given every entry; together, Linux is told of exactly the
    available memory outside the monitor. The heap pointer stays between base and top throughout the loader.
  \<^item> Entry and exit: the registers with which the package is entered reach the guest's state, the guest resumes with the package, and Linux is
    entered as the 32-bit boot protocol asks.
  \<^item> 64-bit mode: the tables map the low 4 GB onto itself; the new GDT has the code segment that its selector names; the gates of the
    interrupt table lead to the handlers of their exceptions (though the register that should point to the table does not, below); a processor arrives at the given address with its arguments.
  \<^item> Processors: the low-memory code is patched as intended, the wake-up messages are sent in order with
    the delays that the code computes between them (the documented ones when the computation does not overflow 32 bits), numbers are distinct, the
    hand-shake ends with every AP in the user's function, stacks are disjoint.
  \<^item> Errors: what happens without VMX, with memory information that the loader rejects, with too many processors, with a memory map in which the monitor cannot be hidden, and where the code is wrong: products that
    overflow in 32 bits, late processors, selectors beyond the table, counters that never end, an interrupt
    descriptor whose base is not where \<^verbatim>\<open>lidt\<close> reads it, segment bases from 2 GB on that are saved with a sign extension, a search for memory that
    depends on the order of the map.

  \<^bold>\<open>Not modelled.\<close> The instructions behind the accessors in inline assembly and the BIOS services of \<^verbatim>\<open>chain_load.S\<close> are fields of
  parameter records, and \<^verbatim>\<open>FREE\<close> of \<^verbatim>\<open>mem_image_close\<close>, a macro of the core, is an argument. Left out are the macro variants \<^verbatim>\<open>UNIPROC\<close> and
  \<^verbatim>\<open>BREAK_IN_AP_STARTUP\<close>, the debug prints outside \<^verbatim>\<open>idt.c\<close> and \<^verbatim>\<open>x32_gdt64.c\<close>, and the scripts that build the package. In the starter, the
  fields of the guest state other than the general registers form a record of their own instead of bytes in memory, because their
  offsets are not in \<^verbatim>\<open>src/\<close> and no later code of the loader reads them.
\<close>

section \<open>Stacks of the application processors\<close>

text \<open>
  The stack pointer that an AP with number \<open>k\<close> loads (\<^verbatim>\<open>stage_2\<close> of \<^verbatim>\<open>startap/wakeup_init64.S\<close>): entry \<open>k - 1\<close> of \<^verbatim>\<open>i32_esp\<close> in the
  structure at \<open>p\<close>, which \<^verbatim>\<open>gp_init32_data\<close> points to; and the two pages below it.
\<close>

definition ap_stack_top :: "mem \<Rightarrow> u32 \<Rightarrow> u8 \<Rightarrow> u32" where
  "ap_stack_top m p k = (let ecx = ucast k; eax = push_bit 2 (ecx - 1); edx = p + 8 + eax in load32 m edx)"

definition ap_stack :: "mem \<Rightarrow> u32 \<Rightarrow> u8 \<Rightarrow> nat set" where
  "ap_stack m p k = {unat (ap_stack_top m p k) - 8192..<unat (ap_stack_top m p k)}"

lemma ap_stack_top_esp:
  assumes "1 \<le> unat k"
  shows "ap_stack_top m p k = i32_esp m p (unat k - 1)"
proof -
  obtain j where j: "unat k = Suc j" using assms by (cases "unat k") auto
  then have "(ucast k :: u32) = of_nat (Suc j)" using of_nat_unat [of k] by metis
  then show ?thesis by (simp add: ap_stack_top_def i32_esp_def push_bit_eq_mult j algebra_simps)
qed

lemma ap_stack_blocks:
  assumes esp: "\<forall>j < n. i32_esp m I j = B + of_nat (8192 * Suc j)" and n: "unat B + 8192 * n < 2 ^ 32"
    and k: "1 \<le> unat k" "unat k \<le> n"
  shows "ap_stack m I k = {unat B + 8192 * (unat k - 1)..<unat B + 8192 * unat k}"
proof -
  obtain j where j: "unat k = Suc j" using k(1) by (cases "unat k") auto
  then have "ap_stack_top m I k = B + of_nat (8192 * unat k)" using ap_stack_top_esp [OF k(1)] esp k(2) by simp
  moreover have "unat (of_nat (8192 * unat k) :: u32) = 8192 * unat k" using n k(2) by (intro unat_of_nat32) simp
  ultimately have "unat (ap_stack_top m I k) = unat B + 8192 * unat k" using n k(2) by (simp add: unat_word_ariths(1) del: of_nat_mult)
  then show ?thesis by (simp add: ap_stack_def j)
qed

text \<open>
  C6. Loader and hand-shake together: when the loader has made its call to \<^verbatim>\<open>startap\<close>, and then at any moment of any
  interleaving of the hand-shake in which no AP is late and no more APs have been counted than the loader has prepared stacks for,
  two APs that have their numbers run on disjoint stacks of two pages, each inside the loader's heap.
\<close>

theorem ap_stacks_private:
  fixes X :: xmon_env and x :: x64_state
  defines "n \<equiv> max_aps X" and "B \<equiv> page_base (ld x)" and "I \<equiv> a_init32 X"
  assumes core: "desc_ok (x_desc X)" "em64t_ok (x_em64t X)" "ALIGN_FORWARD_ok (ALIGN_FORWARD X)"
    and room: "page_room (2 * n + 7) (ld x)" "unat (heap_tops (ld x)) + 12287 < 2 ^ 32"
    and gdt: "0 < g" "g + 2 \<le> 512" "unat (g_limit (x_gdtr X)) = 8 * g - 1"
    and apart: "sep B (4096 * (2 * n + 7)) I (8 + 4 * n)" "sep B (4096 * (2 * n + 7)) (g_base (x_gdtr X)) (8 * g)"
    and hs: "N \<le> 256" "(step False)\<^sup>*\<^sup>* (h_start N) s" "unat (h_aps s) \<le> n"
    and ij: "i \<in> cells s" "j \<in> cells s" "i \<noteq> j"
    and k: "h_ap s i = Have_Id k \<or> h_ap s i = In_User k" and l: "h_ap s j = Have_Id l \<or> h_ap s j = In_User l"
  shows "\<exists>i64 x'. setup_and_call X call_startap call_xmon env x
      = Some (Calls_startap (ucast call_startap) I i64 env (ucast call_xmon) x')
    \<and> ap_stack (mem (ld x')) I k \<inter> ap_stack (mem (ld x')) I l = {}
    \<and> ap_stack (mem (ld x')) I k \<subseteq> {unat (heap_current (ld x))..<unat (heap_tops (ld x))}
    \<and> card (ap_stack (mem (ld x')) I k) = 8192"
proof -
  have ik: "k \<noteq> l" "1 \<le> unat k" "unat k \<le> n" using ap_ids_distinct [OF hs(1,2) ij k l] hs(3) by auto
  have il: "1 \<le> unat l" "unat l \<le> n"
    using ap_ids_distinct [OF hs(1,2) ij(2,1) ij(3) [symmetric] l k] hs(3) by auto
  obtain i64 x' where c: "setup_and_call X call_startap call_xmon env x
      = Some (Calls_startap (ucast call_startap) (if n \<noteq> 0 then I else 0) i64 env (ucast call_xmon) x')"
    and esp: "\<forall>j < n. i32_esp (mem (ld x')) I j = B + of_nat (8192 * Suc j)"
    using setup_and_call_eq [OF core room [unfolded n_def] gdt apart [unfolded n_def B_def I_def], of call_startap call_xmon env]
    unfolding n_def [symmetric] B_def [symmetric] I_def [symmetric] by blast
  have B: "unat B = round_page (unat (heap_current (ld x)))" unfolding B_def by (rule page_base_unat [OF room(1)])
  have fits: "unat B + 8192 * n \<le> unat (heap_tops (ld x))" "unat (heap_current (ld x)) \<le> unat B"
    using room(1) round_page_bounds(1) [of "unat (heap_current (ld x))"] by (auto simp: page_room_def B)
  have lt: "unat B + 8192 * n < 2 ^ 32" using fits unat_bound(3) [of "heap_tops (ld x)"] by simp
  note blk = ap_stack_blocks [OF esp lt]
  have "unat k < unat l \<or> unat l < unat k" using ik(1) by (auto simp: word_unat_eq_iff)
  then have "ap_stack (mem (ld x')) I k \<inter> ap_stack (mem (ld x')) I l = {}"
    unfolding blk [OF ik(2,3)] blk [OF il] by auto
  moreover have "ap_stack (mem (ld x')) I k \<subseteq> {unat (heap_current (ld x))..<unat (heap_tops (ld x))}"
    unfolding blk [OF ik(2,3)] using fits mult_le_mono2 [OF ik(3), of 8192] by auto
  moreover have "card (ap_stack (mem (ld x')) I k) = 8192"
    unfolding blk [OF ik(2,3)] using ik(2) by (simp add: diff_mult_distrib2)
  ultimately show ?thesis using c ik(2,3) by auto
qed

text \<open>Three logical processors, both APs in the user's function.\<close>

definition three_cpus :: xmon_env where
  "three_cpus = demo_xmon\<lparr>x_cpuid := demo_cpuid 0x30000\<rparr>"

theorem ap_stacks_private_witness:
  "\<exists>i64 x'. setup_and_call three_cpus 0x30000 0x40000 0x600 demo_x64 = Some (Calls_startap 0x30000 0x800 i64 0x600 0x40000 x')
    \<and> ap_stack (mem (ld x')) 0x800 1 \<inter> ap_stack (mem (ld x')) 0x800 2 = {}"
proof -
  let ?X = three_cpus
  have X: "desc_ok (x_desc ?X)" "em64t_ok (x_em64t ?X)" "ALIGN_FORWARD_ok (ALIGN_FORWARD ?X)"
    using demo_core by (simp_all add: three_cpus_def)
  have a: "max_aps ?X = 2" "a_init32 ?X = 0x800" "g_base (x_gdtr ?X) = 0x900" "unat (g_limit (x_gdtr ?X)) = 8 * 2 - 1"
    by (simp_all add: three_cpus_def demo_xmon_def max_aps_def cpuid_def)
  have b: "page_base (ld demo_x64) = 0x11000"
    by (simp add: page_base_def demo_x64_def small_heap_def round_page_def)
  have "page_room (2 * max_aps ?X + 7) (ld demo_x64)" "unat (heap_tops (ld demo_x64)) + 12287 < 2 ^ 32"
    by (simp_all add: a page_room_def heap_inv_def demo_x64_def small_heap_def round_page_def)
  from ap_stacks_private [OF X this, where g = 2 and N = 3 and i = 1 and j = 2 and k = 1 and l = 2 and call_startap = "0x30000"
      and call_xmon = "0x40000" and env = "0x600", OF _ _ _ _ _ _ both_in_time]
  show ?thesis by (auto simp: a b sep_def three_def)
qed

end
